(* ===== verification/Prelude.thy ===== *)
theory Prelude
  imports Main
    "HOL-Library.Word"
    "HOL-Library.Sublist"
    "HOL-Library.AList"
    "HOL-Library.Char_ord"
    "HOL-Library.List_Lexorder"
begin

text \<open>
  Shared vocabulary of the development: names and paths, Go's file modes as
  32-bit words, the two uses of Go's \<open>strings.Replace\<close> that makesm.go makes
  (\<open>n = 1\<close> and \<open>n = -1\<close>), the rendering of a path as a string, and generic
  lemmas on association lists and list filters that the component proofs share.
\<close>

named_theorems fs_simps "equations that evaluate the file-system model"
named_theorems frame_rules "frame lemmas: what an operation leaves untouched"
named_theorems grows_rules "steps that keep every directory and the tree invariant"

type_synonym name = string
type_synonym path = "name list"
type_synonym mode = "32 word"

subsection \<open>Go's strings.Replace\<close>

text \<open>
  \<open>strings.Replace(s, old, new, 1)\<close>: the first occurrence of \<open>old\<close> is replaced;
  an empty \<open>old\<close> matches at the start.
\<close>

fun replace_first :: "string \<Rightarrow> string \<Rightarrow> string \<Rightarrow> string" where
  "replace_first old new [] = (if old = [] then new else [])"
| "replace_first old new (c # cs) =
     (if prefix old (c # cs) then new @ drop (length old) (c # cs)
      else c # replace_first old new cs)"

text \<open>
  \<open>strings.Replace(s, old, new, -1)\<close>: every non-overlapping occurrence, scanning
  from the left; an empty \<open>old\<close> matches before every character and at the end.
\<close>

function replace_all :: "string \<Rightarrow> string \<Rightarrow> string \<Rightarrow> string" where
  "replace_all old new [] = (if old = [] then new else [])"
| "replace_all old new (c # cs) =
     (if old = [] then new @ c # replace_all old new cs
      else if prefix old (c # cs) then new @ replace_all old new (drop (length old) (c # cs))
      else c # replace_all old new cs)"
  by pat_completeness auto
termination
  by (relation "measure (\<lambda>(old, new, s). length s)") auto

text \<open>A path rendered with the platform's separator, as \<open>filepath.Join\<close> prints it.\<close>

fun path_str :: "char \<Rightarrow> path \<Rightarrow> string" where
  "path_str sep [] = []"
| "path_str sep [n] = n"
| "path_str sep (n # m # ns) = n @ sep # path_str sep (m # ns)"

subsection \<open>Generic lemmas\<close>

lemma prefix_append_Cons_notin:
  assumes "prefix old (xs @ y # ys)" and "y \<notin> set old"
  shows "prefix old xs"
proof (cases "length old \<le> length xs")
  case True
  with assms(1) show ?thesis
    by (metis prefix_length_prefix prefix_order.order_refl prefixI)
next
  case False
  from assms(1) obtain zs where "xs @ y # ys = old @ zs" by (auto simp: prefix_def)
  with False have "old ! length xs = y"
    by (metis nth_append nth_append_length not_le_imp_less)
  with False have "y \<in> set old" by (metis nth_mem not_le)
  with assms(2) show ?thesis by simp
qed

lemma replace_all_append_sep:
  assumes "y \<notin> set old" and "old \<noteq> []"
  shows "replace_all old new (xs @ y # ys) = replace_all old new xs @ y # replace_all old new ys"
  using assms
proof (induction old new xs rule: replace_all.induct)
  case (1 old new)
  have "\<not> prefix old (y # ys)"
    using 1 by (cases old) auto
  with 1 show ?case by simp
next
  case (2 old new c cs)
  show ?case
  proof (cases "prefix old (c # cs)")
    case True
    then have "drop (length old) (c # cs @ y # ys) = drop (length old) (c # cs) @ y # ys"
      by (metis append_Cons drop_append prefix_length_le diff_is_0_eq drop0 append_Nil)
    moreover have "length (drop (length old) (c # cs)) < Suc (length cs)"
      using "2.prems"(2) by simp
    ultimately show ?thesis
      using True "2.prems" "2.IH"(2) prefix_prefix by fastforce
  next
    case False
    with "2.prems" have "\<not> prefix old (c # cs @ y # ys)"
      using prefix_append_Cons_notin [of old "c # cs" y ys] by auto
    with False "2.prems" "2.IH"(3) show ?thesis by simp
  qed
qed

text \<open>
  Replacing in the rendered path is replacing in each component, when the
  pattern does not contain the separator: the justification for modelling a
  replacement over a whole path component-wise.
\<close>

lemma replace_all_path_str:
  assumes "sep \<notin> set old" and "old \<noteq> []"
  shows "replace_all old new (path_str sep p) = path_str sep (map (replace_all old new) p)"
proof (induction p)
  case Nil
  from assms(2) show ?case by simp
next
  case (Cons n ns)
  then show ?case
    using replace_all_append_sep [OF assms] by (cases ns) auto
qed

end
