(* ===== verification/FileSystem.thy ===== *)
theory FileSystem
  imports Prelude
begin

unbundle bit_operations_syntax

text \<open>
  The environment makesm.go runs in: a file system, the Go \<open>os\<close> primitives the
  program calls (\<open>os.Stat\<close>, \<open>os.Mkdir\<close>, \<open>os.MkdirAll\<close>, \<open>os.Create\<close>, writes,
  \<open>os.ReadFile\<close>, \<open>os.ReadDir\<close>, \<open>os.RemoveAll\<close>, \<open>os.Chmod\<close>) and the process
  state (the disk and the transcript of what the program prints).
  The file system is an association list from paths to nodes; the empty path is
  the working directory, which always exists. These are library functions, not
  code of the repository: they are the interface the components are verified
  against.
\<close>

datatype node = File mode string | Dir mode

type_synonym fsys = "(path \<times> node) list"

datatype errno = ENOENT | EEXIST | ENOTDIR | EISDIR

datatype oserr =
    PathError string path errno
  | NotRegular path
  | ExecFailed path

record osenv =
  goos :: string
  umask :: mode
  sqlite :: "string option \<Rightarrow> string \<Rightarrow> string option"

record proc =
  disk :: fsys
  out :: "string list"

subsection \<open>Looking at the file system\<close>

definition stat :: "fsys \<Rightarrow> path \<Rightarrow> node option" where
  "stat fs p = (if p = [] then Some (Dir 0x1FF) else map_of fs p)"

definition is_dir :: "fsys \<Rightarrow> path \<Rightarrow> bool" where
  "is_dir fs p = (case stat fs p of Some (Dir _) \<Rightarrow> True | _ \<Rightarrow> False)"

definition is_file :: "fsys \<Rightarrow> path \<Rightarrow> bool" where
  "is_file fs p = (case stat fs p of Some (File _ _) \<Rightarrow> True | _ \<Rightarrow> False)"

definition content :: "fsys \<Rightarrow> path \<Rightarrow> string option" where
  "content fs p = (case stat fs p of Some (File _ c) \<Rightarrow> Some c | _ \<Rightarrow> None)"

primrec node_mode :: "node \<Rightarrow> mode" where
  "node_mode (File m _) = m"
| "node_mode (Dir m) = m"

text \<open>The permission bits a creation gets: the requested ones less the umask.\<close>

definition perm_of :: "osenv \<Rightarrow> mode \<Rightarrow> mode" where
  "perm_of env m = m AND 0x1FF AND NOT (umask env)"

text \<open>Why a new entry cannot be made at \<open>p\<close>: its parent is missing or no directory.\<close>

definition parent_err :: "string \<Rightarrow> fsys \<Rightarrow> path \<Rightarrow> oserr option" where
  "parent_err op fs p =
     (case stat fs (butlast p) of
        None \<Rightarrow> Some (PathError op p ENOENT)
      | Some (File _ _) \<Rightarrow> Some (PathError op p ENOTDIR)
      | Some (Dir _) \<Rightarrow> None)"

subsection \<open>The os primitives\<close>

text \<open>\<open>os.Mkdir(p, m)\<close>: exclusive creation of one directory.\<close>

definition os_mkdir :: "osenv \<Rightarrow> path \<Rightarrow> mode \<Rightarrow> fsys \<Rightarrow> oserr + fsys" where
  "os_mkdir env p m fs =
     (if stat fs p \<noteq> None then Inl (PathError ''mkdir'' p EEXIST)
      else case parent_err ''mkdir'' fs p of
        Some e \<Rightarrow> Inl e
      | None \<Rightarrow> Inr (AList.update p (Dir (perm_of env m)) fs))"

text \<open>
  \<open>os.MkdirAll(p, m)\<close>: nothing to do for an existing directory, an error for an
  existing non-directory, otherwise the parent first and then \<open>p\<close>.
\<close>

function os_mkdirAll :: "osenv \<Rightarrow> path \<Rightarrow> mode \<Rightarrow> fsys \<Rightarrow> oserr + fsys" where
  "os_mkdirAll env p m fs =
     (case stat fs p of
        Some (Dir _) \<Rightarrow> Inr fs
      | Some (File _ _) \<Rightarrow> Inl (PathError ''mkdir'' p ENOTDIR)
      | None \<Rightarrow>
          (if p = [] then os_mkdir env p m fs
           else case os_mkdirAll env (butlast p) m fs of
             Inl e \<Rightarrow> Inl e
           | Inr fs' \<Rightarrow> os_mkdir env p m fs'))"
  by pat_completeness auto
termination
  by (relation "measure (\<lambda>(env, p, m, fs). length p)") auto

declare os_mkdirAll.simps [simp del]

text \<open>
  \<open>os.Create(p)\<close>: opens with \<open>O_CREATE|O_TRUNC\<close> and mode 0666; an existing
  file is truncated and keeps its mode.
\<close>

definition os_create :: "osenv \<Rightarrow> path \<Rightarrow> fsys \<Rightarrow> oserr + fsys" where
  "os_create env p fs =
     (case stat fs p of
        Some (Dir _) \<Rightarrow> Inl (PathError ''open'' p EISDIR)
      | Some (File m _) \<Rightarrow> Inr (AList.update p (File m []) fs)
      | None \<Rightarrow>
          (case parent_err ''open'' fs p of
             Some e \<Rightarrow> Inl e
           | None \<Rightarrow> Inr (AList.update p (File (perm_of env 0x1B6) []) fs)))"

text \<open>A write through a handle opened on \<open>p\<close>: appends to the file's content.\<close>

definition os_write :: "path \<Rightarrow> string \<Rightarrow> fsys \<Rightarrow> fsys" where
  "os_write p c fs =
     (case map_of fs p of
        Some (File m c0) \<Rightarrow> AList.update p (File m (c0 @ c)) fs
      | _ \<Rightarrow> fs)"

definition os_readfile :: "path \<Rightarrow> fsys \<Rightarrow> oserr + string" where
  "os_readfile p fs =
     (case stat fs p of
        None \<Rightarrow> Inl (PathError ''open'' p ENOENT)
      | Some (Dir _) \<Rightarrow> Inl (PathError ''read'' p EISDIR)
      | Some (File _ c) \<Rightarrow> Inr c)"

text \<open>
  \<open>os.ReadDir(p)\<close>: the entries of a directory sorted by name, each with the
  directory flag that \<open>DirEntry.IsDir\<close> reports.
\<close>

definition children :: "fsys \<Rightarrow> path \<Rightarrow> (name \<times> bool) list" where
  "children fs p =
     [(last q, case v of Dir _ \<Rightarrow> True | File _ _ \<Rightarrow> False).
        (q, v) \<leftarrow> fs, q \<noteq> [] \<and> butlast q = p]"

definition os_readdir :: "path \<Rightarrow> fsys \<Rightarrow> oserr + (name \<times> bool) list" where
  "os_readdir p fs =
     (case stat fs p of
        None \<Rightarrow> Inl (PathError ''open'' p ENOENT)
      | Some (File _ _) \<Rightarrow> Inl (PathError ''readdirent'' p ENOTDIR)
      | Some (Dir _) \<Rightarrow> Inr (sort_key fst (children fs p)))"

text \<open>\<open>os.RemoveAll(p)\<close>: \<open>p\<close> and everything below it; the empty path is ignored.\<close>

definition os_removeAll :: "path \<Rightarrow> fsys \<Rightarrow> fsys" where
  "os_removeAll p fs = (if p = [] then fs else filter (\<lambda>(q, _). \<not> prefix p q) fs)"

text \<open>\<open>os.Chmod(p, m)\<close>: sets the permission bits; the umask does not apply.\<close>

definition os_chmod :: "path \<Rightarrow> mode \<Rightarrow> fsys \<Rightarrow> oserr + fsys" where
  "os_chmod p m fs =
     (case map_of fs p of
        None \<Rightarrow> Inl (PathError ''chmod'' p ENOENT)
      | Some (File _ c) \<Rightarrow> Inr (AList.update p (File (m AND 0x1FF) c) fs)
      | Some (Dir _) \<Rightarrow> Inr (AList.update p (Dir (m AND 0x1FF)) fs))"

subsection \<open>Process steps\<close>

text \<open>
  A step of the program either continues (\<open>Inr\<close>) or has ended the process through
  \<open>log.Fatal\<close> (\<open>Inl\<close>), in the state it ended in; \<open>None\<close> is a step that does not
  return. \<open>logln\<close> appends one line to the transcript.
\<close>

type_synonym outcome = "proc + proc"
type_synonym step = "proc \<Rightarrow> outcome option"

definition logln :: "string \<Rightarrow> proc \<Rightarrow> proc" where
  "logln msg s = s\<lparr>out := out s @ [msg]\<rparr>"

definition fatal :: "string \<Rightarrow> proc \<Rightarrow> outcome" where
  "fatal msg s = Inl (logln msg s)"

definition andThen :: "step \<Rightarrow> step \<Rightarrow> step" where
  "andThen f g s = Option.bind (f s) (\<lambda>r. case r of Inl s' \<Rightarrow> Some (Inl s') | Inr s' \<Rightarrow> g s')"

fun run_steps :: "step list \<Rightarrow> step" where
  "run_steps [] s = Some (Inr s)"
| "run_steps (f # fs) s = andThen f (run_steps fs) s"

subsection \<open>Error texts\<close>

primrec errno_text :: "errno \<Rightarrow> string" where
  "errno_text ENOENT = ''no such file or directory''"
| "errno_text EEXIST = ''file exists''"
| "errno_text ENOTDIR = ''not a directory''"
| "errno_text EISDIR = ''is a directory''"

definition sep_of :: "osenv \<Rightarrow> char" where
  "sep_of env = (if goos env = ''windows'' then CHR 0x5C else CHR ''/'')"

text \<open>\<open>err.Error()\<close> of the errors above (\<open>*PathError\<close> prints op, path, cause).\<close>

primrec err_text :: "osenv \<Rightarrow> oserr \<Rightarrow> string" where
  "err_text env (PathError op p e) = op @ '' '' @ path_str (sep_of env) p @ '': '' @ errno_text e"
| "err_text env (NotRegular p) = path_str (sep_of env) p @ '' is not a regular file''"
| "err_text env (ExecFailed p) = ''exec: '' @ path_str (sep_of env) p"

subsection \<open>Well-formed file systems\<close>

text \<open>
  A file system is a tree: every path is stored once, and every stored entry
  hangs below a directory (the working directory for a one-component path).
\<close>

definition node_is_dir :: "node \<Rightarrow> bool" where
  "node_is_dir v = (case v of Dir _ \<Rightarrow> True | File _ _ \<Rightarrow> False)"

definition fs_wf :: "fsys \<Rightarrow> bool" where
  "fs_wf fs = (distinct (map fst fs) \<and> list_all (\<lambda>(p, _). p \<noteq> [] \<and> is_dir fs (butlast p)) fs)"

text \<open>
  \<open>grows fs fs'\<close>: every directory of \<open>fs\<close> is still a directory in \<open>fs'\<close>, and a
  well-formed \<open>fs\<close> gives a well-formed \<open>fs'\<close>. Every primitive but \<open>os.RemoveAll\<close>
  makes the disk grow in this sense.
\<close>

definition grows :: "fsys \<Rightarrow> fsys \<Rightarrow> bool" where
  "grows fs fs' = ((\<forall>p. is_dir fs p \<longrightarrow> is_dir fs' p) \<and> (fs_wf fs \<longrightarrow> fs_wf fs'))"

text \<open>The state an outcome leaves, whether the process continues or ended.\<close>

definition res_state :: "outcome \<Rightarrow> proc" where
  "res_state r = (case r of Inl s \<Rightarrow> s | Inr s \<Rightarrow> s)"

text \<open>A step that, whenever it returns, relates the disk before and after by \<open>Q\<close>.\<close>

definition step_keeps :: "(fsys \<Rightarrow> fsys \<Rightarrow> bool) \<Rightarrow> step \<Rightarrow> bool" where
  "step_keeps Q f = (\<forall>s r. f s = Some r \<longrightarrow> Q (disk s) (disk (res_state r)))"

subsection \<open>Lemmas on the primitives\<close>

lemma stat_Nil [simp]: "stat fs [] = Some (Dir 0x1FF)"
  by (simp add: stat_def)

lemma stat_Cons [simp]: "stat fs (n # p) = map_of fs (n # p)"
  by (simp add: stat_def)

lemma stat_update [fs_simps]:
  "stat (AList.update p v fs) q = (if q = p \<and> p \<noteq> [] then Some v else stat fs q)"
  by (simp add: stat_def update_conv')

lemma is_dir_stat: "is_dir fs p \<longleftrightarrow> (\<exists>m. stat fs p = Some (Dir m))"
  by (simp add: is_dir_def split: option.splits node.splits)

lemma is_file_stat: "is_file fs p \<longleftrightarrow> (\<exists>m c. stat fs p = Some (File m c))"
  by (simp add: is_file_def split: option.splits node.splits)

lemma content_stat: "content fs p = Some c \<longleftrightarrow> (\<exists>m. stat fs p = Some (File m c))"
  by (auto simp add: content_def split: option.splits node.splits)

lemma map_of_filter_keys:
  "map_of (filter (\<lambda>(q, _). P q) fs) k = (if P k then map_of fs k else None)"
  by (induct fs) auto

lemma stat_removeAll [fs_simps]:
  "stat (os_removeAll p fs) q = (if p \<noteq> [] \<and> prefix p q then None else stat fs q)"
  by (cases q) (auto simp: os_removeAll_def map_of_filter_keys)

lemma wf_iff:
  "fs_wf fs \<longleftrightarrow> distinct (map fst fs) \<and>
     (\<forall>p v. map_of fs p = Some v \<longrightarrow> p \<noteq> [] \<and> is_dir fs (butlast p))"
  by (simp add: fs_wf_def list_all_iff) (blast dest: map_of_SomeD weak_map_of_SomeI)

lemma wf_update:
  assumes "fs_wf fs" and "p \<noteq> []" and "is_dir fs (butlast p)"
    and "is_dir fs p \<longrightarrow> node_is_dir v"
  shows "fs_wf (AList.update p v fs)"
  unfolding wf_iff
proof (rule conjI)
  show "distinct (map fst (AList.update p v fs))"
    using assms(1) by (simp add: wf_iff distinct_update)
next
  show "\<forall>q w. map_of (AList.update p v fs) q = Some w \<longrightarrow>
          q \<noteq> [] \<and> is_dir (AList.update p v fs) (butlast q)"
  proof (intro allI impI)
    fix q w
    assume q: "map_of (AList.update p v fs) q = Some w"
    show "q \<noteq> [] \<and> is_dir (AList.update p v fs) (butlast q)"
    proof (cases "q = p")
      case True
      have "butlast p \<noteq> p" using assms(2)
        by (metis length_butlast diff_less length_greater_0_conv zero_less_one less_irrefl)
      with True assms(2,3) show ?thesis
        by (auto simp: is_dir_stat stat_update)
    next
      case False
      with q assms(1) have "q \<noteq> []" and par: "is_dir fs (butlast q)"
        by (auto simp: wf_iff update_conv')
      with assms(2,4) show ?thesis
        by (auto simp: is_dir_stat stat_update node_is_dir_def split: node.splits)
    qed
  qed
qed

lemma parent_err_None [simp]: "parent_err op fs p = None \<longleftrightarrow> is_dir fs (butlast p)"
  by (simp add: parent_err_def is_dir_def split: option.splits node.splits)

lemma wf_map_of_SomeD:
  "fs_wf fs \<Longrightarrow> map_of fs p = Some v \<Longrightarrow> p \<noteq> [] \<and> is_dir fs (butlast p)"
  by (simp add: wf_iff)

lemma wf_update_same_kind:
  assumes "fs_wf fs" and "map_of fs p = Some v0" and "node_is_dir v = node_is_dir v0"
  shows "fs_wf (AList.update p v fs)"
proof -
  from assms(1,2) have "p \<noteq> []" and "is_dir fs (butlast p)"
    by (auto dest: wf_map_of_SomeD)
  moreover have "is_dir fs p \<longrightarrow> node_is_dir v"
    using assms(2,3) \<open>p \<noteq> []\<close>
    by (cases p) (auto simp: is_dir_stat node_is_dir_def split: node.splits)
  ultimately show ?thesis using assms(1) by (rule_tac wf_update) auto
qed

lemma os_mkdir_Inr:
  "os_mkdir env p m fs = Inr fs' \<longleftrightarrow>
     stat fs p = None \<and> is_dir fs (butlast p) \<and> fs' = AList.update p (Dir (perm_of env m)) fs"
  by (auto simp: os_mkdir_def parent_err_def is_dir_def split: option.splits node.splits)

lemma os_mkdir_exists:
  "stat fs p \<noteq> None \<Longrightarrow> os_mkdir env p m fs = Inl (PathError ''mkdir'' p EEXIST)"
  by (simp add: os_mkdir_def)

lemma stat_None_not_Nil: "stat fs p = None \<Longrightarrow> p \<noteq> []"
  by auto

lemma wf_os_mkdir [intro]:
  "fs_wf fs \<Longrightarrow> os_mkdir env p m fs = Inr fs' \<Longrightarrow> fs_wf fs'"
  by (auto simp: os_mkdir_Inr is_dir_def intro!: wf_update)

lemma stat_os_mkdir [frame_rules]:
  "os_mkdir env p m fs = Inr fs' \<Longrightarrow> q \<noteq> p \<Longrightarrow> stat fs' q = stat fs q"
  by (auto simp: os_mkdir_Inr stat_update)

lemma os_create_Inr:
  "os_create env p fs = Inr fs' \<longleftrightarrow>
     (\<exists>m c. stat fs p = Some (File m c) \<and> fs' = AList.update p (File m []) fs) \<or>
     (stat fs p = None \<and> is_dir fs (butlast p) \<and>
      fs' = AList.update p (File (perm_of env 0x1B6) []) fs)"
  by (auto simp: os_create_def parent_err_def is_dir_def split: option.splits node.splits)

lemma wf_os_create [intro]:
  assumes "fs_wf fs" and "os_create env p fs = Inr fs'"
  shows "fs_wf fs'"
proof -
  from assms(2) consider
      (old) m c where "stat fs p = Some (File m c)" and "fs' = AList.update p (File m []) fs"
    | (new) "stat fs p = None" and "is_dir fs (butlast p)"
        and "fs' = AList.update p (File (perm_of env 0x1B6) []) fs"
    by (auto simp: os_create_Inr)
  then show ?thesis
  proof cases
    case old
    then have "map_of fs p = Some (File m c)" by (cases p) auto
    with old assms(1) show ?thesis
      by (auto intro: wf_update_same_kind simp: node_is_dir_def)
  next
    case new
    with assms(1) show ?thesis by (auto intro!: wf_update simp: is_dir_def)
  qed
qed

lemma stat_os_create [frame_rules]:
  "os_create env p fs = Inr fs' \<Longrightarrow> q \<noteq> p \<Longrightarrow> stat fs' q = stat fs q"
  by (auto simp: os_create_Inr stat_update)

lemma stat_os_create_same:
  "os_create env p fs = Inr fs' \<Longrightarrow> \<exists>m. stat fs' p = Some (File m [])"
  by (auto simp: os_create_Inr stat_update)

lemma os_write_File [fs_simps]:
  "map_of fs p = Some (File m c0) \<Longrightarrow> os_write p c fs = AList.update p (File m (c0 @ c)) fs"
  by (simp add: os_write_def)

lemma wf_os_write [intro]: "fs_wf fs \<Longrightarrow> fs_wf (os_write p c fs)"
  by (auto simp: os_write_def node_is_dir_def split: option.splits node.splits
      intro: wf_update_same_kind)

lemma stat_os_write [frame_rules]: "q \<noteq> p \<Longrightarrow> stat (os_write p c fs) q = stat fs q"
  by (cases q) (auto simp: os_write_def update_conv' split: option.splits node.splits)

lemma wf_os_chmod [intro]: "fs_wf fs \<Longrightarrow> os_chmod p m fs = Inr fs' \<Longrightarrow> fs_wf fs'"
  by (auto simp: os_chmod_def node_is_dir_def split: option.splits node.splits
      intro: wf_update_same_kind)

lemma stat_os_chmod [frame_rules]:
  "os_chmod p m fs = Inr fs' \<Longrightarrow> q \<noteq> p \<Longrightarrow> stat fs' q = stat fs q"
  by (cases q) (auto simp: os_chmod_def update_conv' split: option.splits node.splits)

lemma wf_os_removeAll [intro]: "fs_wf fs \<Longrightarrow> fs_wf (os_removeAll p fs)"
proof (cases "p = []")
  case False
  assume wfs: "fs_wf fs"
  have "distinct (map fst (filter (\<lambda>(q, _). \<not> prefix p q) fs))"
    using wfs by (simp add: wf_iff distinct_map_filter)
  moreover have "is_dir (os_removeAll p fs) (butlast q)"
    if "map_of (os_removeAll p fs) q = Some v" for q v
  proof -
    from that False have np: "\<not> prefix p q" and "map_of fs q = Some v"
      by (auto simp: os_removeAll_def map_of_filter_keys split: if_splits)
    with wfs have "is_dir fs (butlast q)" by (simp add: wf_iff)
    moreover have "\<not> prefix p (butlast q)"
      using np prefix_order.trans [OF _ prefixeq_butlast] by blast
    ultimately show ?thesis by (simp add: is_dir_def stat_removeAll)
  qed
  moreover have "q \<noteq> []" if "map_of (os_removeAll p fs) q = Some v" for q v
    using that wfs False by (auto simp: os_removeAll_def map_of_filter_keys wf_iff split: if_splits)
  ultimately show ?thesis
    using False by (auto simp: wf_iff os_removeAll_def)
qed (simp add: os_removeAll_def)

lemma os_mkdirAll_cases:
  "os_mkdirAll env p m fs = Inr fs' \<Longrightarrow>
     (is_dir fs p \<and> fs' = fs) \<or>
     (stat fs p = None \<and> p \<noteq> [] \<and>
      (\<exists>fs1. os_mkdirAll env (butlast p) m fs = Inr fs1 \<and> os_mkdir env p m fs1 = Inr fs'))"
  by (subst (asm) os_mkdirAll.simps)
     (auto simp: is_dir_def os_mkdir_Inr split: option.splits node.splits sum.splits if_splits)

lemma os_mkdirAll_props:
  "os_mkdirAll env p m fs = Inr fs' \<Longrightarrow>
     is_dir fs' p \<and> (fs_wf fs \<longrightarrow> fs_wf fs') \<and> (\<forall>q. \<not> prefix q p \<longrightarrow> stat fs' q = stat fs q)"
proof (induction env p m fs arbitrary: fs' rule: os_mkdirAll.induct)
  case (1 env p m fs)
  from "1.prems" show ?case
  proof (rule os_mkdirAll_cases [THEN disjE])
    assume "is_dir fs p \<and> fs' = fs"
    then show ?thesis by simp
  next
    assume "stat fs p = None \<and> p \<noteq> [] \<and>
      (\<exists>fs1. os_mkdirAll env (butlast p) m fs = Inr fs1 \<and> os_mkdir env p m fs1 = Inr fs')"
    then obtain fs1 where none: "stat fs p = None" and ne: "p \<noteq> []"
      and r1: "os_mkdirAll env (butlast p) m fs = Inr fs1" and r2: "os_mkdir env p m fs1 = Inr fs'"
      by blast
    have IH: "is_dir fs1 (butlast p) \<and> (fs_wf fs \<longrightarrow> fs_wf fs1) \<and>
        (\<forall>q. \<not> prefix q (butlast p) \<longrightarrow> stat fs1 q = stat fs q)"
      using "1.IH" [OF none ne r1] .
    have "is_dir fs' p"
      using r2 ne by (auto simp: os_mkdir_Inr is_dir_def stat_update)
    moreover have "fs_wf fs \<longrightarrow> fs_wf fs'"
      using IH r2 by blast
    moreover have "stat fs' q = stat fs q" if "\<not> prefix q p" for q
    proof -
      from that have "q \<noteq> p" and "\<not> prefix q (butlast p)"
        using prefix_order.trans [OF _ prefixeq_butlast] by auto
      with IH r2 show ?thesis by (simp add: stat_os_mkdir)
    qed
    ultimately show ?thesis by blast
  qed
qed

lemma os_mkdirAll_exists_dir:
  "is_dir fs p \<Longrightarrow> os_mkdirAll env p m fs = Inr fs"
  by (subst os_mkdirAll.simps) (auto simp: is_dir_def split: option.splits node.splits)

lemma disk_logln [simp]: "disk (logln msg s) = disk s"
  by (simp add: logln_def)

lemma out_logln [simp]: "out (logln msg s) = out s @ [msg]"
  by (simp add: logln_def)

lemma bind_weak_cong: "x = y \<Longrightarrow> Option.bind x f = Option.bind y f"
  by simp

lemma stat_cong_is_dir: "stat fs' p = stat fs p \<Longrightarrow> is_dir fs' p = is_dir fs p"
  by (simp add: is_dir_def)

lemma stat_cong_is_file: "stat fs' p = stat fs p \<Longrightarrow> is_file fs' p = is_file fs p"
  by (simp add: is_file_def)

lemma stat_cong_content: "stat fs' p = stat fs p \<Longrightarrow> content fs' p = content fs p"
  by (simp add: content_def)

lemma stat_cong_readfile: "stat fs' p = stat fs p \<Longrightarrow> os_readfile p fs' = os_readfile p fs"
  by (simp add: os_readfile_def)

lemmas stat_cong = stat_cong_is_dir stat_cong_is_file stat_cong_content stat_cong_readfile

lemma create_write:
  assumes "is_dir fs (butlast p)" and "\<not> is_dir fs p"
  shows "\<exists>fs1. os_create env p fs = Inr fs1 \<and> content (os_write p c fs1) p = Some c \<and>
           (\<forall>q. q \<noteq> p \<longrightarrow> stat (os_write p c fs1) q = stat fs q)"
proof -
  have "\<exists>fs1. os_create env p fs = Inr fs1"
    using assms by (auto simp: os_create_def parent_err_def is_dir_def split: option.splits node.splits)
  then obtain fs1 where cr: "os_create env p fs = Inr fs1" ..
  obtain m' where st1: "stat fs1 p = Some (File m' [])"
    using stat_os_create_same [OF cr] by blast
  have ne: "p \<noteq> []" using st1 by auto
  then have "map_of fs1 p = Some (File m' [])" using st1 by (cases p) auto
  then have "content (os_write p c fs1) p = Some c"
    using ne by (simp add: os_write_File content_def stat_update)
  moreover have "stat (os_write p c fs1) q = stat fs q" if "q \<noteq> p" for q
    using that stat_os_create [OF cr] by (simp add: stat_os_write)
  ultimately show ?thesis using cr by blast
qed

lemma present_not_absent: "stat fs x \<noteq> None \<Longrightarrow> stat fs y = None \<Longrightarrow> x \<noteq> y"
  by auto

lemma is_file_present: "is_file fs x \<Longrightarrow> stat fs x \<noteq> None"
  by (auto simp: is_file_def split: option.splits node.splits)

lemma is_dir_present: "is_dir fs x \<Longrightarrow> stat fs x \<noteq> None"
  by (auto simp: is_dir_def split: option.splits node.splits)

lemma os_create_fresh:
  "stat fs p = None \<Longrightarrow> is_dir fs (butlast p) \<Longrightarrow> os_create env p fs = Inr (AList.update p (File (perm_of env 0x1B6) []) fs)"
  by (simp add: os_create_def parent_err_def is_dir_def split: option.splits node.splits)

lemma content_os_write: "content fs p = Some c \<Longrightarrow> content (os_write p c' fs) p = Some (c @ c')"
  by (cases p) (auto simp: content_stat os_write_def update_conv')

lemma content_os_chmod: "os_chmod p m fs = Inr fs' \<Longrightarrow> content fs' q = content fs q"
proof (cases "q = p")
  case True
  assume ch: "os_chmod p m fs = Inr fs'"
  show ?thesis
  proof (cases "p = []")
    case True
    then show ?thesis using \<open>q = p\<close> by (simp add: content_def)
  next
    case False
    with ch \<open>q = p\<close> show ?thesis
      by (cases p) (auto simp: os_chmod_def content_def update_conv' split: option.splits node.splits)
  qed
next
  case False
  assume "os_chmod p m fs = Inr fs'"
  from stat_os_chmod [OF this False] show ?thesis by (simp add: content_def)
qed

subsection \<open>Growing disks\<close>

lemma grows_refl [simp]: "grows fs fs"
  by (simp add: grows_def)

lemma grows_trans: "grows fs1 fs2 \<Longrightarrow> grows fs2 fs3 \<Longrightarrow> grows fs1 fs3"
  by (simp add: grows_def)

lemma res_state_simps [simp]: "res_state (Inl s) = s" "res_state (Inr s) = s"
  by (simp_all add: res_state_def)

lemma grows_update:
  assumes "p \<noteq> [] \<Longrightarrow> is_dir fs p \<Longrightarrow> node_is_dir v" and "fs_wf fs \<Longrightarrow> fs_wf (AList.update p v fs)"
  shows "grows fs (AList.update p v fs)"
  unfolding grows_def
proof (intro conjI allI impI)
  fix q assume q: "is_dir fs q"
  show "is_dir (AList.update p v fs) q"
  proof (cases "q = p \<and> p \<noteq> []")
    case True
    with q assms(1) have "node_is_dir v" by simp
    with True show ?thesis by (simp add: is_dir_def stat_update node_is_dir_def split: node.splits)
  next
    case False
    then have "stat (AList.update p v fs) q = stat fs q" by (auto simp: stat_update)
    with q show ?thesis by (simp add: is_dir_def)
  qed
next
  assume "fs_wf fs"
  then show "fs_wf (AList.update p v fs)" by (rule assms(2))
qed

text \<open>A stored file at a non-empty path is no directory.\<close>

lemma map_of_File_not_dir: "map_of fs p = Some (File m c) \<Longrightarrow> p \<noteq> [] \<Longrightarrow> \<not> is_dir fs p"
  by (cases p) (simp_all add: is_dir_def)

lemma grows_os_mkdir [grows_rules]: "os_mkdir env p m fs = Inr fs' \<Longrightarrow> grows fs fs'"
proof -
  assume mk: "os_mkdir env p m fs = Inr fs'"
  then have "fs' = AList.update p (Dir (perm_of env m)) fs" by (simp add: os_mkdir_Inr)
  moreover have "fs_wf fs \<Longrightarrow> fs_wf fs'" by (rule wf_os_mkdir [OF _ mk])
  ultimately show ?thesis by (auto intro!: grows_update simp: node_is_dir_def)
qed

lemma grows_os_create [grows_rules]: "os_create env p fs = Inr fs' \<Longrightarrow> grows fs fs'"
proof -
  assume cr: "os_create env p fs = Inr fs'"
  then have nd: "\<not> is_dir fs p" by (auto simp: os_create_Inr is_dir_def)
  from cr obtain v where v: "fs' = AList.update p v fs"
    by (auto simp: os_create_Inr)
  have "fs_wf fs \<Longrightarrow> fs_wf fs'" by (rule wf_os_create [OF _ cr])
  with nd v show ?thesis by (auto intro!: grows_update)
qed

lemma grows_os_write [grows_rules]: "grows fs (os_write p c fs)"
proof (cases "map_of fs p")
  case (Some v)
  show ?thesis
  proof (cases v)
    case (File m c0)
    with Some have eq: "os_write p c fs = AList.update p (File m (c0 @ c)) fs"
      by (simp add: os_write_File)
    have "fs_wf fs \<Longrightarrow> fs_wf (AList.update p (File m (c0 @ c)) fs)"
      using wf_os_write [of fs p c] eq by simp
    with Some File map_of_File_not_dir [of fs p m c0] show ?thesis
      unfolding eq by (auto intro!: grows_update)
  next
    case (Dir m)
    with Some show ?thesis by (simp add: os_write_def)
  qed
qed (simp add: os_write_def)

lemma grows_os_chmod [grows_rules]: "os_chmod p m fs = Inr fs' \<Longrightarrow> grows fs fs'"
proof -
  assume ch: "os_chmod p m fs = Inr fs'"
  then have wf: "fs_wf fs \<Longrightarrow> fs_wf fs'" by (rule wf_os_chmod [rotated])
  show ?thesis
  proof (cases "map_of fs p")
    case None
    with ch show ?thesis by (simp add: os_chmod_def)
  next
    case (Some v)
    show ?thesis
    proof (cases v)
      case (File m0 c)
      with Some ch have "fs' = AList.update p (File (m AND 0x1FF) c) fs" by (simp add: os_chmod_def)
      with wf Some File map_of_File_not_dir [of fs p m0 c] show ?thesis by (auto intro!: grows_update)
    next
      case (Dir m0)
      with Some ch have "fs' = AList.update p (Dir (m AND 0x1FF)) fs" by (simp add: os_chmod_def)
      with wf show ?thesis by (auto intro!: grows_update simp: node_is_dir_def)
    qed
  qed
qed

lemma grows_os_mkdirAll [grows_rules]: "os_mkdirAll env p m fs = Inr fs' \<Longrightarrow> grows fs fs'"
proof (induction env p m fs arbitrary: fs' rule: os_mkdirAll.induct)
  case (1 env p m fs)
  from "1.prems" show ?case
  proof (rule os_mkdirAll_cases [THEN disjE])
    assume "is_dir fs p \<and> fs' = fs"
    then show ?thesis by simp
  next
    assume "stat fs p = None \<and> p \<noteq> [] \<and>
      (\<exists>fs1. os_mkdirAll env (butlast p) m fs = Inr fs1 \<and> os_mkdir env p m fs1 = Inr fs')"
    then obtain fs1 where none: "stat fs p = None" and ne: "p \<noteq> []"
      and r1: "os_mkdirAll env (butlast p) m fs = Inr fs1" and r2: "os_mkdir env p m fs1 = Inr fs'"
      by blast
    from "1.IH" [OF none ne r1] grows_os_mkdir [OF r2] show ?thesis
      by (rule grows_trans)
  qed
qed

subsection \<open>Sequences of steps\<close>

lemma run_steps_append:
  "run_steps (xs @ ys) s =
     Option.bind (run_steps xs s) (\<lambda>r. case r of Inl s' \<Rightarrow> Some (Inl s') | Inr s' \<Rightarrow> run_steps ys s')"
proof (induction xs arbitrary: s)
  case Nil
  then show ?case by simp
next
  case (Cons f xs)
  show ?case
  proof (cases "f s")
    case None
    then show ?thesis by (simp add: andThen_def)
  next
    case (Some r)
    with Cons.IH show ?thesis by (cases r) (simp_all add: andThen_def)
  qed
qed

lemma run_steps_append_Inr:
  "run_steps (xs @ ys) s = Some (Inr s') \<Longrightarrow>
     \<exists>s1. run_steps xs s = Some (Inr s1) \<and> run_steps ys s1 = Some (Inr s')"
proof -
  assume "run_steps (xs @ ys) s = Some (Inr s')"
  then obtain r where r: "run_steps xs s = Some r"
    and rest: "(case r of Inl s' \<Rightarrow> Some (Inl s') | Inr s1 \<Rightarrow> run_steps ys s1) = Some (Inr s')"
    by (auto simp: run_steps_append bind_eq_Some_conv)
  then show ?thesis by (cases r) auto
qed

lemma run_steps_keeps:
  assumes refl: "\<And>fs. Q fs fs" and trans: "\<And>a b c. Q a b \<Longrightarrow> Q b c \<Longrightarrow> Q a c"
    and "list_all (step_keeps Q) fs" and "run_steps fs s = Some r"
  shows "Q (disk s) (disk (res_state r))"
  using assms(3,4)
proof (induction fs arbitrary: s)
  case Nil
  then show ?case using refl by auto
next
  case (Cons f fs)
  from Cons.prems(2) obtain r1 where f: "f s = Some r1"
    and rest: "(case r1 of Inl s' \<Rightarrow> Some (Inl s') | Inr s' \<Rightarrow> run_steps fs s') = Some r"
    by (auto simp: andThen_def bind_eq_Some_conv)
  have q1: "Q (disk s) (disk (res_state r1))"
    using Cons.prems(1) f by (simp add: step_keeps_def)
  show ?case
  proof (cases r1)
    case (Inl s')
    with rest q1 show ?thesis by auto
  next
    case (Inr s')
    with rest have "run_steps fs s' = Some r" by simp
    with Cons.IH Cons.prems(1) have "Q (disk s') (disk (res_state r))" by simp
    with q1 Inr show ?thesis by (auto intro: trans)
  qed
qed

lemma run_steps_grows:
  "list_all (step_keeps grows) fs \<Longrightarrow> run_steps fs s = Some r \<Longrightarrow> grows (disk s) (disk (res_state r))"
  by (rule run_steps_keeps [where Q = grows]) (auto intro: grows_trans)

end
