(* ===== verification/Copier.thy ===== *)
theory Copier
  imports FileSystem
begin

text \<open>
  The File/Tree Copier of makesm.go: \<open>binexe\<close>, \<open>copyFile\<close>, \<open>copyExec\<close>,
  \<open>fileOrFolderExists\<close>, \<open>establishFolder\<close>, \<open>makeFolder\<close> and the recursive
  \<open>copyFolderTree\<close>. The tree copy need not terminate (a destination inside the
  source grows while it is read), so it is a \<^theory_text>\<open>partial_function\<close> in the
  option monad; its directory loop and its recursion are one function over a task.
\<close>

unbundle bit_operations_syntax

definition binexe :: "osenv \<Rightarrow> path \<Rightarrow> path" where
  "binexe env p =
     (if goos env = ''windows''
      then (case rev p of [] \<Rightarrow> [''.exe''] | n # r \<Rightarrow> rev r @ [n @ ''.exe''])
      else p)"

text \<open>
  \<open>copyFile(src, dst)\<close>: stat the source, refuse a non-regular one, open it,
  create (truncate) the destination, then copy what the source holds now.
\<close>

definition copyFile :: "osenv \<Rightarrow> path \<Rightarrow> path \<Rightarrow> fsys \<Rightarrow> oserr + (nat \<times> fsys)" where
  "copyFile env src dst fs =
     (case stat fs src of
        None \<Rightarrow> Inl (PathError ''stat'' src ENOENT)
      | Some (Dir _) \<Rightarrow> Inl (NotRegular src)
      | Some (File _ _) \<Rightarrow>
          (case os_create env dst fs of
             Inl e \<Rightarrow> Inl e
           | Inr fs1 \<Rightarrow>
               (case os_readfile src fs1 of
                  Inl e \<Rightarrow> Inl e
                | Inr c \<Rightarrow> Inr (length c, os_write dst c fs1))))"

text \<open>The disk after a \<open>copyFile\<close> whose result the caller ignores.\<close>

definition copyFile_fs :: "osenv \<Rightarrow> path \<Rightarrow> path \<Rightarrow> fsys \<Rightarrow> fsys" where
  "copyFile_fs env src dst fs =
     (case copyFile env src dst fs of Inl _ \<Rightarrow> fs | Inr (_, fs') \<Rightarrow> fs')"

text \<open>
  \<open>copyExec(src, dst)\<close>: copies \<open>binexe(src)\<close> to \<open>binexe(dst)\<close>, then
  \<open>os.Chmod(dst, 0755)\<close> on the path without the suffix; both results are ignored.
\<close>

definition copyExec :: "osenv \<Rightarrow> path \<Rightarrow> path \<Rightarrow> fsys \<Rightarrow> fsys" where
  "copyExec env src dst fs =
     (let fs1 = copyFile_fs env (binexe env src) (binexe env dst) fs
      in case os_chmod dst 0x1ED fs1 of Inl _ \<Rightarrow> fs1 | Inr fs2 \<Rightarrow> fs2)"

definition fileOrFolderExists :: "fsys \<Rightarrow> path \<Rightarrow> bool" where
  "fileOrFolderExists fs p = (stat fs p \<noteq> None)"

definition establishFolder :: "osenv \<Rightarrow> path \<Rightarrow> fsys \<Rightarrow> bool \<times> fsys" where
  "establishFolder env p fs =
     (case os_mkdir env p 0x1FF fs of Inl _ \<Rightarrow> (False, fs) | Inr fs' \<Rightarrow> (True, fs'))"

definition makeFolder :: "osenv \<Rightarrow> path \<Rightarrow> proc \<Rightarrow> outcome" where
  "makeFolder env p s =
     (case establishFolder env p (disk s) of
        (True, fs') \<Rightarrow> Inr (s\<lparr>disk := fs'\<rparr>)
      | (False, _) \<Rightarrow> fatal (''*** can't establish folder '' @ path_str (sep_of env) p) s)"

subsection \<open>copyFolderTree\<close>

text \<open>\<open>fmt.Println(err)\<close> for the error a recursive call returned, if any.\<close>

definition print_err :: "osenv \<Rightarrow> oserr option \<Rightarrow> proc \<Rightarrow> proc" where
  "print_err env r s = (case r of None \<Rightarrow> s | Some e \<Rightarrow> logln (err_text env e) s)"

datatype tree_task =
    TreeTask path path
  | EntriesTask path path "(name \<times> bool) list"

text \<open>
  \<open>TreeTask src dst\<close> is one call \<open>copyFolderTree(src, dst)\<close>; \<open>EntriesTask src dst fds\<close>
  is its \<open>for\<close> loop over the entries \<open>fds\<close> still to copy. The result is the
  returned error and the final process state.
\<close>

partial_function (option) copy_tree ::
  "osenv \<Rightarrow> tree_task \<Rightarrow> proc \<Rightarrow> (oserr option \<times> proc) option" where
  "copy_tree env t s =
     (case t of
        TreeTask src dst \<Rightarrow>
          (case stat (disk s) src of
             None \<Rightarrow> Some (Some (PathError ''stat'' src ENOENT), s)
           | Some srcinfo \<Rightarrow>
               (case os_mkdirAll env dst (node_mode srcinfo) (disk s) of
                  Inl e \<Rightarrow> Some (Some e, s)
                | Inr fs1 \<Rightarrow>
                    (case os_readdir src fs1 of
                       Inl e \<Rightarrow> Some (Some e, s\<lparr>disk := fs1\<rparr>)
                     | Inr fds \<Rightarrow>
                         Option.bind (copy_tree env (EntriesTask src dst fds) (s\<lparr>disk := fs1\<rparr>))
                           (\<lambda>(_, s'). Some (None, s')))))
      | EntriesTask src dst [] \<Rightarrow> Some (None, s)
      | EntriesTask src dst (fd # fds) \<Rightarrow>
          (if snd fd then
             Option.bind (copy_tree env (TreeTask (src @ [fst fd]) (dst @ [fst fd])) s)
               (\<lambda>(r, s'). copy_tree env (EntriesTask src dst fds) (print_err env r s'))
           else
             (case copyFile env (src @ [fst fd]) (dst @ [fst fd]) (disk s) of
                Inl e \<Rightarrow> copy_tree env (EntriesTask src dst fds) (logln (err_text env e) s)
              | Inr (_, fs') \<Rightarrow> copy_tree env (EntriesTask src dst fds) (s\<lparr>disk := fs'\<rparr>))))"

definition copyFolderTree :: "osenv \<Rightarrow> path \<Rightarrow> path \<Rightarrow> proc \<Rightarrow> (oserr option \<times> proc) option" where
  "copyFolderTree env src dst s = copy_tree env (TreeTask src dst) s"

subsection \<open>Frames and the termination measure\<close>

text \<open>
  \<open>same_outside d fs fs'\<close>: the two disks agree at every path parallel to \<open>d\<close>,
  i.e. neither above nor below it. \<open>below fs p\<close> is the set of stored paths strictly
  below \<open>p\<close>; its size bounds the depth of a tree copy from \<open>p\<close>.
\<close>

definition same_outside :: "path \<Rightarrow> fsys \<Rightarrow> fsys \<Rightarrow> bool" where
  "same_outside d fs fs' = (\<forall>q. q \<parallel> d \<longrightarrow> stat fs' q = stat fs q)"

definition below :: "fsys \<Rightarrow> path \<Rightarrow> path set" where
  "below fs p = {q \<in> fst ` set fs. strict_prefix p q}"

subsection \<open>Unfolding the tree copy\<close>

lemma binexe_snoc: "binexe env (p @ [n]) = p @ [if goos env = ''windows'' then n @ ''.exe'' else n]"
  by (simp add: binexe_def)


lemma binexe_snoc2:
  "binexe env (p @ [m, n]) = p @ [m, if goos env = ''windows'' then n @ ''.exe'' else n]"
  using binexe_snoc [of env "p @ [m]" n] by simp

lemma copy_tree_TreeTask:
  "copy_tree env (TreeTask src dst) s =
     (case stat (disk s) src of
        None \<Rightarrow> Some (Some (PathError ''stat'' src ENOENT), s)
      | Some srcinfo \<Rightarrow>
          (case os_mkdirAll env dst (node_mode srcinfo) (disk s) of
             Inl e \<Rightarrow> Some (Some e, s)
           | Inr fs1 \<Rightarrow>
               (case os_readdir src fs1 of
                  Inl e \<Rightarrow> Some (Some e, s\<lparr>disk := fs1\<rparr>)
                | Inr fds \<Rightarrow>
                    Option.bind (copy_tree env (EntriesTask src dst fds) (s\<lparr>disk := fs1\<rparr>))
                      (\<lambda>(_, s'). Some (None, s')))))"
  by (subst copy_tree.simps) simp

lemma copy_tree_Entries_Nil [simp]: "copy_tree env (EntriesTask src dst []) s = Some (None, s)"
  by (subst copy_tree.simps) simp

lemma copy_tree_Entries_Cons:
  "copy_tree env (EntriesTask src dst (fd # fds)) s =
     (if snd fd then
        Option.bind (copy_tree env (TreeTask (src @ [fst fd]) (dst @ [fst fd])) s)
          (\<lambda>(r, s'). copy_tree env (EntriesTask src dst fds) (print_err env r s'))
      else
        (case copyFile env (src @ [fst fd]) (dst @ [fst fd]) (disk s) of
           Inl e \<Rightarrow> copy_tree env (EntriesTask src dst fds) (logln (err_text env e) s)
         | Inr (_, fs') \<Rightarrow> copy_tree env (EntriesTask src dst fds) (s\<lparr>disk := fs'\<rparr>)))"
  by (subst copy_tree.simps) simp

lemmas copy_tree_unfold [fs_simps, code] = copy_tree_TreeTask copy_tree_Entries_Nil copy_tree_Entries_Cons

lemma disk_print_err [simp]: "disk (print_err env r s) = disk s"
  by (simp add: print_err_def split: option.splits)

subsection \<open>Frame lemmas\<close>

lemma same_outside_refl [simp]: "same_outside d fs fs"
  by (simp add: same_outside_def)

lemma same_outside_trans:
  "same_outside d fs1 fs2 \<Longrightarrow> same_outside d fs2 fs3 \<Longrightarrow> same_outside d fs1 fs3"
  by (simp add: same_outside_def)

lemma same_outside_append:
  "same_outside (d @ [n]) fs fs' \<Longrightarrow> same_outside d fs fs'"
  unfolding same_outside_def using parallel_append [of _ d "[]" "[n]"] by auto

lemma same_outside_at:
  "(\<And>q. q \<noteq> d \<Longrightarrow> stat fs' q = stat fs q) \<Longrightarrow> same_outside d fs fs'"
  by (auto simp: same_outside_def)

lemma same_outside_below_parent:
  "(\<And>q. \<not> prefix q d \<Longrightarrow> stat fs' q = stat fs q) \<Longrightarrow> same_outside d fs fs'"
  by (auto simp: same_outside_def)

lemma finite_below [simp]: "finite (below fs p)"
  by (simp add: below_def)

lemma below_same:
  assumes "src \<parallel> d" and "same_outside d fs fs'"
  shows "below fs' src = below fs src"
proof (rule set_eqI)
  fix q
  have mem: "q \<in> fst ` set fs0 \<longleftrightarrow> stat fs0 q \<noteq> None" if "q \<noteq> []" for fs0
    using that by (cases q) (simp_all add: map_of_eq_None_iff)
  show "q \<in> below fs' src \<longleftrightarrow> q \<in> below fs src"
  proof (cases "strict_prefix src q")
    case True
    then obtain rest where q: "q = src @ rest" and "q \<noteq> []"
      by (auto simp: strict_prefix_def prefix_def)
    have "src @ rest \<parallel> d @ []"
      by (rule parallel_append [OF assms(1)])
    then have "q \<parallel> d" by (simp add: q)
    with assms(2) have "stat fs' q = stat fs q"
      by (simp add: same_outside_def)
    with True \<open>q \<noteq> []\<close> mem [of fs] mem [of fs'] show ?thesis
      by (simp add: below_def)
  next
    case False
    then show ?thesis by (simp add: below_def)
  qed
qed

lemma below_child:
  assumes "src @ [n] \<in> below fs src"
  shows "card (below fs (src @ [n])) < card (below fs src)"
proof (rule psubset_card_mono)
  show "below fs (src @ [n]) \<subset> below fs src"
  proof
    have "strict_prefix src (src @ [n])" by (simp add: strict_prefix_def)
    then show "below fs (src @ [n]) \<subseteq> below fs src"
      unfolding below_def by (blast intro: prefix_order.less_trans)
    have "src @ [n] \<notin> below fs (src @ [n])"
      by (simp add: below_def)
    with assms show "below fs (src @ [n]) \<noteq> below fs src"
      by blast
  qed
qed simp

lemma os_readdir_child:
  assumes "os_readdir src fs = Inr fds" and "fd \<in> set fds"
  shows "src @ [fst fd] \<in> below fs src"
proof -
  from assms have "fd \<in> set (children fs src)"
    by (auto simp: os_readdir_def split: option.splits node.splits)
  then obtain q v where "(q, v) \<in> set fs" and "q \<noteq> []" and "butlast q = src" and "fst fd = last q"
    by (auto simp: children_def)
  then show ?thesis
    by (auto simp: below_def strict_prefix_def intro!: image_eqI [of _ fst "(q, v)"])
qed

lemma copyFile_Inr:
  "copyFile env src dst fs = Inr (k, fs') \<longleftrightarrow>
     (\<exists>m c fs1 c'. stat fs src = Some (File m c) \<and> os_create env dst fs = Inr fs1 \<and>
        os_readfile src fs1 = Inr c' \<and> k = length c' \<and> fs' = os_write dst c' fs1)"
  by (auto simp: copyFile_def split: option.splits node.splits sum.splits)

lemma copyFile_frame [frame_rules]:
  "copyFile env src dst fs = Inr (k, fs') \<Longrightarrow> q \<noteq> dst \<Longrightarrow> stat fs' q = stat fs q"
  by (auto simp: copyFile_Inr stat_os_write stat_os_create)

subsection \<open>copyFile on each branch\<close>

lemma copyFile_missing: "stat fs src = None \<Longrightarrow> copyFile env src dst fs = Inl (PathError ''stat'' src ENOENT)"
  by (simp add: copyFile_def)

lemma copyFile_not_regular: "stat fs src = Some (Dir m) \<Longrightarrow> copyFile env src dst fs = Inl (NotRegular src)"
  by (simp add: copyFile_def)

lemma copyFile_dst_dir:
  "is_file fs src \<Longrightarrow> is_dir fs dst \<Longrightarrow> copyFile env src dst fs = Inl (PathError ''open'' dst EISDIR)"
  by (auto simp: copyFile_def os_create_def is_file_stat is_dir_stat)

text \<open>
  A regular source and a creatable destination: the bytes are copied, the count
  is returned, and nothing but the destination changes.
\<close>

lemma copyFile_ok:
  assumes "stat fs src = Some (File m c)" and "src \<noteq> dst"
    and "is_dir fs (butlast dst)" and "\<not> is_dir fs dst"
  shows "\<exists>fs'. copyFile env src dst fs = Inr (length c, fs') \<and> content fs' dst = Some c \<and>
           (\<forall>q. q \<noteq> dst \<longrightarrow> stat fs' q = stat fs q)"
proof -
  have "\<exists>fs1. os_create env dst fs = Inr fs1"
    using assms(3,4)
    by (auto simp: os_create_def parent_err_def is_dir_def split: option.splits node.splits)
  then obtain fs1 where cr: "os_create env dst fs = Inr fs1" ..
  have fr1: "stat fs1 q = stat fs q" if "q \<noteq> dst" for q
    using stat_os_create [OF cr that] .
  obtain m' where st1: "stat fs1 dst = Some (File m' [])"
    using stat_os_create_same [OF cr] by blast
  from fr1 [OF assms(2)] assms(1) have rd: "os_readfile src fs1 = Inr c"
    by (simp add: os_readfile_def)
  have ne: "dst \<noteq> []" using st1 by auto
  then have "map_of fs1 dst = Some (File m' [])" using st1 by (cases dst) auto
  then have "content (os_write dst c fs1) dst = Some c"
    using ne by (simp add: os_write_File content_def stat_update)
  moreover have "stat (os_write dst c fs1) q = stat fs q" if "q \<noteq> dst" for q
    using that fr1 by (simp add: stat_os_write)
  ultimately show ?thesis
    using assms(1) cr rd by (simp add: copyFile_def)
qed

text \<open>Copying a file onto itself truncates it first: the file ends up empty.\<close>

lemma copyFile_self:
  assumes "stat fs p = Some (File m c)"
  shows "copyFile env p p fs = Inr (0, AList.update p (File m []) fs)"
proof -
  have ne: "p \<noteq> []" using assms by auto
  then have "map_of fs p = Some (File m c)" using assms by (cases p) auto
  with assms ne show ?thesis
    by (simp add: copyFile_def os_create_def os_readfile_def stat_update os_write_def update_conv')
qed

subsection \<open>Sequences of copies\<close>

text \<open>
  A sequence of copies, each of which changes only the paths \<open>T b\<close> of its
  destination \<open>b\<close>: when no copy touches another's source, parent folder or
  destination, every destination ends up with the bytes its source held at the
  start. The copy loops of \<open>copyJodit\<close> (\<open>copyFile\<close>, \<open>T b = {b}\<close>) and of
  \<open>copyExecs\<close> (\<open>copyExec\<close>, which also changes the mode of \<open>dst\<close>) are instances.
\<close>

lemma copies_frame:
  assumes frame: "\<And>a b fs q. q \<notin> T b \<Longrightarrow> stat (cp a b fs) q = stat fs q"
    and "\<forall>(a, b)\<in>set ps. q \<notin> T b"
  shows "stat (foldl (\<lambda>fs (a, b). cp a b fs) fs ps) q = stat fs q"
  using assms(2)
proof (induction ps arbitrary: fs)
  case Nil
  then show ?case by simp
next
  case (Cons p ps)
  obtain a b where p: "p = (a, b)" by fastforce
  from Cons.prems p have "q \<notin> T b" and "\<forall>(a, b)\<in>set ps. q \<notin> T b" by auto
  with Cons.IH [of "cp a b fs"] frame [of q b a fs] show ?case by (simp add: p)
qed

lemma copies_apart:
  assumes "\<forall>(a, b)\<in>set ps. \<forall>(a', b')\<in>set ps. S a \<notin> T b' \<and> butlast (D b) \<notin> T b' \<and> (b' \<noteq> b \<longrightarrow> D b \<notin> T b')"
    and "(a, b) \<in> set ps" and "(a', b') \<in> set ps"
  shows "S a \<notin> T b' \<and> butlast (D b) \<notin> T b' \<and> (b' \<noteq> b \<longrightarrow> D b \<notin> T b')"
  using assms by fastforce

lemma copies_content:
  assumes frame: "\<And>a b fs q. q \<notin> T b \<Longrightarrow> stat (cp a b fs) q = stat fs q"
    and eff: "\<And>a b fs m c. stat fs (S a) = Some (File m c) \<Longrightarrow> S a \<notin> T b \<Longrightarrow>
               is_dir fs (butlast (D b)) \<Longrightarrow> \<not> is_dir fs (D b) \<Longrightarrow> content (cp a b fs) (D b) = Some c"
    and "distinct (map snd ps)"
    and "\<forall>(a, b)\<in>set ps. \<forall>(a', b')\<in>set ps. S a \<notin> T b' \<and> butlast (D b) \<notin> T b' \<and> (b' \<noteq> b \<longrightarrow> D b \<notin> T b')"
    and "\<forall>(a, b)\<in>set ps. is_file fs (S a) \<and> is_dir fs (butlast (D b)) \<and> \<not> is_dir fs (D b)"
  shows "\<forall>(a, b)\<in>set ps. content (foldl (\<lambda>fs (a, b). cp a b fs) fs ps) (D b) = content fs (S a)"
  using assms(3-5)
proof (induction ps arbitrary: fs)
  case Nil
  then show ?case by simp
next
  case (Cons p ps)
  obtain a0 b0 where p: "p = (a0, b0)" by fastforce
  let ?fs1 = "cp a0 b0 fs"
  have fr: "stat ?fs1 q = stat fs q" if "q \<notin> T b0" for q
    using frame that .
  have in0: "(a0, b0) \<in> set (p # ps)" by (simp add: p)
  have apart: "S a \<notin> T b0 \<and> butlast (D b) \<notin> T b0 \<and> D b \<notin> T b0 \<and> D b0 \<notin> T b"
    if ab: "(a, b) \<in> set ps" for a b
  proof -
    from Cons.prems(1) ab p have "b \<noteq> b0" by (auto simp: image_iff)
    moreover have "(a, b) \<in> set (p # ps)" using ab by simp
    ultimately show ?thesis
      using copies_apart [OF Cons.prems(2) _ in0] copies_apart [OF Cons.prems(2) in0] by blast
  qed
  from Cons.prems(3) in0 obtain m c where src: "stat fs (S a0) = Some (File m c)"
    by (auto simp: is_file_stat)
  from Cons.prems(3) in0 have d0: "is_dir fs (butlast (D b0))" and n0: "\<not> is_dir fs (D b0)"
    by auto
  from copies_apart [OF Cons.prems(2) in0 in0] have "S a0 \<notin> T b0" by simp
  from eff [OF src this d0 n0] have c1: "content ?fs1 (D b0) = Some c" .
  have "\<forall>(a, b)\<in>set ps. D b0 \<notin> T b" using apart by auto
  from copies_frame [OF frame this]
  have "stat (foldl (\<lambda>fs (a, b). cp a b fs) ?fs1 ps) (D b0) = stat ?fs1 (D b0)" .
  from stat_cong_content [OF this] c1 src
  have first: "content (foldl (\<lambda>fs (a, b). cp a b fs) ?fs1 ps) (D b0) = content fs (S a0)"
    by (simp add: content_def)
  have pre1: "\<forall>(a, b)\<in>set ps. is_file ?fs1 (S a) \<and> is_dir ?fs1 (butlast (D b)) \<and> \<not> is_dir ?fs1 (D b)"
  proof (intro ballI, clarify)
    fix a b assume ab: "(a, b) \<in> set ps"
    with Cons.prems(3) have "is_file fs (S a) \<and> is_dir fs (butlast (D b)) \<and> \<not> is_dir fs (D b)"
      by auto
    with apart [OF ab] show "is_file ?fs1 (S a) \<and> is_dir ?fs1 (butlast (D b)) \<and> \<not> is_dir ?fs1 (D b)"
      by (simp add: is_file_def is_dir_def fr)
  qed
  have dist1: "distinct (map snd ps)" using Cons.prems(1) by simp
  have apart1: "\<forall>(a, b)\<in>set ps. \<forall>(a', b')\<in>set ps. S a \<notin> T b' \<and> butlast (D b) \<notin> T b' \<and> (b' \<noteq> b \<longrightarrow> D b \<notin> T b')"
    using Cons.prems(2) by auto
  have rest: "\<forall>(a, b)\<in>set ps. content (foldl (\<lambda>fs (a, b). cp a b fs) ?fs1 ps) (D b) = content ?fs1 (S a)"
    by (rule Cons.IH [OF dist1 apart1 pre1])
  have "content ?fs1 (S a) = content fs (S a)" if "(a, b) \<in> set ps" for a b
    using apart [OF that] by (simp add: content_def fr)
  with rest first show ?case by (auto simp: p)
qed

lemma copyFile_fs_frame [frame_rules]: "q \<noteq> dst \<Longrightarrow> stat (copyFile_fs env src dst fs) q = stat fs q"
  by (auto simp: copyFile_fs_def split: sum.splits dest: copyFile_frame)

lemma copyFile_fs_content:
  assumes "stat fs src = Some (File m c)" and "src \<noteq> dst"
    and "is_dir fs (butlast dst)" and "\<not> is_dir fs dst"
  shows "content (copyFile_fs env src dst fs) dst = Some c"
  using copyFile_ok [OF assms, of env] by (auto simp: copyFile_fs_def)

lemma copyExec_frame [frame_rules]:
  "q \<notin> {dst, binexe env dst} \<Longrightarrow> stat (copyExec env src dst fs) q = stat fs q"
  by (auto simp: copyExec_def Let_def copyFile_fs_frame split: sum.splits dest: stat_os_chmod)

lemma copyExec_content:
  assumes "stat fs (binexe env src) = Some (File m c)" and "binexe env src \<notin> {dst, binexe env dst}"
    and "is_dir fs (butlast (binexe env dst))" and "\<not> is_dir fs (binexe env dst)"
  shows "content (copyExec env src dst fs) (binexe env dst) = Some c"
proof -
  let ?fs1 = "copyFile_fs env (binexe env src) (binexe env dst) fs"
  have "content ?fs1 (binexe env dst) = Some c"
    using assms by (intro copyFile_fs_content) auto
  then show ?thesis
    by (auto simp: copyExec_def Let_def content_os_chmod split: sum.splits)
qed

lemma copyFile_fs_sequence:
  assumes "distinct (map snd ps)"
    and "\<forall>(a, b)\<in>set ps. \<forall>(a', b')\<in>set ps. a \<notin> {b'} \<and> butlast b \<notin> {b'} \<and> (b' \<noteq> b \<longrightarrow> b \<notin> {b'})"
    and "\<forall>(a, b)\<in>set ps. is_file fs a \<and> is_dir fs (butlast b) \<and> \<not> is_dir fs b"
  shows "\<forall>(a, b)\<in>set ps. content (foldl (\<lambda>fs (a, b). copyFile_fs env a b fs) fs ps) b = content fs a"
  using copies_content [where S = "\<lambda>x. x" and D = "\<lambda>x. x" and T = "\<lambda>b. {b}" and cp = "copyFile_fs env", OF _ _ assms]
    copyFile_fs_frame copyFile_fs_content by simp

lemma copyExec_sequence:
  assumes "distinct (map snd ps)"
    and "\<forall>(a, b)\<in>set ps. \<forall>(a', b')\<in>set ps. binexe env a \<notin> {b', binexe env b'} \<and>
           butlast (binexe env b) \<notin> {b', binexe env b'} \<and> (b' \<noteq> b \<longrightarrow> binexe env b \<notin> {b', binexe env b'})"
    and "\<forall>(a, b)\<in>set ps. is_file fs (binexe env a) \<and> is_dir fs (butlast (binexe env b)) \<and> \<not> is_dir fs (binexe env b)"
  shows "\<forall>(a, b)\<in>set ps. content (foldl (\<lambda>fs (a, b). copyExec env a b fs) fs ps) (binexe env b) =
           content fs (binexe env a)"
  using copies_content [where S = "binexe env" and D = "binexe env" and T = "\<lambda>b. {b, binexe env b}"
      and cp = "copyExec env", OF _ _ assms] copyExec_frame copyExec_content by blast

subsection \<open>Termination of the tree copy\<close>

text \<open>
  When source and destination are parallel (neither is a prefix of the other),
  the copy never writes below the source, so the stored paths below the source
  stay the same and each recursive call starts lower down in a finite set:
  the copy returns, and it leaves every path parallel to the destination alone.
  Proved by strong induction on the number of paths below the source, with an
  inner induction over the directory's entries.
\<close>

lemma copy_tree_total:
  assumes "src \<parallel> dst"
  shows "\<exists>r s'. copy_tree env (TreeTask src dst) s = Some (r, s') \<and>
           same_outside dst (disk s) (disk s')"
  using assms
proof (induction "card (below (disk s) src)" arbitrary: src dst s rule: less_induct)
  case less
  show ?case
  proof (cases "stat (disk s) src")
    case None
    then show ?thesis by (simp add: copy_tree_TreeTask)
  next
    case (Some info)
    show ?thesis
    proof (cases "os_mkdirAll env dst (node_mode info) (disk s)")
      case (Inl e)
      with Some show ?thesis by (simp add: copy_tree_TreeTask)
    next
      case (Inr fs1)
      have fr1: "same_outside dst (disk s) fs1"
        using os_mkdirAll_props [OF Inr] by (intro same_outside_below_parent) blast
      show ?thesis
      proof (cases "os_readdir src fs1")
        case (Inl e)
        with Some Inr fr1 show ?thesis by (simp add: copy_tree_TreeTask)
      next
        case (Inr fds)
        let ?B = "below (disk s) src"
        have B1: "below fs1 src = ?B"
          using below_same [OF less.prems fr1] .
        have loop: "\<exists>t'. copy_tree env (EntriesTask src dst fds') t = Some (None, t') \<and>
                      same_outside dst (disk t) (disk t')"
          if "\<forall>fd \<in> set fds'. src @ [fst fd] \<in> ?B" and "below (disk t) src = ?B" for fds' t
          using that
        proof (induction fds' arbitrary: t)
          case Nil
          then show ?case by simp
        next
          case (Cons fd fds')
          obtain n isd where fd: "fd = (n, isd)" by fastforce
          have inB: "src @ [n] \<in> below (disk t) src"
            using Cons.prems fd by simp
          have par: "src @ [n] \<parallel> dst @ [n]"
            using parallel_append [OF less.prems] .
          show ?case
          proof (cases isd)
            case True
            have "card (below (disk t) (src @ [n])) < card ?B"
              using below_child [OF inB] Cons.prems(2) by simp
            then obtain r t1 where
              t1: "copy_tree env (TreeTask (src @ [n]) (dst @ [n])) t = Some (r, t1)" and
              fr: "same_outside (dst @ [n]) (disk t) (disk t1)"
              using less.hyps [OF _ par] Cons.prems(2) by blast
            have fr': "same_outside dst (disk t) (disk t1)"
              using same_outside_append [OF fr] .
            have "below (disk (print_err env r t1)) src = ?B"
              using below_same [OF less.prems fr'] Cons.prems(2) by simp
            then obtain t' where
              t': "copy_tree env (EntriesTask src dst fds') (print_err env r t1) = Some (None, t')" and
              fr2: "same_outside dst (disk (print_err env r t1)) (disk t')"
              using Cons.IH [of "print_err env r t1"] Cons.prems(1) by auto
            from fr' fr2 have "same_outside dst (disk t) (disk t')"
              by (auto intro: same_outside_trans)
            with t1 t' True fd show ?thesis
              by (simp add: copy_tree_Entries_Cons)
          next
            case False
            show ?thesis
            proof (cases "copyFile env (src @ [n]) (dst @ [n]) (disk t)")
              case (Inl e)
              with Cons.IH [of "logln (err_text env e) t"] Cons.prems False fd show ?thesis
                by (simp add: copy_tree_Entries_Cons)
            next
              case (Inr kfs)
              obtain k fs' where kfs: "kfs = (k, fs')" by fastforce
              have fr: "same_outside dst (disk t) fs'"
              proof (rule same_outside_at [THEN same_outside_append])
                fix q assume "q \<noteq> dst @ [n]"
                with Inr kfs show "stat fs' q = stat (disk t) q"
                  by (simp add: copyFile_frame)
              qed
              have "below fs' src = ?B"
                using below_same [OF less.prems fr] Cons.prems(2) by simp
              then obtain t' where
                t': "copy_tree env (EntriesTask src dst fds') (t\<lparr>disk := fs'\<rparr>) = Some (None, t')" and
                fr2: "same_outside dst fs' (disk t')"
                using Cons.IH [of "t\<lparr>disk := fs'\<rparr>"] Cons.prems(1) by auto
              from fr fr2 have "same_outside dst (disk t) (disk t')"
                by (auto intro: same_outside_trans)
              with t' Inr kfs False fd show ?thesis
                by (simp add: copy_tree_Entries_Cons)
            qed
          qed
        qed
        have "\<forall>fd \<in> set fds. src @ [fst fd] \<in> ?B"
          using os_readdir_child [OF Inr] B1 by simp
        with B1 obtain t' where
          t': "copy_tree env (EntriesTask src dst fds) (s\<lparr>disk := fs1\<rparr>) = Some (None, t')" and
          fr2: "same_outside dst fs1 (disk t')"
          using loop [of fds "s\<lparr>disk := fs1\<rparr>"] by auto
        from fr1 fr2 have "same_outside dst (disk s) (disk t')"
          by (auto intro: same_outside_trans)
        with Some \<open>os_mkdirAll env dst (node_mode info) (disk s) = Inr fs1\<close> Inr t' show ?thesis
          by (simp add: copy_tree_TreeTask)
      qed
    qed
  qed
qed

subsection \<open>The copier makes the disk grow\<close>

lemma grows_copyFile [grows_rules]: "copyFile env src dst fs = Inr (k, fs') \<Longrightarrow> grows fs fs'"
  by (auto simp: copyFile_Inr intro: grows_trans [OF grows_os_create grows_os_write])

lemma grows_copyFile_fs [grows_rules]: "grows fs (copyFile_fs env src dst fs)"
  by (auto simp: copyFile_fs_def split: sum.splits intro: grows_copyFile)

lemma grows_copyExec [grows_rules]: "grows fs (copyExec env src dst fs)"
  unfolding copyExec_def Let_def
  by (auto split: sum.splits intro: grows_copyFile_fs grows_trans [OF grows_copyFile_fs] grows_os_chmod)

lemma grows_makeFolder [grows_rules]: "grows (disk s) (disk (res_state (makeFolder env p s)))"
  by (cases "os_mkdir env p 0x1FF (disk s)")
     (auto simp: makeFolder_def establishFolder_def fatal_def intro: grows_os_mkdir)

lemma grows_copy_tree [grows_rules]:
  assumes "copy_tree env t s = Some res"
  shows "grows (disk s) (disk (snd res))"
  apply (rule copy_tree.raw_induct [where P = "\<lambda>env t s res. grows (disk s) (disk (snd res))", OF _ assms])
  subgoal premises prems for f env t s res
  proof (cases t)
    case (TreeTask src dst)
    with prems(2) show ?thesis
      by (auto simp: bind_eq_Some_conv split: option.splits sum.splits prod.splits dest!: prems(1)
          intro: grows_trans [OF grows_os_mkdirAll])
  next
    case (EntriesTask src dst fds)
    show ?thesis
    proof (cases fds)
      case Nil
      with EntriesTask prems(2) show ?thesis by auto
    next
      case (Cons fd fds')
      with EntriesTask prems(2) show ?thesis
        by (auto simp: bind_eq_Some_conv split: if_splits option.splits sum.splits prod.splits
            dest!: prems(1) intro: grows_trans grows_trans [OF grows_copyFile])
    qed
  qed
  done

subsection \<open>Properties of the copier\<close>

text \<open>
  C1: \<open>copyFolderTree(src, dst)\<close> returns whenever source and destination are
  parallel paths, and it changes nothing at any path parallel to the destination.
\<close>

theorem copyFolderTree_terminates:
  assumes "src \<parallel> dst"
  shows "\<exists>r s'. copyFolderTree env src dst s = Some (r, s') \<and> same_outside dst (disk s) (disk s')"
  using copy_tree_total [OF assms] by (simp add: copyFolderTree_def)


theorem copyFolderTree_terminates_witness:
  "[''s''] \<parallel> [''d''] \<and>
   (\<exists>r s'. copyFolderTree \<lparr>goos = ''linux'', umask = 0x12, sqlite = (\<lambda>db sc. Some sc)\<rparr>
      [''s''] [''d''] \<lparr>disk = [([''s''], Dir 0x1ED)], out = []\<rparr> = Some (r, s') \<and>
      same_outside [''d''] [([''s''], Dir 0x1ED)] (disk s'))"
proof -
  have h: "[''s''] \<parallel> [''d'']" by (simp add: parallel_def)
  show ?thesis
    using h copyFolderTree_terminates [OF h, of "\<lparr>goos = ''linux'', umask = 0x12, sqlite = (\<lambda>db sc. Some sc)\<rparr>"
        "\<lparr>disk = [([''s''], Dir 0x1ED)], out = []\<rparr>"]
    by simp
qed

text \<open>
  C2: \<open>copyFile(src, dst)\<close> on a regular source and a creatable destination copies the
  source's bytes and returns their number, touching no other path; copying a file
  onto itself truncates it first, so the file ends up empty.
\<close>

theorem copyFile_functional:
  assumes "stat fs src = Some (File m c)" and "is_dir fs (butlast dst)" and "\<not> is_dir fs dst"
  shows "\<exists>fs'. copyFile env src dst fs = Inr (length (if src = dst then [] else c), fs') \<and>
           content fs' dst = Some (if src = dst then [] else c) \<and>
           (\<forall>q. q \<noteq> dst \<longrightarrow> stat fs' q = stat fs q)"
proof (cases "src = dst")
  case True
  have ne: "src \<noteq> []" using assms(1) by auto
  with True assms(1) show ?thesis
    by (simp add: copyFile_self content_def stat_update)
next
  case False
  with copyFile_ok [OF assms(1) False assms(2,3)] show ?thesis by simp
qed


theorem copyFile_functional_witness:
  "stat [([''a''], File 0x1A4 ''hi'')] [''a''] = Some (File 0x1A4 ''hi'') \<and>
   is_dir [([''a''], File 0x1A4 ''hi'')] (butlast [''b'']) \<and>
   \<not> is_dir [([''a''], File 0x1A4 ''hi'')] [''b''] \<and>
   (\<exists>fs'. copyFile \<lparr>goos = ''linux'', umask = 0x12, sqlite = (\<lambda>db sc. Some sc)\<rparr>
        [''a''] [''b''] [([''a''], File 0x1A4 ''hi'')] = Inr (2, fs') \<and> content fs' [''b''] = Some ''hi'')"
proof -
  have h1: "stat [([''a''], File 0x1A4 ''hi'')] [''a''] = Some (File 0x1A4 ''hi'')"
    by (simp add: stat_def)
  have h2: "is_dir [([''a''], File 0x1A4 ''hi'')] (butlast [''b''])"
    by (simp add: is_dir_def)
  have h3: "\<not> is_dir [([''a''], File 0x1A4 ''hi'')] [''b'']"
    by (simp add: is_dir_def)
  show ?thesis
    using h1 h2 h3 copyFile_functional [OF h1 h2 h3, of "\<lparr>goos = ''linux'', umask = 0x12, sqlite = (\<lambda>db sc. Some sc)\<rparr>"]
    by auto
qed

text \<open>
  C14: \<open>copyFile\<close> fails, changing nothing, when the source does not exist, when it is
  not a regular file, and when the destination is a directory.
\<close>

theorem copyFile_errors:
  "(stat fs src = None \<longrightarrow> copyFile env src dst fs = Inl (PathError ''stat'' src ENOENT)) \<and>
   (stat fs src = Some (Dir m) \<longrightarrow> copyFile env src dst fs = Inl (NotRegular src)) \<and>
   (is_file fs src \<and> is_dir fs dst \<longrightarrow> copyFile env src dst fs = Inl (PathError ''open'' dst EISDIR))"
  by (simp add: copyFile_missing copyFile_not_regular copyFile_dst_dir)


theorem copyFile_errors_witness:
  "copyFile \<lparr>goos = ''linux'', umask = 0, sqlite = (\<lambda>db sc. Some sc)\<rparr> [''x''] [''y''] [] =
     Inl (PathError ''stat'' [''x''] ENOENT) \<and>
   copyFile \<lparr>goos = ''linux'', umask = 0, sqlite = (\<lambda>db sc. Some sc)\<rparr> [''x''] [''y''] [([''x''], Dir 0)] =
     Inl (NotRegular [''x'']) \<and>
   copyFile \<lparr>goos = ''linux'', umask = 0, sqlite = (\<lambda>db sc. Some sc)\<rparr> [''x''] [''y'']
     [([''x''], File 0 ''a''), ([''y''], Dir 0)] = Inl (PathError ''open'' [''y''] EISDIR)"
  using copyFile_errors [of "[]" "[''x'']" "\<lparr>goos = ''linux'', umask = 0, sqlite = (\<lambda>db sc. Some sc)\<rparr>" "[''y'']" 0]
    copyFile_errors [of "[([''x''], Dir 0)]" "[''x'']" "\<lparr>goos = ''linux'', umask = 0, sqlite = (\<lambda>db sc. Some sc)\<rparr>" "[''y'']" 0]
    copyFile_errors [of "[([''x''], File 0 ''a''), ([''y''], Dir 0)]" "[''x'']"
      "\<lparr>goos = ''linux'', umask = 0, sqlite = (\<lambda>db sc. Some sc)\<rparr>" "[''y'']" 0]
  by (simp_all add: stat_def is_file_def is_dir_def)

text \<open>
  C13: \<open>makeFolder\<close> creates a directory exclusively: at an existing path the
  process ends with the diagnostic naming that path and the disk unchanged; at a
  fresh path below a directory it continues with the new directory in place.
\<close>

theorem makeFolder_exclusive:
  "(stat (disk s) p \<noteq> None \<longrightarrow>
      makeFolder env p s = Inl (logln (''*** can't establish folder '' @ path_str (sep_of env) p) s)) \<and>
   (stat (disk s) p = None \<and> is_dir (disk s) (butlast p) \<longrightarrow>
      (\<exists>s'. makeFolder env p s = Inr s' \<and> is_dir (disk s') p \<and> out s' = out s))"
proof (intro conjI impI)
  assume "stat (disk s) p \<noteq> None"
  then show "makeFolder env p s = Inl (logln (''*** can't establish folder '' @ path_str (sep_of env) p) s)"
    by (simp add: makeFolder_def establishFolder_def os_mkdir_exists fatal_def)
next
  assume a: "stat (disk s) p = None \<and> is_dir (disk s) (butlast p)"
  then have "os_mkdir env p 0x1FF (disk s) = Inr (AList.update p (Dir (perm_of env 0x1FF)) (disk s))"
    by (simp add: os_mkdir_Inr)
  moreover have "p \<noteq> []" using a by auto
  ultimately show "\<exists>s'. makeFolder env p s = Inr s' \<and> is_dir (disk s') p \<and> out s' = out s"
    by (simp add: makeFolder_def establishFolder_def is_dir_def stat_update)
qed


theorem makeFolder_exclusive_witness:
  "makeFolder \<lparr>goos = ''linux'', umask = 0, sqlite = (\<lambda>db sc. Some sc)\<rparr> [''t'']
      \<lparr>disk = [([''t''], Dir 0)], out = []\<rparr> =
     Inl (logln (''*** can't establish folder '' @ ''t'') \<lparr>disk = [([''t''], Dir 0)], out = []\<rparr>) \<and>
   (\<exists>s'. makeFolder \<lparr>goos = ''linux'', umask = 0, sqlite = (\<lambda>db sc. Some sc)\<rparr> [''t'']
      \<lparr>disk = [], out = []\<rparr> = Inr s' \<and> is_dir (disk s') [''t''])"
  using makeFolder_exclusive [of "\<lparr>disk = [([''t''], Dir 0)], out = []\<rparr>" "[''t'']"
      "\<lparr>goos = ''linux'', umask = 0, sqlite = (\<lambda>db sc. Some sc)\<rparr>"]
    makeFolder_exclusive [of "\<lparr>disk = [], out = []\<rparr>" "[''t'']"
      "\<lparr>goos = ''linux'', umask = 0, sqlite = (\<lambda>db sc. Some sc)\<rparr>"]
  by (auto simp: stat_def is_dir_def)

end
