(* ===== verification/Config.thy ===== *)
theory Config
  imports FileSystem
begin

text \<open>
  The configuration of one run of makesm.go: its command-line flags (the
  \<open>flag.String\<close>/\<open>flag.Bool\<close> globals), the fixed names of the helper tools and the
  derived global \<open>smFolder\<close>. The flags are parsed once and only read after
  that, so the model passes them as one immutable record.
\<close>

record config =
  srcFolder :: path
  runsmFolder :: path
  ebcfetchFolder :: path
  smpatchFolder :: path
  phpFolder :: path
  targetFolder :: path
  db2Use :: string
  rblr :: bool
  lang2use :: string
  overwriteok :: bool
  nodebug :: bool

definition mySMFLAVOUR :: string where "mySMFLAVOUR = ''v3.4''"
definition utilsFolder :: name where "utilsFolder = ''utils''"
definition sqlite3 :: name where "sqlite3 = ''sqlite3''"
definition caddy :: name where "caddy = ''caddy''"
definition phpcgi :: name where "phpcgi = ''php-cgi''"
definition ebcfetch :: name where "ebcfetch = ''ebcfetch''"
definition smpatch :: name where "smpatch = ''smpatch''"
definition helpFolder :: name where "helpFolder = ''help''"

lemmas tool_names [simp] = mySMFLAVOUR_def utilsFolder_def sqlite3_def caddy_def phpcgi_def
  ebcfetch_def smpatch_def helpFolder_def

text \<open>\<open>smFolder = filepath.Join(*targetFolder, "sm")\<close>, set once in \<open>main\<close>.\<close>

definition smFolder :: "config \<Rightarrow> path" where
  "smFolder cfg = targetFolder cfg @ [''sm'']"

end
