(* ===== verification/Prereq.thy ===== *)
theory Prereq
  imports Copier Config
begin

text \<open>
  The Prerequisite Validator of makesm.go, \<open>checkPrerequisites\<close>: nine existence
  probes, each guarded by a platform condition, that log a diagnostic block for a
  missing artifact and clear the flag \<open>ok\<close>; after all of them, one
  \<open>log.Fatal\<close> when any probe failed. The nine \<open>if\<close> blocks of the source are the
  rows of \<open>prereq_rows\<close>, in source order, and the sequence of blocks is a left fold
  of \<open>prereq_step\<close> over them. The specification's view (a capability table per
  platform, "check everything, then fail once") is \<open>missing_prereqs\<close> and
  \<open>prereq_diag\<close>.
\<close>

type_synonym prereq_row = "bool \<times> path \<times> string list"

text \<open>
  One row per \<open>if\<close> block of \<open>checkPrerequisites\<close>: whether the block's platform
  condition holds, the probed path (the \<open>...test\<close> variable) and the hint lines
  logged after the "does not exist" line.
\<close>

definition prereq_rows :: "osenv \<Rightarrow> config \<Rightarrow> prereq_row list" where
  "prereq_rows env cfg =
     (let win = (goos env = ''windows''); lin = (goos env = ''linux'');
          sqlitetest = binexe env (srcFolder cfg @ [utilsFolder, sqlite3]);
          caddytest = binexe env (srcFolder cfg @ [utilsFolder, caddy]);
          runtest = binexe env (runsmFolder cfg @ [''runsm'']);
          cgitest = binexe env (srcFolder cfg @ [utilsFolder, phpcgi]);
          jodittest = srcFolder cfg @ [''jodit''];
          vendortest = srcFolder cfg @ [''vendor''];
          ebcfetchtest = binexe env (ebcfetchFolder cfg @ [ebcfetch]);
          smpatchtest = binexe env (smpatchFolder cfg @ [smpatch])
      in [(win, phpFolder cfg,
            [''*** You must have a working PHP installation installed. Download from php.net'',
             ''*** Be sure to use my php.ini rather than the default'']),
          (\<not> win \<and> \<not> lin, cgitest,
            [''*** You must obtain a copy - compile PHP from source?'',
             ''*** Be sure to use my php.ini rather than the default'']),
          (\<not> lin, sqlitetest, [''*** Please download from sqlite.org'']),
          (\<not> lin, ebcfetchtest, [''*** Please build or download from github'']),
          (\<not> lin, smpatchtest, [''*** Please build or download from github'']),
          (\<not> lin, caddytest,
            [''*** You must have a working Caddy installation. Download from github.com/caddyserver/caddy)'']),
          (True, jodittest, [''*** You might want to download from github.com/xdan/jodit'']),
          (True, vendortest,
            [''*** You probably need to run 'composer install' (download from getcomposer.org'']),
          (\<not> lin, runtest, [''*** You must do build it or use '-run' to point me to it''])])"

text \<open>
  One block: \<open>if cond && !fileOrFolderExists(test) { log.Printf(...); ok = false }\<close>.
\<close>

definition prereq_step :: "osenv \<Rightarrow> bool \<times> proc \<Rightarrow> prereq_row \<Rightarrow> bool \<times> proc" where
  "prereq_step env st r =
     (case st of (ok, s) \<Rightarrow> case r of (cond, test, hints) \<Rightarrow>
        if cond \<and> \<not> fileOrFolderExists (disk s) test
        then (False, s\<lparr>out := out s @ (''*** '' @ path_str (sep_of env) test @ '' does not exist!'') # hints\<rparr>)
        else (ok, s))"

definition checkPrerequisites :: "osenv \<Rightarrow> config \<Rightarrow> proc \<Rightarrow> outcome" where
  "checkPrerequisites env cfg s =
     (case foldl (prereq_step env) (True, s) (prereq_rows env cfg) of
        (ok, s') \<Rightarrow> if \<not> ok then fatal ''*** Please fix these issues and try again'' s' else Inr s')"

subsection \<open>The specification's view\<close>

text \<open>The artifacts a platform requires that are missing, and the block logged for one.\<close>

definition missing_prereqs :: "osenv \<Rightarrow> config \<Rightarrow> fsys \<Rightarrow> prereq_row list" where
  "missing_prereqs env cfg fs = filter (\<lambda>(cond, test, _). cond \<and> \<not> fileOrFolderExists fs test) (prereq_rows env cfg)"

definition prereq_diag :: "osenv \<Rightarrow> prereq_row \<Rightarrow> string list" where
  "prereq_diag env r = (case r of (_, test, hints) \<Rightarrow> (''*** '' @ path_str (sep_of env) test @ '' does not exist!'') # hints)"

subsection \<open>Lemmas\<close>

lemma prereq_step_row:
  "prereq_step env (ok, s) (cond, test, hints) =
     (if cond \<and> \<not> fileOrFolderExists (disk s) test
      then (False, s\<lparr>out := out s @ prereq_diag env (cond, test, hints)\<rparr>) else (ok, s))"
  by (simp add: prereq_step_def prereq_diag_def)

lemma foldl_prereq_step:
  "foldl (prereq_step env) (ok, s) rs =
     (ok \<and> filter (\<lambda>(cond, test, _). cond \<and> \<not> fileOrFolderExists (disk s) test) rs = [],
      s\<lparr>out := out s @ concat (map (prereq_diag env)
                        (filter (\<lambda>(cond, test, _). cond \<and> \<not> fileOrFolderExists (disk s) test) rs))\<rparr>)"
proof (induction rs arbitrary: ok s)
  case Nil
  then show ?case by simp
next
  case (Cons r rs)
  obtain cond test hints where r: "r = (cond, test, hints)" by (cases r) auto
  show ?case
    using Cons.IH
    by (cases cond; cases "fileOrFolderExists (disk s) test") (simp_all add: r prereq_step_row)
qed

lemma checkPrerequisites_fold:
  "checkPrerequisites env cfg s =
     (let s' = s\<lparr>out := out s @ concat (map (prereq_diag env) (missing_prereqs env cfg (disk s)))\<rparr>
      in if missing_prereqs env cfg (disk s) = [] then Inr s'
         else fatal ''*** Please fix these issues and try again'' s')"
  by (simp add: checkPrerequisites_def foldl_prereq_step missing_prereqs_def Let_def)

subsection \<open>Properties of the validator\<close>

text \<open>
  C8: "Check everything, then fail once": \<open>checkPrerequisites\<close> logs one diagnostic
  block (the path, then its hints) for every missing artifact its platform
  requires, in probing order, and then ends the run exactly when there was one;
  otherwise it continues with nothing but those lines added.
\<close>

theorem checkPrerequisites_reports_all:
  "checkPrerequisites env cfg s =
     (if missing_prereqs env cfg (disk s) = []
      then Inr s
      else fatal ''*** Please fix these issues and try again''
             (s\<lparr>out := out s @ concat (map (prereq_diag env) (missing_prereqs env cfg (disk s)))\<rparr>))"
  by (simp add: checkPrerequisites_fold Let_def)

end
