(* ===== verification/Selector.thy ===== *)
theory Selector
  imports Copier Config
begin

text \<open>
  The Content Selector of makesm.go: the fixed manifests (\<open>mySMFILES\<close>,
  \<open>myLANGFILES\<close>, \<open>myIMAGES\<close>, \<open>rblrIMAGES\<close>), the language token that picks a
  language variant of a file, and the copy loops \<open>copySMFiles\<close> (best effort:
  a failed copy is logged and the loop goes on) and \<open>copyImageSet\<close>/\<open>copyImages\<close>
  (mandatory: a failed copy ends the run).
\<close>

definition mySMFILES :: "name list" where
  "mySMFILES = [''about.php'', ''admin.php'', ''bonuses.php'',
    ''certedit.php'', ''certificate.css'', ''certificate.php'', ''claims.php'', ''claimslog.php'',
    ''claimsphp.js'', ''cohorts.php'', ''combos.php'', ''common.php'', ''ereviews.php'',
    ''entrants.php'', ''exportxls.php'', ''emails.php'', ''fastodos.php'', ''fastodosphp.js'',
    ''favicon.ico'', ''importxls.php'', ''index.php'', ''legs.js'', ''legs.php'',
    ''Parsedown.php'', ''picklist.php'', ''reports.php'', ''readyset.php'', ''reset.php'',
    ''LICENSE'', ''reboot.css'', ''recalc.js'', ''recalc.php'', ''restbonuses.php'', ''scorex.php'',
    ''setup.php'', ''score.css'', ''score.js'', ''score.php'', ''scorecard.php'', ''scoring.php'', ''sm.php'',
    ''showhelp.php'',
    ''speeding.php'', ''teams.php'', ''utils.php'', ''timep.php'', ''cats.php'',
    ''classes.php'']"

definition myLANGFILES :: "name list" where
  "myLANGFILES = [''custom.js'', ''customvars.php'']"

definition myIMAGES :: "name list" where
  "myIMAGES = [''ibauk.png'', ''ibauk90.png'',
    ''alertalert.png'', ''alertbike.png'', ''alertface.png'', ''alertdaylight.png'',
    ''alertnight.png'', ''alertreceipt.png'', ''alertrestricted.png'', ''alertteam.png'']"

definition rblrIMAGES :: "name list" where
  "rblrIMAGES = [''ss1000.jpg'', ''smallpoppy.png'', ''rblr.png'', ''poppy.png'',
    ''rblrhead.png'', ''bb1500.jpg'', ''bbg1500.png'',
    ''route500AC.jpg'', ''route500CW.jpg'']"

text \<open>\<open>lng\<close> in \<open>copySMFiles\<close>: what replaces the first dot of a language file's name.\<close>

definition lang_token :: "string \<Rightarrow> string" where
  "lang_token lang = (if lang \<noteq> ''en'' then ''-'' @ lang @ ''.'' else ''.'')"

text \<open>
  One of the two loops of \<open>copySMFiles\<close>: copy every name from its source to its
  destination; a failed copy prints its message and the loop goes on.
\<close>

fun copy_logged :: "osenv \<Rightarrow> (name \<Rightarrow> path) \<Rightarrow> (name \<Rightarrow> path) \<Rightarrow> (name \<Rightarrow> string) \<Rightarrow>
    name list \<Rightarrow> proc \<Rightarrow> proc" where
  "copy_logged env srcf dstf msgf [] s = s"
| "copy_logged env srcf dstf msgf (n # ns) s =
     copy_logged env srcf dstf msgf ns
       (case copyFile env (srcf n) (dstf n) (disk s) of
          Inl _ \<Rightarrow> logln (msgf n) s
        | Inr (_, fs') \<Rightarrow> s\<lparr>disk := fs'\<rparr>)"

definition copySMFiles :: "osenv \<Rightarrow> config \<Rightarrow> proc \<Rightarrow> proc" where
  "copySMFiles env cfg s =
     (let lng = lang_token (lang2use cfg);
          s1 = logln ''Copying main SM application'' s;
          s2 = copy_logged env (\<lambda>n. srcFolder cfg @ [n]) (\<lambda>n. smFolder cfg @ [n])
                 (\<lambda>n. ''*** can't copy '' @ n) mySMFILES s1
      in copy_logged env (\<lambda>n. srcFolder cfg @ [replace_first ''.'' lng n]) (\<lambda>n. smFolder cfg @ [n])
           (\<lambda>n. ''*** can't copy '' @ n @ lng) myLANGFILES s2)"

fun copyImageSet :: "osenv \<Rightarrow> config \<Rightarrow> name list \<Rightarrow> proc \<Rightarrow> outcome" where
  "copyImageSet env cfg [] s = Inr s"
| "copyImageSet env cfg (img # imgs) s =
     (case copyFile env (srcFolder cfg @ [''images'', img]) (smFolder cfg @ [''images'', img]) (disk s) of
        Inl e \<Rightarrow> fatal (''*** can't copy image '' @ img @ '' ('' @ err_text env e @ '')'') s
      | Inr (_, fs') \<Rightarrow> copyImageSet env cfg imgs (s\<lparr>disk := fs'\<rparr>))"

definition copyImages :: "osenv \<Rightarrow> config \<Rightarrow> proc \<Rightarrow> outcome" where
  "copyImages env cfg s =
     (let s1 = logln ''Copying images'' s
      in case copyImageSet env cfg myIMAGES s1 of
           Inl s2 \<Rightarrow> Inl s2
         | Inr s2 \<Rightarrow> (if rblr cfg \<or> db2Use cfg = ''r'' then copyImageSet env cfg rblrIMAGES s2 else Inr s2))"

text \<open>
  The specification's view of the image step: the images it promises, the base set
  and, when the RBLR extras are wanted (flag or database code \<open>r\<close>), the RBLR set.
\<close>

definition rblr_wanted :: "config \<Rightarrow> bool" where
  "rblr_wanted cfg = (rblr cfg \<or> db2Use cfg = ''r'')"

definition selected_images :: "config \<Rightarrow> name list" where
  "selected_images cfg = myIMAGES @ (if rblr_wanted cfg then rblrIMAGES else [])"

subsection \<open>Lemmas on the copy loops\<close>

lemma replace_first_dot:
  "CHR ''.'' \<notin> set base \<Longrightarrow> replace_first ''.'' tok (base @ ''.'' @ ext) = base @ tok @ ext"
  by (induction base) auto

text \<open>One copy into a directory \<open>D\<close> from a source outside \<open>D\<close>.\<close>

lemma copy_into_dir_ok:
  assumes "is_dir fs D" and "\<not> prefix D src" and "\<not> is_dir fs (D @ [n])"
    and "is_file fs src"
  shows "\<exists>k fs'. copyFile env src (D @ [n]) fs = Inr (k, fs') \<and>
            content fs' (D @ [n]) = content fs src \<and> \<not> is_dir fs' (D @ [n]) \<and>
            (\<forall>q. q \<noteq> D @ [n] \<longrightarrow> stat fs' q = stat fs q)"
proof -
  from assms(4) obtain m c where st: "stat fs src = Some (File m c)"
    by (auto simp: is_file_stat)
  have ne: "src \<noteq> D @ [n]" using assms(2) by auto
  have bl: "is_dir fs (butlast (D @ [n]))" using assms(1) by simp
  from copyFile_ok [OF st ne bl assms(3), of env] obtain fs' where
    cp: "copyFile env src (D @ [n]) fs = Inr (length c, fs')" and
    ct: "content fs' (D @ [n]) = Some c" and fr: "\<forall>q. q \<noteq> D @ [n] \<longrightarrow> stat fs' q = stat fs q"
    by blast
  from ct have nd: "\<not> is_dir fs' (D @ [n])"
    by (auto simp: content_stat is_dir_stat)
  from st have "content fs src = Some c" by (simp add: content_def)
  with cp ct fr nd show ?thesis by metis
qed

lemma copy_into_dir_err:
  "\<not> is_file fs src \<Longrightarrow> \<exists>e. copyFile env src dst fs = Inl e"
  by (cases "stat fs src") (auto simp: is_file_def copyFile_def split: node.splits)

lemma nodir_after_copy:
  assumes "\<not> is_dir fs' (D @ [n])" and "\<forall>q. q \<noteq> D @ [n] \<longrightarrow> stat fs' q = stat fs q"
    and "\<forall>m\<in>set ns. \<not> is_dir fs (D @ [m])"
  shows "\<forall>m\<in>set ns. \<not> is_dir fs' (D @ [m])"
proof
  fix m assume m: "m \<in> set ns"
  show "\<not> is_dir fs' (D @ [m])"
  proof (cases "m = n")
    case True
    with assms(1) show ?thesis by simp
  next
    case False
    then have "D @ [m] \<noteq> D @ [n]" by simp
    with assms(2) have "stat fs' (D @ [m]) = stat fs (D @ [m])" by blast
    then have "is_dir fs' (D @ [m]) = is_dir fs (D @ [m])" by (rule stat_cong_is_dir)
    with assms(3) m show ?thesis by simp
  qed
qed
lemma prefix_not_snoc: "\<not> prefix D p \<Longrightarrow> p \<noteq> D @ [n]"
  by auto

text \<open>One step of a logged copy loop into \<open>D\<close>.\<close>

lemma copy_logged_step:
  assumes "is_dir (disk s) D" and "\<not> prefix D src" and "\<not> is_dir (disk s) (D @ [n])"
    and s1: "s1 = (case copyFile env src (D @ [n]) (disk s) of
               Inl _ \<Rightarrow> logln msg s | Inr (_, fs') \<Rightarrow> s\<lparr>disk := fs'\<rparr>)"
  shows "(is_file (disk s) src \<longrightarrow> content (disk s1) (D @ [n]) = content (disk s) src) \<and>
         \<not> is_dir (disk s1) (D @ [n]) \<and> (\<forall>q. q \<noteq> D @ [n] \<longrightarrow> stat (disk s1) q = stat (disk s) q) \<and>
         out s1 = out s @ (if is_file (disk s) src then [] else [msg])"
proof (cases "is_file (disk s) src")
  case True
  from copy_into_dir_ok [OF assms(1,2,3) True, of env] obtain k fs' where
    cp: "copyFile env src (D @ [n]) (disk s) = Inr (k, fs')" and
    r: "content fs' (D @ [n]) = content (disk s) src" "\<not> is_dir fs' (D @ [n])"
       "\<forall>q. q \<noteq> D @ [n] \<longrightarrow> stat fs' q = stat (disk s) q"
    by blast
  from s1 cp have "s1 = s\<lparr>disk := fs'\<rparr>" by simp
  with r True show ?thesis by simp
next
  case False
  from copy_into_dir_err [OF False, of env "D @ [n]"] obtain e where
    "copyFile env src (D @ [n]) (disk s) = Inl e" by blast
  with s1 have "s1 = logln msg s" by simp
  with False assms(3) show ?thesis by simp
qed

lemma copy_logged_copies:
  assumes "is_dir (disk s) D" and "\<forall>n\<in>set ns. \<not> prefix D (srcf n)"
    and "\<forall>n\<in>set ns. \<not> is_dir (disk s) (D @ [n])"
  shows "(\<forall>n\<in>set ns. is_file (disk s) (srcf n) \<longrightarrow>
            content (disk (copy_logged env srcf (\<lambda>n. D @ [n]) msgf ns s)) (D @ [n]) =
            content (disk s) (srcf n)) \<and>
         (\<forall>q. q \<notin> (\<lambda>n. D @ [n]) ` set ns \<longrightarrow>
            stat (disk (copy_logged env srcf (\<lambda>n. D @ [n]) msgf ns s)) q = stat (disk s) q) \<and>
         out (copy_logged env srcf (\<lambda>n. D @ [n]) msgf ns s) =
            out s @ map msgf (filter (\<lambda>n. \<not> is_file (disk s) (srcf n)) ns)"
  using assms
proof (induction ns arbitrary: s)
  case Nil
  then show ?case by simp
next
  case (Cons n ns)
  define s1 where "s1 = (case copyFile env (srcf n) (D @ [n]) (disk s) of
               Inl _ \<Rightarrow> logln (msgf n) s | Inr (_, fs') \<Rightarrow> s\<lparr>disk := fs'\<rparr>)"
  let ?run = "copy_logged env srcf (\<lambda>n. D @ [n]) msgf"
  have run: "?run (n # ns) s = ?run ns s1" unfolding s1_def by (rule copy_logged.simps(2))
  have np: "\<not> prefix D (srcf n)" and nd0: "\<not> is_dir (disk s) (D @ [n])"
    using Cons.prems(2,3) by simp_all
  note one = copy_logged_step [OF Cons.prems(1) np nd0 s1_def]
  have one_ct: "is_file (disk s) (srcf n) \<Longrightarrow> content (disk s1) (D @ [n]) = content (disk s) (srcf n)"
    and one_nd: "\<not> is_dir (disk s1) (D @ [n])"
    and one_fr: "\<And>q. q \<noteq> D @ [n] \<Longrightarrow> stat (disk s1) q = stat (disk s) q"
    and one_out: "out s1 = out s @ (if is_file (disk s) (srcf n) then [] else [msgf n])"
    using one by blast+
  have src_same: "stat (disk s1) (srcf m) = stat (disk s) (srcf m)" if "m \<in> set (n # ns)" for m
  proof (rule one_fr)
    from that Cons.prems(2) show "srcf m \<noteq> D @ [n]" by (blast dest: prefix_not_snoc)
  qed
  have "stat (disk s1) D = stat (disk s) D" by (rule one_fr) simp
  then have pre1: "is_dir (disk s1) D"
    using Cons.prems(1) stat_cong_is_dir by metis
  have "\<forall>m\<in>set ns. \<not> is_dir (disk s) (D @ [m])"
    using Cons.prems(3) by simp
  then have pre3: "\<forall>m\<in>set ns. \<not> is_dir (disk s1) (D @ [m])"
    using nodir_after_copy [OF one_nd] one_fr by blast
  have pre2: "\<forall>m\<in>set ns. \<not> prefix D (srcf m)" using Cons.prems(2) by simp
  note IH = Cons.IH [OF pre1 pre2 pre3]
  have IH1: "\<And>m. m \<in> set ns \<Longrightarrow> is_file (disk s1) (srcf m) \<Longrightarrow>
      content (disk (?run ns s1)) (D @ [m]) = content (disk s1) (srcf m)"
    using IH by blast
  have IH2: "\<And>q. q \<notin> (\<lambda>n. D @ [n]) ` set ns \<Longrightarrow> stat (disk (?run ns s1)) q = stat (disk s1) q"
    using IH by blast
  have IH3: "out (?run ns s1) = out s1 @ map msgf (filter (\<lambda>n. \<not> is_file (disk s1) (srcf n)) ns)"
    using IH by blast
  have flt: "filter (\<lambda>m. \<not> is_file (disk s1) (srcf m)) ns = filter (\<lambda>m. \<not> is_file (disk s) (srcf m)) ns"
  proof (rule filter_cong [OF refl])
    fix m assume "m \<in> set ns"
    then have "stat (disk s1) (srcf m) = stat (disk s) (srcf m)" by (simp add: src_same)
    then show "(\<not> is_file (disk s1) (srcf m)) = (\<not> is_file (disk s) (srcf m))"
      using stat_cong_is_file by metis
  qed
  show ?case
  proof (intro conjI ballI impI allI)
    fix m assume m: "m \<in> set (n # ns)" and f: "is_file (disk s) (srcf m)"
    show "content (disk (?run (n # ns) s)) (D @ [m]) = content (disk s) (srcf m)"
    proof (cases "m \<in> set ns")
      case True
      have "is_file (disk s1) (srcf m)"
        using f stat_cong_is_file [OF src_same [OF m]] by simp
      with True have "content (disk (?run ns s1)) (D @ [m]) = content (disk s1) (srcf m)" by (rule IH1)
      also have "\<dots> = content (disk s) (srcf m)" using src_same [OF m] by (rule stat_cong_content)
      finally show ?thesis unfolding run .
    next
      case False
      with m have mn: "m = n" by simp
      from False have "D @ [n] \<notin> (\<lambda>n. D @ [n]) ` set ns" using mn by auto
      then have "stat (disk (?run ns s1)) (D @ [n]) = stat (disk s1) (D @ [n])" by (rule IH2)
      then have "content (disk (?run ns s1)) (D @ [n]) = content (disk s1) (D @ [n])"
        by (rule stat_cong_content)
      with one_ct f mn show ?thesis unfolding run by simp
    qed
  next
    fix q assume q: "q \<notin> (\<lambda>n. D @ [n]) ` set (n # ns)"
    then have q1: "q \<noteq> D @ [n]" and q2: "q \<notin> (\<lambda>n. D @ [n]) ` set ns" by auto
    from IH2 [OF q2] one_fr [OF q1] show "stat (disk (?run (n # ns) s)) q = stat (disk s) q"
      unfolding run by simp
  next
    from IH3 one_out flt show "out (?run (n # ns) s) = out s @ map msgf (filter (\<lambda>n. \<not> is_file (disk s) (srcf n)) (n # ns))"
      unfolding run by simp
  qed
qed

lemma copyImageSet_Inr:
  "copyImageSet env cfg imgs s = Inr s' \<Longrightarrow>
     s' = copy_logged env (\<lambda>n. srcFolder cfg @ [''images'', n])
            (\<lambda>n. (smFolder cfg @ [''images'']) @ [n]) msgf imgs s"
  by (induction imgs arbitrary: s) (auto split: sum.splits simp: fatal_def)

lemma copyImageSet_append:
  "copyImageSet env cfg (xs @ ys) s =
     (case copyImageSet env cfg xs s of Inl s' \<Rightarrow> Inl s' | Inr s' \<Rightarrow> copyImageSet env cfg ys s')"
  by (induction xs arbitrary: s) (auto split: sum.splits simp: fatal_def)

lemma copyImageSet_ok_iff:
  assumes "is_dir (disk s) D" and "\<forall>n\<in>set imgs. \<not> prefix D (srcf n)"
    and "\<forall>n\<in>set imgs. \<not> is_dir (disk s) (D @ [n])"
    and "D = smFolder cfg @ [''images'']" and "srcf = (\<lambda>n. srcFolder cfg @ [''images'', n])"
  shows "(\<exists>s'. copyImageSet env cfg imgs s = Inr s') \<longleftrightarrow> (\<forall>n\<in>set imgs. is_file (disk s) (srcf n))"
  using assms(1-3)
proof (induction imgs arbitrary: s)
  case Nil
  then show ?case by simp
next
  case (Cons n imgs)
  have np: "\<not> prefix D (srcf n)" and nd: "\<not> is_dir (disk s) (D @ [n])"
    using Cons.prems(2,3) by simp_all
  have cp_eq: "copyFile env (srcFolder cfg @ [''images'', n]) (smFolder cfg @ [''images'', n]) (disk s) =
      copyFile env (srcf n) (D @ [n]) (disk s)"
    using assms(4,5) by simp
  show ?case
  proof (cases "is_file (disk s) (srcf n)")
    case True
    from copy_into_dir_ok [OF Cons.prems(1) np nd True, of env] obtain k fs' where
      cp: "copyFile env (srcf n) (D @ [n]) (disk s) = Inr (k, fs')" and
      nd': "\<not> is_dir fs' (D @ [n])" and fr: "\<And>q. q \<noteq> D @ [n] \<Longrightarrow> stat fs' q = stat (disk s) q"
      by blast
    have src_same: "stat fs' (srcf m) = stat (disk s) (srcf m)" if "m \<in> set (n # imgs)" for m
    proof (rule fr)
      from that Cons.prems(2) show "srcf m \<noteq> D @ [n]" by (blast dest: prefix_not_snoc)
    qed
    have "stat fs' D = stat (disk s) D" by (rule fr) simp
    with Cons.prems(1) have "is_dir fs' D" by (simp add: is_dir_def)
    then have d': "is_dir (disk (s\<lparr>disk := fs'\<rparr>)) D" by simp
    have "\<forall>m\<in>set imgs. \<not> is_dir (disk s) (D @ [m])"
      using Cons.prems(3) by simp
    then have "\<forall>m\<in>set imgs. \<not> is_dir fs' (D @ [m])"
      using nodir_after_copy [OF nd'] fr by blast
    then have nd2: "\<forall>m\<in>set imgs. \<not> is_dir (disk (s\<lparr>disk := fs'\<rparr>)) (D @ [m])" by simp
    have np2: "\<forall>m\<in>set imgs. \<not> prefix D (srcf m)" using Cons.prems(2) by simp
    have fi: "is_file fs' (srcf m) = is_file (disk s) (srcf m)" if "m \<in> set imgs" for m
      using src_same [of m] that by (simp add: is_file_def)
    have files: "(\<forall>m\<in>set imgs. is_file fs' (srcf m)) \<longleftrightarrow> (\<forall>m\<in>set imgs. is_file (disk s) (srcf m))"
      using fi by (rule ball_cong [OF refl])
    from Cons.IH [OF d' np2 nd2] files
    have "(\<exists>s'. copyImageSet env cfg imgs (s\<lparr>disk := fs'\<rparr>) = Inr s') \<longleftrightarrow>
           (\<forall>m\<in>set imgs. is_file (disk s) (srcf m))" by simp
    with cp cp_eq True show ?thesis by simp
  next
    case False
    from copy_into_dir_err [OF False, of env "D @ [n]"] obtain e where
      "copyFile env (srcf n) (D @ [n]) (disk s) = Inl e" by blast
    with cp_eq False show ?thesis by (simp add: fatal_def)
  qed
qed

lemma par_not_prefix: "a \<parallel> b \<Longrightarrow> \<not> prefix (b @ x) (a @ y)"
  using parallel_append [of a b y x] by (auto dest: parallelD2)

lemma par_not_prefix0: "a \<parallel> b \<Longrightarrow> \<not> prefix b (a @ y)"
  using par_not_prefix [of a b "[]" y] by simp

lemma manifests_disjoint: "set mySMFILES \<inter> set myLANGFILES = {}"
  by (simp add: mySMFILES_def myLANGFILES_def)

lemma copyImages_selected:
  "copyImages env cfg s = copyImageSet env cfg (selected_images cfg) (logln ''Copying images'' s)"
  by (simp add: copyImages_def selected_images_def rblr_wanted_def copyImageSet_append
      split: sum.splits)

subsection \<open>The selector makes the disk grow\<close>

lemma grows_copy_logged [grows_rules]: "grows (disk s) (disk (copy_logged env srcf dstf msgf ns s))"
proof (induction ns arbitrary: s)
  case Nil
  then show ?case by simp
next
  case (Cons n ns)
  let ?s1 = "case copyFile env (srcf n) (dstf n) (disk s) of
               Inl _ \<Rightarrow> logln (msgf n) s | Inr (_, fs') \<Rightarrow> s\<lparr>disk := fs'\<rparr>"
  have "grows (disk s) (disk ?s1)"
    by (auto split: sum.splits intro: grows_copyFile)
  from grows_trans [OF this Cons.IH [of ?s1]] show ?case by simp
qed

lemma grows_copySMFiles [grows_rules]: "grows (disk s) (disk (copySMFiles env cfg s))"
proof -
  let ?lng = "lang_token (lang2use cfg)"
  let ?s1 = "logln ''Copying main SM application'' s"
  let ?s2 = "copy_logged env (\<lambda>n. srcFolder cfg @ [n]) (\<lambda>n. smFolder cfg @ [n])
               (\<lambda>n. ''*** can't copy '' @ n) mySMFILES ?s1"
  let ?s3 = "copy_logged env (\<lambda>n. srcFolder cfg @ [replace_first ''.'' ?lng n]) (\<lambda>n. smFolder cfg @ [n])
               (\<lambda>n. ''*** can't copy '' @ n @ ?lng) myLANGFILES ?s2"
  have a: "grows (disk ?s1) (disk ?s2)" by (rule grows_copy_logged)
  have b: "grows (disk ?s2) (disk ?s3)" by (rule grows_copy_logged)
  from grows_trans [OF a b] show ?thesis by (simp add: copySMFiles_def Let_def)
qed

lemma grows_copyImageSet [grows_rules]: "grows (disk s) (disk (res_state (copyImageSet env cfg imgs s)))"
proof (induction imgs arbitrary: s)
  case Nil
  then show ?case by simp
next
  case (Cons img imgs)
  show ?case
  proof (cases "copyFile env (srcFolder cfg @ [''images'', img]) (smFolder cfg @ [''images'', img]) (disk s)")
    case (Inl e)
    then show ?thesis by (simp add: fatal_def)
  next
    case (Inr r)
    obtain k fs' where r: "r = (k, fs')" by fastforce
    with Inr have "grows (disk s) fs'" by (auto intro: grows_copyFile)
    moreover have "grows fs' (disk (res_state (copyImageSet env cfg imgs (s\<lparr>disk := fs'\<rparr>))))"
      using Cons.IH [of "s\<lparr>disk := fs'\<rparr>"] by simp
    ultimately show ?thesis using Inr r by (auto intro: grows_trans)
  qed
qed

lemma grows_copyImages [grows_rules]: "grows (disk s) (disk (res_state (copyImages env cfg s)))"
proof -
  let ?s1 = "logln ''Copying images'' s"
  have "grows (disk ?s1) (disk (res_state (copyImageSet env cfg myIMAGES ?s1)))"
    by (rule grows_copyImageSet)
  moreover have "grows (disk s2) (disk (res_state (copyImageSet env cfg rblrIMAGES s2)))" for s2
    by (rule grows_copyImageSet)
  ultimately show ?thesis
    by (auto simp: copyImages_def split: sum.splits intro: grows_trans)
qed

subsection \<open>Properties of the selector\<close>

text \<open>
  C23: The language-variant files are read from \<open>custom.js\<close> and
  \<open>customvars.php\<close> for English and from \<open>custom-<code>.js\<close> and
  \<open>customvars-<code>.php\<close> for any other language code.
\<close>

theorem langfile_sources:
  "map (replace_first ''.'' (lang_token lang)) myLANGFILES =
     (if lang = ''en'' then myLANGFILES
      else [''custom-'' @ lang @ ''.js'', ''customvars-'' @ lang @ ''.php''])"
  using replace_first_dot [of "''custom''" "lang_token lang" "''js''"]
    replace_first_dot [of "''customvars''" "lang_token lang" "''php''"]
  by (simp add: myLANGFILES_def lang_token_def)

text \<open>
  C9: \<open>copySMFiles\<close> is best effort: it never ends the run; every application file
  and language file whose source is a regular file is copied into the service
  folder; and it prints one "can't copy" line for each missing one, in manifest
  order.
\<close>

theorem copySMFiles_best_effort:
  assumes par: "srcFolder cfg \<parallel> smFolder cfg" and sm: "is_dir (disk s) (smFolder cfg)"
    and nodir: "\<forall>n \<in> set mySMFILES \<union> set myLANGFILES. \<not> is_dir (disk s) (smFolder cfg @ [n])"
  shows "(\<forall>n\<in>set mySMFILES. is_file (disk s) (srcFolder cfg @ [n]) \<longrightarrow>
            content (disk (copySMFiles env cfg s)) (smFolder cfg @ [n]) = content (disk s) (srcFolder cfg @ [n])) \<and>
         (\<forall>n\<in>set myLANGFILES.
            is_file (disk s) (srcFolder cfg @ [replace_first ''.'' (lang_token (lang2use cfg)) n]) \<longrightarrow>
            content (disk (copySMFiles env cfg s)) (smFolder cfg @ [n]) =
            content (disk s) (srcFolder cfg @ [replace_first ''.'' (lang_token (lang2use cfg)) n])) \<and>
         out (copySMFiles env cfg s) = out s @ [''Copying main SM application''] @
            map (\<lambda>n. ''*** can't copy '' @ n)
              (filter (\<lambda>n. \<not> is_file (disk s) (srcFolder cfg @ [n])) mySMFILES) @
            map (\<lambda>n. ''*** can't copy '' @ n @ lang_token (lang2use cfg))
              (filter (\<lambda>n. \<not> is_file (disk s) (srcFolder cfg @ [replace_first ''.'' (lang_token (lang2use cfg)) n]))
                 myLANGFILES)"
proof -
  let ?D = "smFolder cfg"
  let ?lng = "lang_token (lang2use cfg)"
  let ?f1 = "\<lambda>n. srcFolder cfg @ [n]"
  let ?f2 = "\<lambda>n. srcFolder cfg @ [replace_first ''.'' ?lng n]"
  let ?m1 = "\<lambda>n. ''*** can't copy '' @ n"
  let ?m2 = "\<lambda>n. ''*** can't copy '' @ n @ ?lng"
  let ?s1 = "logln ''Copying main SM application'' s"
  let ?s2 = "copy_logged env ?f1 (\<lambda>n. ?D @ [n]) ?m1 mySMFILES ?s1"
  let ?s3 = "copy_logged env ?f2 (\<lambda>n. ?D @ [n]) ?m2 myLANGFILES ?s2"
  have run: "copySMFiles env cfg s = ?s3"
    by (simp add: copySMFiles_def Let_def)
  have np: "\<not> prefix ?D (srcFolder cfg @ [x])" for x
    by (rule par_not_prefix0 [OF par])
  have sm1: "is_dir (disk ?s1) ?D" using sm by simp
  have p2: "\<forall>n\<in>set mySMFILES. \<not> prefix ?D (?f1 n)" using np by simp
  have p3: "\<forall>n\<in>set mySMFILES. \<not> is_dir (disk ?s1) (?D @ [n])" using nodir by simp
  note R1 = copy_logged_copies [OF sm1 p2 p3, of env ?m1]
  have R1c: "\<And>n. n \<in> set mySMFILES \<Longrightarrow> is_file (disk s) (?f1 n) \<Longrightarrow>
      content (disk ?s2) (?D @ [n]) = content (disk s) (?f1 n)"
    using R1 by simp
  have R1f: "\<And>q. q \<notin> (\<lambda>n. ?D @ [n]) ` set mySMFILES \<Longrightarrow> stat (disk ?s2) q = stat (disk s) q"
    using R1 by simp
  have R1o: "out ?s2 = out s @ [''Copying main SM application''] @
      map ?m1 (filter (\<lambda>n. \<not> is_file (disk s) (?f1 n)) mySMFILES)"
    using R1 by simp
  have out_src: "srcFolder cfg @ [x] \<notin> (\<lambda>n. ?D @ [n]) ` set mySMFILES" for x
    using np by auto
  have out_lang: "?D @ [n] \<notin> (\<lambda>n. ?D @ [n]) ` set mySMFILES" if "n \<in> set myLANGFILES" for n
    using that manifests_disjoint by auto
  have "stat (disk ?s2) ?D = stat (disk s) ?D" by (rule R1f) auto
  with sm have sm2: "is_dir (disk ?s2) ?D" by (simp add: is_dir_def)
  have nodir2: "\<forall>n\<in>set myLANGFILES. \<not> is_dir (disk ?s2) (?D @ [n])"
  proof
    fix n assume n: "n \<in> set myLANGFILES"
    with nodir have "\<not> is_dir (disk s) (?D @ [n])" by simp
    with R1f [OF out_lang [OF n]] show "\<not> is_dir (disk ?s2) (?D @ [n])" by (simp add: is_dir_def)
  qed
  have same2: "stat (disk ?s2) (?f2 n) = stat (disk s) (?f2 n)" for n
    by (rule R1f [OF out_src])
  have q2: "\<forall>n\<in>set myLANGFILES. \<not> prefix ?D (?f2 n)" using np by simp
  note R2 = copy_logged_copies [OF sm2 q2 nodir2, of env ?m2]
  have R2c: "\<And>n. n \<in> set myLANGFILES \<Longrightarrow> is_file (disk ?s2) (?f2 n) \<Longrightarrow>
      content (disk ?s3) (?D @ [n]) = content (disk ?s2) (?f2 n)"
    using R2 by blast
  have R2f: "\<And>q. q \<notin> (\<lambda>n. ?D @ [n]) ` set myLANGFILES \<Longrightarrow> stat (disk ?s3) q = stat (disk ?s2) q"
    using R2 by blast
  have R2o: "out ?s3 = out ?s2 @ map ?m2 (filter (\<lambda>n. \<not> is_file (disk ?s2) (?f2 n)) myLANGFILES)"
    using R2 by blast
  have flt: "(\<lambda>n. \<not> is_file (disk ?s2) (?f2 n)) = (\<lambda>n. \<not> is_file (disk s) (?f2 n))"
    using same2 by (simp add: is_file_def)
  show ?thesis
  proof (intro conjI ballI impI)
    fix n assume n: "n \<in> set mySMFILES" and f: "is_file (disk s) (?f1 n)"
    have "?D @ [n] \<notin> (\<lambda>n. ?D @ [n]) ` set myLANGFILES"
      using n manifests_disjoint by auto
    then have "content (disk ?s3) (?D @ [n]) = content (disk ?s2) (?D @ [n])"
      by (rule R2f [THEN stat_cong_content])
    also have "\<dots> = content (disk s) (?f1 n)" by (rule R1c [OF n f])
    finally show "content (disk (copySMFiles env cfg s)) (?D @ [n]) = content (disk s) (?f1 n)"
      by (simp add: run)
  next
    fix n assume n: "n \<in> set myLANGFILES" and f: "is_file (disk s) (?f2 n)"
    from f same2 [of n] have "is_file (disk ?s2) (?f2 n)" by (simp add: is_file_def)
    from R2c [OF n this] same2 [of n]
    show "content (disk (copySMFiles env cfg s)) (?D @ [n]) = content (disk s) (?f2 n)"
      by (simp add: run content_def)
  next
    show "out (copySMFiles env cfg s) = out s @ [''Copying main SM application''] @
            map ?m1 (filter (\<lambda>n. \<not> is_file (disk s) (?f1 n)) mySMFILES) @
            map ?m2 (filter (\<lambda>n. \<not> is_file (disk s) (?f2 n)) myLANGFILES)"
      using R1o R2o flt by (simp add: run)
  qed
qed

text \<open>
  C10: \<open>copyImages\<close> is \<open>copyImageSet\<close> over the images the specification selects:
  the base set, then the RBLR set exactly when the RBLR flag is set or the
  database code is \<open>r\<close>.
\<close>

theorem copyImages_refines:
  "copyImages env cfg s = copyImageSet env cfg (selected_images cfg) (logln ''Copying images'' s)"
  by (rule copyImages_selected)

text \<open>
  C5: The image step is mandatory: with the images folder in place, \<open>copyImages\<close>
  continues exactly when every selected image exists as a regular file in the
  source tree, and otherwise ends the run.
\<close>

theorem copyImages_fatal_iff:
  assumes par: "srcFolder cfg \<parallel> smFolder cfg"
    and imgs: "is_dir (disk s) (smFolder cfg @ [''images''])"
    and nodir: "\<forall>n \<in> set myIMAGES \<union> set rblrIMAGES. \<not> is_dir (disk s) (smFolder cfg @ [''images'', n])"
  shows "(\<exists>s'. copyImages env cfg s = Inr s') \<longleftrightarrow>
           (\<forall>n\<in>set (selected_images cfg). is_file (disk s) (srcFolder cfg @ [''images'', n]))"
proof -
  let ?D = "smFolder cfg @ [''images'']"
  let ?f = "\<lambda>n. srcFolder cfg @ [''images'', n]"
  have np: "\<forall>n\<in>set (selected_images cfg). \<not> prefix ?D (?f n)"
    using par_not_prefix [OF par] by blast
  have nd: "\<forall>n\<in>set (selected_images cfg). \<not> is_dir (disk (logln ''Copying images'' s)) (?D @ [n])"
    using nodir by (auto simp: selected_images_def)
  have im: "is_dir (disk (logln ''Copying images'' s)) ?D" using imgs by simp
  from copyImageSet_ok_iff [OF im np nd refl refl, of env]
  show ?thesis
    by (simp add: copyImages_selected)
qed

text \<open>
  C15: After a successful image step every selected image holds its source's bytes
  and every other path is as before: in particular the RBLR images appear exactly
  when the RBLR extras are wanted.
\<close>

theorem copyImages_content:
  assumes par: "srcFolder cfg \<parallel> smFolder cfg"
    and imgs: "is_dir (disk s) (smFolder cfg @ [''images''])"
    and nodir: "\<forall>n \<in> set myIMAGES \<union> set rblrIMAGES. \<not> is_dir (disk s) (smFolder cfg @ [''images'', n])"
    and ok: "copyImages env cfg s = Inr s'"
  shows "(\<forall>n\<in>set (selected_images cfg).
            content (disk s') (smFolder cfg @ [''images'', n]) = content (disk s) (srcFolder cfg @ [''images'', n])) \<and>
         (\<forall>q. q \<notin> (\<lambda>n. smFolder cfg @ [''images'', n]) ` set (selected_images cfg) \<longrightarrow>
            stat (disk s') q = stat (disk s) q)"
proof -
  let ?D = "smFolder cfg @ [''images'']"
  let ?f = "\<lambda>n. srcFolder cfg @ [''images'', n]"
  let ?s1 = "logln ''Copying images'' s"
  have np: "\<forall>n\<in>set (selected_images cfg). \<not> prefix ?D (?f n)"
    using par_not_prefix [OF par] by blast
  have nd: "\<forall>n\<in>set (selected_images cfg). \<not> is_dir (disk ?s1) (?D @ [n])"
    using nodir by (auto simp: selected_images_def)
  have im: "is_dir (disk ?s1) ?D" using imgs by simp
  from ok have run: "copyImageSet env cfg (selected_images cfg) ?s1 = Inr s'"
    by (simp add: copyImages_selected)
  then have files: "\<forall>n\<in>set (selected_images cfg). is_file (disk ?s1) (?f n)"
    using copyImageSet_ok_iff [OF im np nd refl refl, of env] by blast
  from copyImageSet_Inr [OF run] have s': "s' = copy_logged env ?f (\<lambda>n. ?D @ [n]) (\<lambda>_. []) (selected_images cfg) ?s1" .
  note R = copy_logged_copies [OF im np nd, of env "\<lambda>_. []"]
  show ?thesis
  proof (intro conjI ballI allI impI)
    fix n assume "n \<in> set (selected_images cfg)"
    with R files have "content (disk s') (?D @ [n]) = content (disk ?s1) (?f n)"
      unfolding s' by blast
    then show "content (disk s') (smFolder cfg @ [''images'', n]) = content (disk s) (srcFolder cfg @ [''images'', n])"
      by simp
  next
    fix q assume "q \<notin> (\<lambda>n. smFolder cfg @ [''images'', n]) ` set (selected_images cfg)"
    then have "q \<notin> (\<lambda>n. ?D @ [n]) ` set (selected_images cfg)" by simp
    with R show "stat (disk s') q = stat (disk s) q"
      unfolding s' by simp
  qed
qed

end
