(* ===== verification/Database.thy ===== *)
theory Database
  imports Selector
begin

text \<open>
  The database bootstrap of makesm.go: \<open>loadSQL\<close> runs the bundled sqlite3 on the
  target database with one script on its standard input, and \<open>copyDatabase\<close>
  either loads the base script, the localized reasons and the RBLR certificates,
  or (database code \<open>l\<close>) copies a prebuilt database. The sqlite3 process is an
  oracle of the environment (\<open>sqlite env\<close>): from the database's current bytes
  (\<open>None\<close> when there is no file) and the script it gives the new bytes, or
  \<open>None\<close> for a non-zero exit status. The goroutine that writes the script and
  closes the pipe is not modelled separately: the process reads the whole script.
\<close>

unbundle bit_operations_syntax

text \<open>
  \<open>exec.Command\<close> on a path: the file (with \<open>.exe\<close> on Windows) must exist and,
  except on Windows, carry an execute bit.
\<close>

definition exec_ok :: "osenv \<Rightarrow> fsys \<Rightarrow> path \<Rightarrow> bool" where
  "exec_ok env fs p =
     (case stat fs (binexe env p) of
        Some (File m _) \<Rightarrow> goos env = ''windows'' \<or> m AND 0x49 \<noteq> 0
      | _ \<Rightarrow> False)"

definition dbFile :: "config \<Rightarrow> path" where
  "dbFile cfg = smFolder cfg @ [''ScoreMaster.db'']"

text \<open>
  \<open>loadSQL(sqlfile)\<close>: the script is read with its error ignored (a missing script
  is an empty one), sqlite3 runs on \<open>sm/ScoreMaster.db\<close>, and the result is whether
  it exited with status zero.
\<close>

definition loadSQL :: "osenv \<Rightarrow> config \<Rightarrow> name \<Rightarrow> proc \<Rightarrow> bool \<times> proc" where
  "loadSQL env cfg sqlfile s =
     (let sql = (case os_readfile (srcFolder cfg @ [sqlfile]) (disk s) of Inl _ \<Rightarrow> [] | Inr c \<Rightarrow> c);
          exe = srcFolder cfg @ [utilsFolder, sqlite3];
          db = smFolder cfg @ [''ScoreMaster.db'']
      in if \<not> exec_ok env (disk s) exe then (False, s)
         else case sqlite env (content (disk s) db) sql of
           None \<Rightarrow> (False, s)
         | Some c \<Rightarrow>
             (case os_create env db (disk s) of
                Inl _ \<Rightarrow> (False, s)
              | Inr fs1 \<Rightarrow> (True, s\<lparr>disk := os_write db c fs1\<rparr>)))"

definition copyDatabase :: "osenv \<Rightarrow> config \<Rightarrow> proc \<Rightarrow> outcome" where
  "copyDatabase env cfg s =
     (let s0 = logln ''Establishing database'' s
      in if db2Use cfg \<noteq> ''l'' then
           (case loadSQL env cfg ''ScoreMaster.sql'' s0 of
              (False, s1) \<Rightarrow> fatal ''*** can't load ScoreMaster.sql'' s1
            | (True, s1) \<Rightarrow>
                (case (if lang2use cfg \<noteq> ''en'' then
                         (case loadSQL env cfg (''Reasons-'' @ lang2use cfg @ ''.sql'') s1 of
                            (False, s2) \<Rightarrow> fatal ''*** can't load foreign reasons'' s2
                          | (True, s2) \<Rightarrow> Inr s2)
                       else Inr s1) of
                   Inl s2 \<Rightarrow> Inl s2
                 | Inr s2 \<Rightarrow>
                     (if rblr cfg \<or> db2Use cfg = ''r'' then
                        (case loadSQL env cfg ''rblrcerts.sql'' (logln ''Loading RBLR certificates'' s2) of
                           (False, s4) \<Rightarrow> fatal ''*** can't load rblrcerts.sql'' s4
                         | (True, s4) \<Rightarrow> Inr s4)
                      else Inr s2)))
         else Inr (s0\<lparr>disk := copyFile_fs env (srcFolder cfg @ [''ScoreMaster.db''])
                                 (smFolder cfg @ [''ScoreMaster.db'']) (disk s0)\<rparr>))"

text \<open>
  The specification's view of the bootstrap: an ordered plan of script loads, each
  with the lines printed before it and the diagnostic of its failure.
\<close>

definition bootstrap_plan :: "config \<Rightarrow> (string list \<times> name \<times> string) list" where
  "bootstrap_plan cfg =
     [([], ''ScoreMaster.sql'', ''*** can't load ScoreMaster.sql'')] @
     (if lang2use cfg \<noteq> ''en''
      then [([], ''Reasons-'' @ lang2use cfg @ ''.sql'', ''*** can't load foreign reasons'')] else []) @
     (if rblr_wanted cfg
      then [([''Loading RBLR certificates''], ''rblrcerts.sql'', ''*** can't load rblrcerts.sql'')] else [])"

fun run_plan :: "osenv \<Rightarrow> config \<Rightarrow> (string list \<times> name \<times> string) list \<Rightarrow> proc \<Rightarrow> outcome" where
  "run_plan env cfg [] s = Inr s"
| "run_plan env cfg ((notes, f, msg) # ps) s =
     (case loadSQL env cfg f (s\<lparr>out := out s @ notes\<rparr>) of
        (False, s') \<Rightarrow> fatal msg s'
      | (True, s') \<Rightarrow> run_plan env cfg ps s')"

definition sql_scripts :: "config \<Rightarrow> name list" where
  "sql_scripts cfg = map (fst \<circ> snd) (bootstrap_plan cfg)"

text \<open>What sqlite3 reads for a script: its bytes, or nothing when it cannot be read.\<close>

definition script_text :: "fsys \<Rightarrow> config \<Rightarrow> name \<Rightarrow> string" where
  "script_text fs cfg f = (case os_readfile (srcFolder cfg @ [f]) fs of Inl _ \<Rightarrow> [] | Inr c \<Rightarrow> c)"

text \<open>
  A sqlite3 that appends every script it reads to the database: the oracle under
  which the order of the loads is visible in the database's bytes.
\<close>

definition db_step :: "string option \<Rightarrow> string \<Rightarrow> string option" where
  "db_step db sql = Some (case db of None \<Rightarrow> sql | Some c \<Rightarrow> c @ sql)"

subsection \<open>Lemmas on the bootstrap\<close>

lemma copyDatabase_plan:
  "copyDatabase env cfg s =
     (if db2Use cfg \<noteq> ''l'' then run_plan env cfg (bootstrap_plan cfg) (logln ''Establishing database'' s)
      else Inr ((logln ''Establishing database'' s)\<lparr>disk := copyFile_fs env (srcFolder cfg @ [''ScoreMaster.db''])
                  (smFolder cfg @ [''ScoreMaster.db'']) (disk s)\<rparr>))"
  by (auto simp: copyDatabase_def bootstrap_plan_def rblr_wanted_def Let_def logln_def fatal_def
      split: prod.splits bool.splits sum.splits)

lemma loadSQL_no_exec:
  "\<not> exec_ok env (disk s) (srcFolder cfg @ [utilsFolder, sqlite3]) \<Longrightarrow> loadSQL env cfg f s = (False, s)"
  by (simp add: loadSQL_def Let_def)

lemma src_ne_sm: "srcFolder cfg \<parallel> smFolder cfg \<Longrightarrow> srcFolder cfg @ x \<noteq> smFolder cfg @ y"
  using par_not_prefix [of "srcFolder cfg" "smFolder cfg" y x] by auto


lemma loadSQL_writes:
  assumes "exec_ok env (disk s) (srcFolder cfg @ [utilsFolder, sqlite3])"
    and "is_dir (disk s) (smFolder cfg)" and "\<not> is_dir (disk s) (dbFile cfg)"
    and "sqlite env (content (disk s) (dbFile cfg)) (script_text (disk s) cfg f) = Some c"
  shows "\<exists>fs'. loadSQL env cfg f s = (True, s\<lparr>disk := fs'\<rparr>) \<and> content fs' (dbFile cfg) = Some c \<and>
           (\<forall>q. q \<noteq> dbFile cfg \<longrightarrow> stat fs' q = stat (disk s) q)"
proof -
  have "is_dir (disk s) (butlast (dbFile cfg))" using assms(2) by (simp add: dbFile_def)
  from create_write [OF this assms(3), of env c] obtain fs1 where
    cr: "os_create env (dbFile cfg) (disk s) = Inr fs1" and
    ct: "content (os_write (dbFile cfg) c fs1) (dbFile cfg) = Some c" and
    fr: "\<forall>q. q \<noteq> dbFile cfg \<longrightarrow> stat (os_write (dbFile cfg) c fs1) q = stat (disk s) q"
    by blast
  have "loadSQL env cfg f s = (True, s\<lparr>disk := os_write (dbFile cfg) c fs1\<rparr>)"
    using assms(1,4) cr by (simp add: loadSQL_def script_text_def dbFile_def Let_def)
  with ct fr show ?thesis by blast
qed

lemma run_plan_records:
  assumes par: "srcFolder cfg \<parallel> smFolder cfg"
    and ex: "exec_ok env (disk s) (srcFolder cfg @ [utilsFolder, sqlite3])"
    and sm: "is_dir (disk s) (smFolder cfg)" and nd: "\<not> is_dir (disk s) (dbFile cfg)"
    and rec: "\<forall>db sql. sqlite env db sql = db_step db sql"
  shows "\<exists>s'. run_plan env cfg ps s = Inr s' \<and>
           content (disk s') (dbFile cfg) =
             foldl db_step (content (disk s) (dbFile cfg)) (map (\<lambda>(_, f, _). script_text (disk s) cfg f) ps)"
  using ex sm nd
proof (induction ps arbitrary: s)
  case Nil
  then show ?case by simp
next
  case (Cons p ps)
  obtain pre f msg where p: "p = (pre, f, msg)" by (cases p) auto
  let ?t = "s\<lparr>out := out s @ pre\<rparr>"
  obtain c where c: "db_step (content (disk s) (dbFile cfg)) (script_text (disk s) cfg f) = Some c"
    by (simp add: db_step_def)
  from loadSQL_writes [of env ?t cfg f c] Cons.prems rec c obtain fs' where
    ld: "loadSQL env cfg f ?t = (True, ?t\<lparr>disk := fs'\<rparr>)" and ct: "content fs' (dbFile cfg) = Some c"
    and fr: "\<forall>q. q \<noteq> dbFile cfg \<longrightarrow> stat fs' q = stat (disk s) q"
    by auto
  have ne: "srcFolder cfg @ x \<noteq> dbFile cfg" for x
    using src_ne_sm [OF par] by (simp add: dbFile_def)
  have ex': "exec_ok env fs' (srcFolder cfg @ [utilsFolder, sqlite3])"
  proof -
    have "stat fs' (binexe env (srcFolder cfg @ [utilsFolder, sqlite3])) =
          stat (disk s) (binexe env (srcFolder cfg @ [utilsFolder, sqlite3]))"
      using fr ne [of "[utilsFolder, if goos env = ''windows'' then sqlite3 @ ''.exe'' else sqlite3]"]
      using binexe_snoc [of env "srcFolder cfg @ [utilsFolder]" sqlite3] by simp
    with Cons.prems(1) show ?thesis by (simp add: exec_ok_def)
  qed
  have "stat fs' (smFolder cfg) = stat (disk s) (smFolder cfg)"
    using fr by (simp add: dbFile_def)
  with Cons.prems(2) have sm': "is_dir fs' (smFolder cfg)" by (simp add: is_dir_def)
  have nd': "\<not> is_dir fs' (dbFile cfg)"
    using ct by (auto simp: content_stat is_dir_stat)
  have scr: "script_text fs' cfg g = script_text (disk s) cfg g" for g
    using fr ne [of "[g]"] by (simp add: script_text_def os_readfile_def)
  from Cons.IH [of "?t\<lparr>disk := fs'\<rparr>"] ex' sm' nd' obtain s' where
    r: "run_plan env cfg ps (?t\<lparr>disk := fs'\<rparr>) = Inr s'" and
    cs: "content (disk s') (dbFile cfg) =
           foldl db_step (content fs' (dbFile cfg)) (map (\<lambda>(_, f, _). script_text fs' cfg f) ps)"
    by auto
  have "run_plan env cfg (p # ps) s = Inr s'"
    using ld r p by simp
  moreover have "content (disk s') (dbFile cfg) =
      foldl db_step (content (disk s) (dbFile cfg)) (map (\<lambda>(_, f, _). script_text (disk s) cfg f) (p # ps))"
    using cs ct c scr p by simp
  ultimately show ?case by blast
qed

lemma foldl_db_step_Some: "foldl db_step (Some c) xs = Some (c @ concat xs)"
  by (induction xs arbitrary: c) (simp_all add: db_step_def)

lemma foldl_db_step_None: "foldl db_step None (x # xs) = Some (concat (x # xs))"
  by (simp add: db_step_def foldl_db_step_Some)

lemma os_create_sqlite_indep: "os_create (env\<lparr>sqlite := f\<rparr>) = os_create env"
proof -
  have u: "umask (env\<lparr>sqlite := f\<rparr>) = umask env" by simp
  show ?thesis unfolding os_create_def perm_of_def u ..
qed

lemma copyFile_sqlite_indep: "copyFile (env\<lparr>sqlite := f\<rparr>) src dst fs = copyFile env src dst fs"
  unfolding copyFile_def os_create_sqlite_indep ..

subsection \<open>The bootstrap makes the disk grow\<close>

lemma grows_loadSQL [grows_rules]: "grows (disk s) (disk (snd (loadSQL env cfg f s)))"
  by (auto simp: loadSQL_def Let_def split: option.splits sum.splits
      intro: grows_trans [OF grows_os_create grows_os_write])

lemma grows_run_plan: "grows (disk s) (disk (res_state (run_plan env cfg ps s)))"
proof (induction ps arbitrary: s)
  case Nil
  then show ?case by simp
next
  case (Cons p ps)
  obtain pre f msg where p: "p = (pre, f, msg)" by (cases p) auto
  let ?t = "s\<lparr>out := out s @ pre\<rparr>"
  have g: "grows (disk s) (disk (snd (loadSQL env cfg f ?t)))"
    using grows_loadSQL [of ?t env cfg f] by simp
  show ?case
  proof (cases "loadSQL env cfg f ?t")
    case (Pair ok s')
    with g Cons.IH [of s'] show ?thesis
      by (cases ok) (auto simp: p fatal_def intro: grows_trans)
  qed
qed

lemma grows_copyDatabase [grows_rules]: "grows (disk s) (disk (res_state (copyDatabase env cfg s)))"
  using grows_run_plan [of "logln ''Establishing database'' s" env cfg "bootstrap_plan cfg"]
  by (simp add: copyDatabase_plan grows_copyFile_fs)

subsection \<open>Properties of the bootstrap\<close>

text \<open>
  C11: \<open>copyDatabase\<close> implements the bootstrap plan: for every database code but
  \<open>l\<close> it runs the ordered script loads of \<open>bootstrap_plan\<close> (base script, the
  localized reasons for a language other than English, the RBLR certificates when
  the RBLR extras are wanted), ending the run at the first failing load; for \<open>l\<close>
  it copies the prebuilt database and ignores the result of the copy.
\<close>

theorem copyDatabase_refines:
  "copyDatabase env cfg s =
     (if db2Use cfg \<noteq> ''l'' then run_plan env cfg (bootstrap_plan cfg) (logln ''Establishing database'' s)
      else Inr ((logln ''Establishing database'' s)\<lparr>disk := copyFile_fs env (srcFolder cfg @ [''ScoreMaster.db''])
                  (dbFile cfg) (disk s)\<rparr>))"
  using copyDatabase_plan [of env cfg s] by (simp add: dbFile_def)

text \<open>
  C4: The scripts reach sqlite3 in the order base script, localized reasons (for a
  language other than English), RBLR certificates (for the RBLR flag or database
  code \<open>r\<close>): with a sqlite3 that appends what it reads, the new database holds
  the scripts' bytes in exactly that order.
\<close>

theorem copyDatabase_sql_order:
  assumes "db2Use cfg \<noteq> ''l''" and "srcFolder cfg \<parallel> smFolder cfg"
    and "exec_ok env (disk s) (srcFolder cfg @ [utilsFolder, sqlite3])"
    and "is_dir (disk s) (smFolder cfg)" and "stat (disk s) (dbFile cfg) = None"
    and "\<forall>db sql. sqlite env db sql = db_step db sql"
  shows "\<exists>s'. copyDatabase env cfg s = Inr s' \<and>
           content (disk s') (dbFile cfg) =
             Some (script_text (disk s) cfg ''ScoreMaster.sql'' @
                   (if lang2use cfg \<noteq> ''en'' then script_text (disk s) cfg (''Reasons-'' @ lang2use cfg @ ''.sql'') else []) @
                   (if rblr cfg \<or> db2Use cfg = ''r'' then script_text (disk s) cfg ''rblrcerts.sql'' else []))"
proof -
  let ?s0 = "logln ''Establishing database'' s"
  have nd: "\<not> is_dir (disk ?s0) (dbFile cfg)" using assms(5) by (simp add: is_dir_def)
  from run_plan_records [of cfg env ?s0 "bootstrap_plan cfg"] assms(2,3,4,6) nd
  obtain s' where r: "run_plan env cfg (bootstrap_plan cfg) ?s0 = Inr s'" and
    c: "content (disk s') (dbFile cfg) =
          foldl db_step (content (disk s) (dbFile cfg))
            (map (\<lambda>(_, f, _). script_text (disk s) cfg f) (bootstrap_plan cfg))"
    by auto
  have "content (disk s) (dbFile cfg) = None" using assms(5) by (simp add: content_def)
  with c have "content (disk s') (dbFile cfg) =
      Some (concat (map (\<lambda>(_, f, _). script_text (disk s) cfg f) (bootstrap_plan cfg)))"
    by (simp add: bootstrap_plan_def foldl_db_step_None del: foldl_Cons)
  with r assms(1) show ?thesis
    by (simp add: copyDatabase_plan bootstrap_plan_def rblr_wanted_def)
qed

text \<open>
  C16: For the live database (code \<open>l\<close>) no script is run: the step does not depend on
  sqlite3 at all, and a prebuilt database that exists as a regular file is copied
  byte for byte into the service folder.
\<close>

theorem copyDatabase_live_copy:
  assumes "db2Use cfg = ''l''"
  shows "copyDatabase (env\<lparr>sqlite := f\<rparr>) cfg s = copyDatabase (env\<lparr>sqlite := g\<rparr>) cfg s \<and>
         (stat (disk s) (srcFolder cfg @ [''ScoreMaster.db'']) = Some (File m c) \<and>
          is_dir (disk s) (smFolder cfg) \<and> \<not> is_dir (disk s) (dbFile cfg) \<and> srcFolder cfg \<parallel> smFolder cfg \<longrightarrow>
          (\<exists>s'. copyDatabase env cfg s = Inr s' \<and> content (disk s') (dbFile cfg) = Some c))"
proof (intro conjI impI)
  show "copyDatabase (env\<lparr>sqlite := f\<rparr>) cfg s = copyDatabase (env\<lparr>sqlite := g\<rparr>) cfg s"
    using assms by (simp add: copyDatabase_plan copyFile_fs_def copyFile_sqlite_indep)
next
  assume h: "stat (disk s) (srcFolder cfg @ [''ScoreMaster.db'']) = Some (File m c) \<and>
          is_dir (disk s) (smFolder cfg) \<and> \<not> is_dir (disk s) (dbFile cfg) \<and> srcFolder cfg \<parallel> smFolder cfg"
  then have ne: "srcFolder cfg @ [''ScoreMaster.db''] \<noteq> dbFile cfg"
    using src_ne_sm [of cfg "[''ScoreMaster.db'']" "[''ScoreMaster.db'']"] by (simp add: dbFile_def)
  from h have "is_dir (disk s) (butlast (dbFile cfg))" by (simp add: dbFile_def)
  with copyFile_ok [of "disk s" "srcFolder cfg @ [''ScoreMaster.db'']" m c "dbFile cfg" env] h ne
  obtain fs' where "copyFile env (srcFolder cfg @ [''ScoreMaster.db'']) (dbFile cfg) (disk s) = Inr (length c, fs')"
    and "content fs' (dbFile cfg) = Some c"
    by blast
  with assms show "\<exists>s'. copyDatabase env cfg s = Inr s' \<and> content (disk s') (dbFile cfg) = Some c"
    by (simp add: copyDatabase_plan copyFile_fs_def dbFile_def)
qed

text \<open>
  C17: A missing prebuilt database does not end the run: for code \<open>l\<close> with no
  \<open>ScoreMaster.db\<close> in the source tree, \<open>copyDatabase\<close> prints its header line and
  continues with the disk unchanged (the result of \<open>copyFile\<close> is discarded).
\<close>

theorem copyDatabase_live_missing_continues:
  assumes "db2Use cfg = ''l''" and "stat (disk s) (srcFolder cfg @ [''ScoreMaster.db'']) = None"
  shows "copyDatabase env cfg s = Inr (logln ''Establishing database'' s)"
  using assms by (simp add: copyDatabase_plan copyFile_fs_def copyFile_missing)

text \<open>
  C18: A missing SQL script is not detected: its read error is discarded and sqlite3
  reads an empty script, so with a sqlite3 that accepts it the bootstrap goes on
  as if the script had been loaded.
\<close>

theorem loadSQL_missing_script:
  assumes "stat (disk s) (srcFolder cfg @ [f]) = None"
    and "exec_ok env (disk s) (srcFolder cfg @ [utilsFolder, sqlite3])"
    and "is_dir (disk s) (smFolder cfg)" and "\<not> is_dir (disk s) (dbFile cfg)"
    and "sqlite env (content (disk s) (dbFile cfg)) [] = Some c"
  shows "\<exists>fs'. loadSQL env cfg f s = (True, s\<lparr>disk := fs'\<rparr>) \<and> content fs' (dbFile cfg) = Some c"
proof -
  have "script_text (disk s) cfg f = []"
    using assms(1) by (simp add: script_text_def os_readfile_def)
  with assms(5) have "sqlite env (content (disk s) (dbFile cfg)) (script_text (disk s) cfg f) = Some c"
    by simp
  from loadSQL_writes [OF assms(2,3,4) this] show ?thesis by blast
qed

end
