(* ===== verification/Help.thy ===== *)
theory Help
  imports Copier Config
begin

text \<open>
  The help mirror of makesm.go: \<open>copyHelp(srcpath, dstpath, folder)\<close> makes the
  destination folder (fatally, through \<open>makeFolder\<close>), lists the source folder and
  for each entry recurses (directories), runs the Markdown Transcoder
  \<open>copyMarkdown\<close> (names the regular expression \<open>\.md\<close> matches) or copies the file;
  \<open>generateHelp\<close> mirrors \<open>srcFolder/help\<close> into \<open>target/sm/help\<close>. As for
  \<open>copyFolderTree\<close>, the recursion and its loop are one \<^theory_text>\<open>partial_function\<close>
  over a task; a call's result is either the end of the process (\<open>Inl\<close>, a fatal
  \<open>makeFolder\<close>) or the returned error and the state (\<open>Inr\<close>).
\<close>

text \<open>
  \<open>mdre.MatchString(name)\<close> for \<open>mdre = regexp.MustCompile(`\.md`)\<close>: the name
  contains the three characters \<open>.md\<close> somewhere.
\<close>

fun contains :: "string \<Rightarrow> string \<Rightarrow> bool" where
  "contains pat [] = (pat = [])"
| "contains pat (c # cs) = (prefix pat (c # cs) \<or> contains pat cs)"

definition mdre_match :: "name \<Rightarrow> bool" where
  "mdre_match n = contains ''.md'' n"

text \<open>
  \<open>copyMarkdown(src, dst)\<close>: \<open>strings.Replace(dst, ".md", ".hlp", -1)\<close> on the whole
  destination path, then \<open>copyFile\<close> with its result ignored. The pattern holds no
  separator, so replacing in the joined path is replacing in each component
  (\<open>replace_all_path_str\<close>).
\<close>

definition copyMarkdown :: "osenv \<Rightarrow> path \<Rightarrow> path \<Rightarrow> fsys \<Rightarrow> fsys" where
  "copyMarkdown env src dst fs = copyFile_fs env src (map (replace_all ''.md'' ''.hlp'') dst) fs"

datatype help_task =
    HelpTask path path name
  | HelpEntries path path "(name \<times> bool) list"

type_synonym help_result = "proc + oserr option \<times> proc"

partial_function (option) copy_help :: "osenv \<Rightarrow> help_task \<Rightarrow> proc \<Rightarrow> help_result option" where
  "copy_help env t s =
     (case t of
        HelpTask srcpath dstpath folder \<Rightarrow>
          (case makeFolder env (dstpath @ [folder]) s of
             Inl s' \<Rightarrow> Some (Inl s')
           | Inr s1 \<Rightarrow>
               (case os_readdir (srcpath @ [folder]) (disk s1) of
                  Inl e \<Rightarrow> Some (Inr (Some e, s1))
                | Inr fds \<Rightarrow>
                    Option.bind (copy_help env (HelpEntries (srcpath @ [folder]) (dstpath @ [folder]) fds) s1)
                      (\<lambda>r. case r of Inl s' \<Rightarrow> Some (Inl s') | Inr (_, s') \<Rightarrow> Some (Inr (None, s')))))
      | HelpEntries src dst [] \<Rightarrow> Some (Inr (None, s))
      | HelpEntries src dst (fd # fds) \<Rightarrow>
          (if snd fd then
             Option.bind (copy_help env (HelpTask src dst (fst fd)) s)
               (\<lambda>r. case r of
                      Inl s' \<Rightarrow> Some (Inl s')
                    | Inr (e, s') \<Rightarrow> copy_help env (HelpEntries src dst fds) (print_err env e s'))
           else if mdre_match (fst fd) then
             copy_help env (HelpEntries src dst fds)
               (s\<lparr>disk := copyMarkdown env (src @ [fst fd]) (dst @ [fst fd]) (disk s)\<rparr>)
           else
             (case copyFile env (src @ [fst fd]) (dst @ [fst fd]) (disk s) of
                Inl e \<Rightarrow> copy_help env (HelpEntries src dst fds) (logln (err_text env e) s)
              | Inr (_, fs') \<Rightarrow> copy_help env (HelpEntries src dst fds) (s\<lparr>disk := fs'\<rparr>))))"

definition copyHelp :: "osenv \<Rightarrow> path \<Rightarrow> path \<Rightarrow> name \<Rightarrow> proc \<Rightarrow> help_result option" where
  "copyHelp env srcpath dstpath folder s = copy_help env (HelpTask srcpath dstpath folder) s"

text \<open>\<open>generateHelp()\<close>: the error \<open>copyHelp\<close> returns is ignored.\<close>

definition generateHelp :: "osenv \<Rightarrow> config \<Rightarrow> proc \<Rightarrow> outcome option" where
  "generateHelp env cfg s =
     map_option (\<lambda>r. case r of Inl s' \<Rightarrow> Inl s' | Inr (_, s') \<Rightarrow> Inr s')
       (copyHelp env (srcFolder cfg) (targetFolder cfg @ [''sm'']) helpFolder (logln ''Generating help'' s))"

text \<open>The state a call of the help copy leaves, whether the process continues or ended.\<close>

definition help_state :: "help_result \<Rightarrow> proc" where
  "help_state r = (case r of Inl s \<Rightarrow> s | Inr (_, s) \<Rightarrow> s)"

subsection \<open>Unfolding the help copy\<close>

lemma copy_help_HelpTask:
  "copy_help env (HelpTask srcpath dstpath folder) s =
     (case makeFolder env (dstpath @ [folder]) s of
        Inl s' \<Rightarrow> Some (Inl s')
      | Inr s1 \<Rightarrow>
          (case os_readdir (srcpath @ [folder]) (disk s1) of
             Inl e \<Rightarrow> Some (Inr (Some e, s1))
           | Inr fds \<Rightarrow>
               Option.bind (copy_help env (HelpEntries (srcpath @ [folder]) (dstpath @ [folder]) fds) s1)
                 (\<lambda>r. case r of Inl s' \<Rightarrow> Some (Inl s') | Inr (_, s') \<Rightarrow> Some (Inr (None, s')))))"
  by (subst copy_help.simps) simp

lemma copy_help_Entries_Nil [simp]: "copy_help env (HelpEntries src dst []) s = Some (Inr (None, s))"
  by (subst copy_help.simps) simp

lemma copy_help_Entries_Cons:
  "copy_help env (HelpEntries src dst (fd # fds)) s =
     (if snd fd then
        Option.bind (copy_help env (HelpTask src dst (fst fd)) s)
          (\<lambda>r. case r of
                 Inl s' \<Rightarrow> Some (Inl s')
               | Inr (e, s') \<Rightarrow> copy_help env (HelpEntries src dst fds) (print_err env e s'))
      else if mdre_match (fst fd) then
        copy_help env (HelpEntries src dst fds)
          (s\<lparr>disk := copyMarkdown env (src @ [fst fd]) (dst @ [fst fd]) (disk s)\<rparr>)
      else
        (case copyFile env (src @ [fst fd]) (dst @ [fst fd]) (disk s) of
           Inl e \<Rightarrow> copy_help env (HelpEntries src dst fds) (logln (err_text env e) s)
         | Inr (_, fs') \<Rightarrow> copy_help env (HelpEntries src dst fds) (s\<lparr>disk := fs'\<rparr>)))"
  by (subst copy_help.simps) simp

lemmas copy_help_unfold [code] = copy_help_HelpTask copy_help_Entries_Nil copy_help_Entries_Cons

subsection \<open>The name match and the rename\<close>

text \<open>The match is the library's contiguous-sublist relation.\<close>

lemma contains_sublist: "contains pat s \<longleftrightarrow> sublist pat s"
  by (induction s) (simp_all add: sublist_Cons_right)

subsection \<open>The help mirror makes the disk grow\<close>

lemma grows_copyMarkdown [grows_rules]: "grows fs (copyMarkdown env src dst fs)"
  by (simp add: copyMarkdown_def grows_copyFile_fs)

lemma help_state_simps [simp]: "help_state (Inl s) = s" "help_state (Inr (e, s)) = s"
  by (simp_all add: help_state_def)

lemma grows_makeFolder_Inr: "makeFolder env p s = Inr s1 \<Longrightarrow> grows (disk s) (disk s1)"
  using grows_makeFolder [of s env p] by simp

lemma grows_makeFolder_Inl: "makeFolder env p s = Inl s1 \<Longrightarrow> grows (disk s) (disk s1)"
  using grows_makeFolder [of s env p] by simp

lemma bind_help_result:
  "Option.bind x (\<lambda>r. case r of Inl s' \<Rightarrow> Some (Inl s') | Inr (_, s') \<Rightarrow> Some (Inr (None, s'))) = Some res \<Longrightarrow>
     \<exists>r. x = Some r \<and> help_state res = help_state r"
  by (cases x) (auto simp: help_state_def split: sum.splits prod.splits)

lemma map_help_result:
  "map_option (\<lambda>r. case r of Inl s' \<Rightarrow> Inl s' | Inr (_, s') \<Rightarrow> Inr s') x = Some res \<Longrightarrow>
     \<exists>r. x = Some r \<and> res_state res = help_state r"
  by (cases x) (auto simp: help_state_def split: sum.splits prod.splits)

lemma bind_help_entry:
  "Option.bind x (\<lambda>r. case r of Inl s' \<Rightarrow> Some (Inl s') | Inr (e, s') \<Rightarrow> g e s') = Some res \<Longrightarrow>
     \<exists>r. x = Some r \<and> (case r of Inl s' \<Rightarrow> res = Inl s' | Inr (e, s') \<Rightarrow> g e s' = Some res)"
  by (cases x) (auto split: sum.splits prod.splits)

lemma grows_copy_help [grows_rules]:
  assumes "copy_help env t s = Some res"
  shows "grows (disk s) (disk (help_state res))"
  apply (rule copy_help.raw_induct [where P = "\<lambda>env t s res. grows (disk s) (disk (help_state res))", OF _ assms])
  subgoal premises prems for f env t s res
  proof (cases t)
    case (HelpTask srcpath dstpath folder)
    with prems(2) show ?thesis
      by (auto split: option.splits sum.splits dest!: bind_help_result prems(1)
          intro: grows_makeFolder_Inl grows_trans [OF grows_makeFolder_Inr])
  next
    case (HelpEntries src dst fds)
    show ?thesis
    proof (cases fds)
      case Nil
      with HelpEntries prems(2) show ?thesis by auto
    next
      case (Cons fd fds')
      with HelpEntries prems(2) show ?thesis
        by (auto split: if_splits option.splits sum.splits prod.splits
            dest!: bind_help_entry prems(1) intro: grows_trans grows_trans [OF grows_copyFile]
            grows_trans [OF grows_copyMarkdown]; blast intro: grows_trans)
    qed
  qed
  done

lemma grows_generateHelp [grows_rules]:
  assumes "generateHelp env cfg s = Some r"
  shows "grows (disk s) (disk (res_state r))"
proof -
  from map_help_result [OF assms [unfolded generateHelp_def copyHelp_def]] obtain h where
    h: "copy_help env (HelpTask (srcFolder cfg) (targetFolder cfg @ [''sm'']) helpFolder)
          (logln ''Generating help'' s) = Some h" and r: "res_state r = help_state h"
    by blast
  from grows_copy_help [OF h] r show ?thesis by simp
qed

subsection \<open>Termination of the help mirror\<close>

text \<open>
  The help mirror writes only below its top destination \<open>D\<close>: folders and copies
  at the current destination, Markdown copies at the renamed destination, which
  stays below \<open>D\<close> when no component of \<open>D\<close> matches \<open>.md\<close>. With the source
  parallel to \<open>D\<close>, the paths below the source never change, and the same
  measure as for \<open>copyFolderTree\<close> bounds the recursion.
\<close>

lemma same_outside_under:
  assumes "\<And>q. q \<noteq> p \<Longrightarrow> stat fs' q = stat fs q" and "prefix D p"
  shows "same_outside D fs fs'"
  unfolding same_outside_def
proof (intro allI impI)
  fix q assume "q \<parallel> D"
  with assms(2) have "q \<noteq> p" by (auto simp: parallel_def)
  then show "stat fs' q = stat fs q" by (rule assms(1))
qed

lemma copyFile_fs_under: "prefix D dst \<Longrightarrow> same_outside D fs (copyFile_fs env src dst fs)"
  by (auto simp: copyFile_fs_def split: sum.splits intro!: same_outside_under dest: copyFile_frame)

lemma replace_no_md: "\<not> mdre_match c \<Longrightarrow> replace_all ''.md'' ''.hlp'' c = c"
proof (induction c)
  case (Cons x xs)
  then have np: "\<not> prefix ''.md'' (x # xs)" and "\<not> mdre_match xs"
    by (simp_all add: mdre_match_def)
  with Cons.IH show ?case by auto
qed simp

lemma copyMarkdown_under:
  assumes "prefix D dst" and "\<forall>c\<in>set D. \<not> mdre_match c"
  shows "same_outside D fs (copyMarkdown env src (dst @ [n]) fs)"
proof -
  from assms(1) obtain rest where dst: "dst = D @ rest" by (auto simp: prefix_def)
  have "map (replace_all ''.md'' ''.hlp'') D = D"
    using assms(2) by (induction D) (simp_all add: replace_no_md)
  then have "prefix D (map (replace_all ''.md'' ''.hlp'') (dst @ [n]))"
    by (simp add: dst)
  then show ?thesis by (simp add: copyMarkdown_def copyFile_fs_under)
qed

lemma makeFolder_Inl_disk: "makeFolder env p s = Inl s' \<Longrightarrow> disk s' = disk s"
  by (auto simp: makeFolder_def establishFolder_def fatal_def split: sum.splits)

lemma makeFolder_Inr_frame: "makeFolder env p s = Inr s' \<Longrightarrow> q \<noteq> p \<Longrightarrow> stat (disk s') q = stat (disk s) q"
  by (auto simp: makeFolder_def establishFolder_def fatal_def split: sum.splits dest: stat_os_mkdir)

text \<open>The loop over a folder's entries, given that each sub-folder's copy returns.\<close>

lemma copy_help_entries_total:
  assumes par: "src \<parallel> D" and pre: "prefix D dst" and nomd: "\<forall>c\<in>set D. \<not> mdre_match c"
    and rec: "\<And>n t. src @ [n] \<in> B \<Longrightarrow> below (disk t) src = B \<Longrightarrow>
              \<exists>r. copy_help env (HelpTask src dst n) t = Some r \<and> same_outside D (disk t) (disk (help_state r))"
    and "\<forall>fd\<in>set fds. src @ [fst fd] \<in> B" and "below (disk t) src = B"
  shows "\<exists>r. copy_help env (HelpEntries src dst fds) t = Some r \<and> same_outside D (disk t) (disk (help_state r))"
  using assms(5,6)
proof (induction fds arbitrary: t)
  case Nil
  then show ?case by simp
next
  case (Cons fd fds)
  obtain n isd where fd: "fd = (n, isd)" by fastforce
  have inB: "src @ [n] \<in> B" and rest: "\<forall>fd\<in>set fds. src @ [fst fd] \<in> B"
    using Cons.prems(1) fd by simp_all
  have cont: "\<exists>r. copy_help env (HelpEntries src dst fds) t' = Some r \<and> same_outside D (disk t) (disk (help_state r))"
    if fr: "same_outside D (disk t) (disk t')" for t'
  proof -
    have "below (disk t') src = B" using below_same [OF par fr] Cons.prems(2) by simp
    from Cons.IH [OF rest this] fr show ?thesis by (blast intro: same_outside_trans)
  qed
  show ?case
  proof (cases isd)
    case True
    from rec [OF inB Cons.prems(2)] obtain r1 where r1: "copy_help env (HelpTask src dst n) t = Some r1"
      and f1: "same_outside D (disk t) (disk (help_state r1))" by blast
    show ?thesis
    proof (cases r1)
      case (Inl s')
      with r1 f1 True fd show ?thesis by (simp add: copy_help_Entries_Cons)
    next
      case (Inr es)
      obtain e t1 where es: "es = (e, t1)" by fastforce
      with Inr f1 have "same_outside D (disk t) (disk (print_err env e t1))" by simp
      from cont [OF this] r1 Inr es True fd show ?thesis by (simp add: copy_help_Entries_Cons)
    qed
  next
    case False
    show ?thesis
    proof (cases "mdre_match n")
      case True
      have "same_outside D (disk t) (disk (t\<lparr>disk := copyMarkdown env (src @ [n]) (dst @ [n]) (disk t)\<rparr>))"
        using copyMarkdown_under [OF pre nomd] by simp
      from cont [OF this] False True fd show ?thesis by (simp add: copy_help_Entries_Cons)
    next
      case nmd: False
      show ?thesis
      proof (cases "copyFile env (src @ [n]) (dst @ [n]) (disk t)")
        case (Inl e)
        from cont [of "logln (err_text env e) t"] Inl False nmd fd show ?thesis
          by (simp add: copy_help_Entries_Cons)
      next
        case (Inr kfs)
        obtain k fs' where kfs: "kfs = (k, fs')" by fastforce
        have "prefix D (dst @ [n])" using pre by (simp add: prefix_prefix)
        with Inr kfs have "same_outside D (disk t) (disk (t\<lparr>disk := fs'\<rparr>))"
          by (auto intro!: same_outside_under dest: copyFile_frame)
        from cont [OF this] Inr kfs False nmd fd show ?thesis by (simp add: copy_help_Entries_Cons)
      qed
    qed
  qed
qed

lemma copy_help_total:
  assumes "sp @ [f] \<parallel> D" and "prefix D (dp @ [f])" and nomd: "\<forall>c\<in>set D. \<not> mdre_match c"
  shows "\<exists>r. copy_help env (HelpTask sp dp f) s = Some r \<and> same_outside D (disk s) (disk (help_state r))"
  using assms(1,2)
proof (induction "card (below (disk s) (sp @ [f]))" arbitrary: sp dp f s rule: less_induct)
  case less
  let ?src = "sp @ [f]" and ?dst = "dp @ [f]"
  show ?case
  proof (cases "makeFolder env ?dst s")
    case (Inl s')
    with makeFolder_Inl_disk [OF Inl] show ?thesis by (simp add: copy_help_HelpTask)
  next
    case (Inr s1)
    have fr1: "same_outside D (disk s) (disk s1)"
      using makeFolder_Inr_frame [OF Inr] less.prems(2) by (blast intro: same_outside_under)
    show ?thesis
    proof (cases "os_readdir ?src (disk s1)")
      case (Inl e)
      with Inr fr1 show ?thesis by (simp add: copy_help_HelpTask)
    next
      case (Inr fds)
      let ?B = "below (disk s) ?src"
      have B1: "below (disk s1) ?src = ?B" using below_same [OF less.prems(1) fr1] .
      have rec: "\<exists>r. copy_help env (HelpTask ?src ?dst n) t = Some r \<and> same_outside D (disk t) (disk (help_state r))"
        if "?src @ [n] \<in> ?B" and "below (disk t) ?src = ?B" for n t
      proof -
        have "card (below (disk t) (?src @ [n])) < card ?B"
          using below_child [of ?src n "disk t"] that by simp
        moreover have "?src @ [n] \<parallel> D" using parallel_append [OF less.prems(1), of "[n]" "[]"] by simp
        moreover have "prefix D (?dst @ [n])"
          using prefix_order.trans [OF less.prems(2) prefixI [of "?dst @ [n]" ?dst "[n]"]] by simp
        ultimately show ?thesis using less.hyps by blast
      qed
      have "\<forall>fd\<in>set fds. ?src @ [fst fd] \<in> ?B"
        using os_readdir_child [OF Inr] B1 by simp
      from copy_help_entries_total [OF less.prems(1) less.prems(2) nomd rec this B1]
      obtain r where r: "copy_help env (HelpEntries ?src ?dst fds) s1 = Some r"
        and fr2: "same_outside D (disk s1) (disk (help_state r))" by blast
      have "same_outside D (disk s) (disk (help_state r))"
        using fr1 fr2 by (rule same_outside_trans)
      with r \<open>makeFolder env ?dst s = Inr s1\<close> Inr show ?thesis
        by (cases r) (auto simp: copy_help_HelpTask)
    qed
  qed
qed

subsection \<open>Properties of the help mirror\<close>

text \<open>
  C12: \<open>generateHelp\<close> returns whenever the help source is parallel to its
  destination \<open>target/sm/help\<close> and no component of the target matches \<open>.md\<close>; it
  then changes nothing outside the destination.
\<close>

theorem generateHelp_terminates:
  assumes "srcFolder cfg @ [helpFolder] \<parallel> targetFolder cfg @ [''sm'', helpFolder]"
    and "\<forall>c\<in>set (targetFolder cfg). \<not> mdre_match c"
  shows "\<exists>r. generateHelp env cfg s = Some r \<and>
           same_outside (targetFolder cfg @ [''sm'', helpFolder]) (disk s) (disk (res_state r))"
proof -
  let ?D = "targetFolder cfg @ [''sm'', helpFolder]"
  have nomd: "\<forall>c\<in>set ?D. \<not> mdre_match c"
    using assms(2) by (simp add: mdre_match_def)
  have "prefix ?D ((targetFolder cfg @ [''sm'']) @ [helpFolder])" by simp
  from copy_help_total [OF assms(1) this nomd, of env "logln ''Generating help'' s"]
  obtain h where h: "copy_help env (HelpTask (srcFolder cfg) (targetFolder cfg @ [''sm'']) helpFolder)
      (logln ''Generating help'' s) = Some h" and fr: "same_outside ?D (disk s) (disk (help_state h))"
    by auto
  show ?thesis
    using h fr by (cases h) (auto simp: generateHelp_def copyHelp_def)
qed

end
