(* ===== verification/Assembler.thy ===== *)
theory Assembler
  imports Prereq Selector Database Help
begin

text \<open>
  The Installation Assembler of makesm.go: \<open>main\<close> and the population steps it
  calls that no other theory holds (\<open>zapTarget\<close>, \<open>writeReadme\<close>, \<open>copyPHP\<close>,
  \<open>copyExecs\<close>, \<open>copyJodit\<close>, \<open>copyPhpPackages\<close>). \<open>main\<close> is a sequence of steps
  (\<open>run_steps\<close>): each continues, ends the process through \<open>log.Fatal\<close>, or (the tree
  copies) does not return. \<open>flag.Parse\<close> is the configuration record; the
  one-second sleep of \<open>zapTarget\<close> is not modelled.
\<close>

unbundle bit_operations_syntax

definition nl :: string where "nl = [CHR 0x0A]"

text \<open>The text of \<open>myREADME\<close>, one line per element, each ended by a newline.\<close>

definition myREADME :: string where
  "myREADME = concat (map (\<lambda>l. l @ nl)
     [''This folder contains a working copy of IBA ScoreMaster rally administration software.'',
      '''',
      ''If you wish, you can copy this folder and its subfolders into a location on your'',
      ''hard drive and run the software from there.'',
      '''',
      ''To start the ScoreMaster server, run or double-click the file 'runsm' in this folder. You might need'',
      ''to grant permission for your firewall but it will only fire up a local web browser to enable you to'',
      ''access the system, from this machine or anywhere on your local network.'',
      '''',
      ''If you need further support please contact the author, Bob Stammers, at webmaster@ironbutt.co.uk''])"

text \<open>Steps of \<open>main\<close> from the component functions.\<close>

definition lift :: "(proc \<Rightarrow> outcome) \<Rightarrow> step" where
  "lift f s = Some (f s)"

definition liftp :: "(proc \<Rightarrow> proc) \<Rightarrow> step" where
  "liftp f s = Some (Inr (f s))"

definition zapTarget :: "osenv \<Rightarrow> config \<Rightarrow> proc \<Rightarrow> proc" where
  "zapTarget env cfg s =
     (let s1 = logln (''Overwriting '' @ path_str (sep_of env) (targetFolder cfg)) s
      in s1\<lparr>disk := os_removeAll (targetFolder cfg) (disk s1)\<rparr>)"

text \<open>
  \<open>writeReadme()\<close>: nothing when \<open>readme.txt\<close> cannot be created; otherwise the
  readme, a blank line and the platform name, then an empty file named after the
  platform (its creation error ignored).
\<close>

definition writeReadme :: "osenv \<Rightarrow> config \<Rightarrow> proc \<Rightarrow> proc" where
  "writeReadme env cfg s =
     (let readme = targetFolder cfg @ [''readme.txt'']
      in case os_create env readme (disk s) of
           Inl _ \<Rightarrow> s
         | Inr fs1 \<Rightarrow>
             (let fs2 = os_write readme (nl @ nl @ goos env) (os_write readme myREADME fs1)
              in case os_create env (targetFolder cfg @ [goos env]) fs2 of
                   Inl _ \<Rightarrow> s\<lparr>disk := fs2\<rparr>
                 | Inr fs3 \<Rightarrow> s\<lparr>disk := fs3\<rparr>))"

definition copyPHP :: "osenv \<Rightarrow> config \<Rightarrow> step" where
  "copyPHP env cfg s =
     (let ini = srcFolder cfg @ [''php'', ''php.ini''];
          copy_ini = (\<lambda>s'. if stat (disk s') ini \<noteq> None
                          then s'\<lparr>disk := copyFile_fs env ini (targetFolder cfg @ [''php'', ''php.ini'']) (disk s')\<rparr>
                          else s')
      in if goos env = ''windows'' then
           (case copyFolderTree env (phpFolder cfg) (targetFolder cfg @ [''php''])
                   (logln (''Copying PHP from '' @ path_str (sep_of env) (phpFolder cfg)) s) of
              None \<Rightarrow> None
            | Some (Some e, s1) \<Rightarrow> Some (fatal (''*** FAILED copying folder: '' @ err_text env e) s1)
            | Some (None, s1) \<Rightarrow> Some (Inr (copy_ini s1)))
         else if goos env \<noteq> ''linux'' then
           (let cgi = srcFolder cfg @ [utilsFolder, phpcgi];
                s1 = (if stat (disk s) cgi \<noteq> None
                      then s\<lparr>disk := copyExec env cgi (targetFolder cfg @ [''php'', ''php-cgi'']) (disk s)\<rparr>
                      else s)
            in Some (Inr (copy_ini s1)))
         else Some (Inr (copy_ini s)))"

definition copyExecs :: "osenv \<Rightarrow> config \<Rightarrow> proc \<Rightarrow> proc" where
  "copyExecs env cfg s =
     (if goos env = ''linux'' then s
      else
        (let s0 = logln ''Copying executables'' s;
             fs1 = copyExec env (srcFolder cfg @ [utilsFolder, caddy]) (targetFolder cfg @ [''caddy'', caddy]) (disk s0);
             fs2 = copyExec env (ebcfetchFolder cfg @ [ebcfetch]) (targetFolder cfg @ [''caddy'', ebcfetch]) fs1;
             fs3 = copyExec env (smpatchFolder cfg @ [smpatch]) (targetFolder cfg @ [smpatch]) fs2;
             fs4 = copyExec env (runsmFolder cfg @ [''runsm'']) (targetFolder cfg @ [''runsm'']) fs3;
             fs5 = (if \<not> nodebug cfg
                    then copyExec env (runsmFolder cfg @ [''runsm'']) (targetFolder cfg @ [''debugsm'']) fs4
                    else fs4)
         in s0\<lparr>disk := fs5\<rparr>))"

definition copyJodit :: "osenv \<Rightarrow> config \<Rightarrow> proc \<Rightarrow> outcome" where
  "copyJodit env cfg s =
     (case makeFolder env (smFolder cfg @ [''jodit'']) (logln ''Copying Jodit WYSIWYG editor'' s) of
        Inl s' \<Rightarrow> Inl s'
      | Inr s1 \<Rightarrow>
          (let fs1 = copyFile_fs env (srcFolder cfg @ [''jodit'', ''build'', ''jodit.min.js''])
                       (smFolder cfg @ [''jodit'', ''jodit.min.js'']) (disk s1);
               fs2 = copyFile_fs env (srcFolder cfg @ [''jodit'', ''build'', ''jodit.min.css''])
                       (smFolder cfg @ [''jodit'', ''jodit.min.css'']) fs1;
               fs3 = copyFile_fs env (srcFolder cfg @ [''images'', ''icons'', ''fields.png''])
                       (smFolder cfg @ [''jodit'', ''fields.png'']) fs2;
               fs4 = copyFile_fs env (srcFolder cfg @ [''images'', ''icons'', ''borders.png''])
                       (smFolder cfg @ [''jodit'', ''borders.png'']) fs3
           in Inr (s1\<lparr>disk := fs4\<rparr>)))"

definition copyPhpPackages :: "osenv \<Rightarrow> config \<Rightarrow> step" where
  "copyPhpPackages env cfg s =
     (case copyFolderTree env (srcFolder cfg @ [''vendor'']) (smFolder cfg @ [''vendor''])
             (logln ''Copying PHP packages'' s) of
        None \<Rightarrow> None
      | Some (Some e, s1) \<Rightarrow> Some (fatal (''*** FAILED copying folder: '' @ err_text env e) s1)
      | Some (None, s1) \<Rightarrow> Some (Inr s1))"

text \<open>
  The copies of \<open>copyExecs\<close> and of \<open>copyJodit\<close> as tables of (source,
  destination) pairs in the order of the source; \<open>debugsm\<close> only without \<open>-nodebug\<close>.
\<close>

definition exec_copies :: "config \<Rightarrow> (path \<times> path) list" where
  "exec_copies cfg =
     [(srcFolder cfg @ [utilsFolder, caddy], targetFolder cfg @ [''caddy'', caddy]),
      (ebcfetchFolder cfg @ [ebcfetch], targetFolder cfg @ [''caddy'', ebcfetch]),
      (smpatchFolder cfg @ [smpatch], targetFolder cfg @ [smpatch]),
      (runsmFolder cfg @ [''runsm''], targetFolder cfg @ [''runsm''])] @
     (if nodebug cfg then [] else [(runsmFolder cfg @ [''runsm''], targetFolder cfg @ [''debugsm''])])"

definition jodit_copies :: "config \<Rightarrow> (path \<times> path) list" where
  "jodit_copies cfg =
     [(srcFolder cfg @ [''jodit'', ''build'', ''jodit.min.js''], smFolder cfg @ [''jodit'', ''jodit.min.js'']),
      (srcFolder cfg @ [''jodit'', ''build'', ''jodit.min.css''], smFolder cfg @ [''jodit'', ''jodit.min.css'']),
      (srcFolder cfg @ [''images'', ''icons'', ''fields.png''], smFolder cfg @ [''jodit'', ''fields.png'']),
      (srcFolder cfg @ [''images'', ''icons'', ''borders.png''], smFolder cfg @ [''jodit'', ''borders.png''])]"

text \<open>The folders \<open>main\<close> creates, in creation order.\<close>

definition layout_dirs :: "config \<Rightarrow> path list" where
  "layout_dirs cfg =
     [targetFolder cfg, smFolder cfg, smFolder cfg @ [''images''], smFolder cfg @ [''images'', ''bonuses''],
      smFolder cfg @ [''uploads''], smFolder cfg @ [''ebcimg''], targetFolder cfg @ [''php''],
      targetFolder cfg @ [''caddy'']]"

text \<open>The population steps of \<open>main\<close>, after the layout, in the order of the source.\<close>

definition populate_steps :: "osenv \<Rightarrow> config \<Rightarrow> step list" where
  "populate_steps env cfg =
     [liftp (writeReadme env cfg), copyPHP env cfg, lift (copyDatabase env cfg),
      liftp (copySMFiles env cfg), liftp (copyExecs env cfg), lift (copyImages env cfg),
      lift (copyJodit env cfg), copyPhpPackages env cfg, generateHelp env cfg,
      liftp (\<lambda>s. s\<lparr>out := out s @ [''ScoreMaster installed in '' @ path_str (sep_of env) (targetFolder cfg), '''']\<rparr>)]"

text \<open>
  \<open>main()\<close> after \<open>flag.Parse\<close>: the empty target is refused, then the steps in
  the order of the source, the first fatal one ending the run.
\<close>

definition main_steps :: "osenv \<Rightarrow> config \<Rightarrow> step list" where
  "main_steps env cfg =
     [lift (checkPrerequisites env cfg)] @
     (if overwriteok cfg then [liftp (zapTarget env cfg)] else []) @
     [liftp (logln ''Building folder structure'')] @
     map (\<lambda>p. lift (makeFolder env p)) (layout_dirs cfg) @
     populate_steps env cfg"

definition main :: "osenv \<Rightarrow> config \<Rightarrow> proc \<Rightarrow> outcome option" where
  "main env cfg s =
     (let s0 = s\<lparr>out := out s @ ['''', ''MakeSM '' @ mySMFLAVOUR @ '' ScoreMaster installation maker'',
                                   ''Building for '' @ goos env]\<rparr>
      in if targetFolder cfg = [] then Some (fatal ''You must specify a target folder'' s0)
         else run_steps (main_steps env cfg) s0)"

subsection \<open>Lemmas on the steps\<close>

lemma andThen_lift [simp]:
  "andThen (lift f) g s = (case f s of Inl s' \<Rightarrow> Some (Inl s') | Inr s' \<Rightarrow> g s')"
  by (simp add: lift_def andThen_def)

lemma andThen_liftp [simp]: "andThen (liftp f) g s = g (f s)"
  by (simp add: liftp_def andThen_def)

lemma step_keeps_lift: "(\<And>s. Q (disk s) (disk (res_state (f s)))) \<Longrightarrow> step_keeps Q (lift f)"
  by (simp add: step_keeps_def lift_def)

lemma step_keeps_liftp: "(\<And>s. Q (disk s) (disk (f s))) \<Longrightarrow> step_keeps Q (liftp f)"
  by (simp add: step_keeps_def liftp_def)

lemma checkPrerequisites_disk:
  "disk (res_state (checkPrerequisites env cfg s)) = disk s"
  by (simp add: checkPrerequisites_fold Let_def fatal_def)

lemma makeFolder_Inr_dir: "makeFolder env p s = Inr s' \<Longrightarrow> is_dir (disk s') p"
  by (auto simp: makeFolder_def establishFolder_def os_mkdir_Inr fatal_def is_dir_def stat_update
      split: sum.splits)

lemma makeFolder_existing:
  "stat (disk s) p \<noteq> None \<Longrightarrow> \<exists>s'. makeFolder env p s = Inl s' \<and> disk s' = disk s"
  by (simp add: makeFolder_def establishFolder_def os_mkdir_exists fatal_def)

subsection \<open>The population steps make the disk grow\<close>

lemma grows_writeReadme [grows_rules]: "grows (disk s) (disk (writeReadme env cfg s))"
proof (cases "os_create env (targetFolder cfg @ [''readme.txt'']) (disk s)")
  case (Inl e)
  then show ?thesis by (simp add: writeReadme_def)
next
  case (Inr fs1)
  let ?p = "targetFolder cfg @ [''readme.txt'']"
  let ?fs2 = "os_write ?p (nl @ nl @ goos env) (os_write ?p myREADME fs1)"
  have "grows (disk s) (os_write ?p myREADME fs1)"
    by (rule grows_trans [OF grows_os_create [OF Inr] grows_os_write])
  then have g2: "grows (disk s) ?fs2"
    by (rule grows_trans [OF _ grows_os_write])
  show ?thesis
  proof (cases "os_create env (targetFolder cfg @ [goos env]) ?fs2")
    case (Inl e)
    with Inr g2 show ?thesis by (simp add: writeReadme_def Let_def)
  next
    case Inr3: (Inr fs3)
    have "grows (disk s) fs3" by (rule grows_trans [OF g2 grows_os_create [OF Inr3]])
    with Inr Inr3 show ?thesis by (simp add: writeReadme_def Let_def)
  qed
qed

lemma grows_copy_ini:
  "grows (disk s) (disk (if stat (disk s) ini \<noteq> None then s\<lparr>disk := copyFile_fs env ini dst (disk s)\<rparr> else s))"
  by (simp add: grows_copyFile_fs)

lemma grows_copyPHP [grows_rules]: "step_keeps grows (copyPHP env cfg)"
  unfolding step_keeps_def
proof (intro allI impI)
  fix s r assume run: "copyPHP env cfg s = Some r"
  let ?ini = "srcFolder cfg @ [''php'', ''php.ini'']"
  let ?dst = "targetFolder cfg @ [''php'', ''php.ini'']"
  let ?ci = "\<lambda>s'. if stat (disk s') ?ini \<noteq> None then s'\<lparr>disk := copyFile_fs env ?ini ?dst (disk s')\<rparr> else s'"
  have ci: "grows (disk s') (disk (?ci s'))" for s' by (rule grows_copy_ini)
  show "grows (disk s) (disk (res_state r))"
  proof (cases "goos env = ''windows''")
    case True
    let ?s0 = "logln (''Copying PHP from '' @ path_str (sep_of env) (phpFolder cfg)) s"
    from run True obtain e s1 where
      ct: "copyFolderTree env (phpFolder cfg) (targetFolder cfg @ [''php'']) ?s0 = Some (e, s1)"
      and r: "r = (case e of Some e' \<Rightarrow> fatal (''*** FAILED copying folder: '' @ err_text env e') s1
                   | None \<Rightarrow> Inr (?ci s1))"
      by (auto simp: copyPHP_def Let_def split: option.splits)
    have "grows (disk s) (disk s1)"
      using grows_copy_tree [OF ct [unfolded copyFolderTree_def]] by simp
    with ci [of s1] r show ?thesis
      by (cases e) (auto simp: fatal_def intro: grows_trans)
  next
    case False
    let ?cgi = "srcFolder cfg @ [utilsFolder, phpcgi]"
    let ?s1 = "if stat (disk s) ?cgi \<noteq> None
               then s\<lparr>disk := copyExec env ?cgi (targetFolder cfg @ [''php'', ''php-cgi'']) (disk s)\<rparr> else s"
    have g1: "grows (disk s) (disk ?s1)" by (simp add: grows_copyExec)
    show ?thesis
    proof (cases "goos env = ''linux''")
      case True
      with False run ci [of s] show ?thesis by (auto simp: copyPHP_def Let_def)
    next
      case nl: False
      with False run have "r = Inr (?ci ?s1)" by (auto simp: copyPHP_def Let_def)
      with g1 ci [of ?s1] show ?thesis by (auto intro: grows_trans)
    qed
  qed
qed

lemma grows_then_copyExec: "grows fs fs' \<Longrightarrow> grows fs (copyExec env src dst fs')"
  by (rule grows_trans [OF _ grows_copyExec])

lemma grows_then_copyFile_fs: "grows fs fs' \<Longrightarrow> grows fs (copyFile_fs env src dst fs')"
  by (rule grows_trans [OF _ grows_copyFile_fs])

lemma grows_copyExecs [grows_rules]: "grows (disk s) (disk (copyExecs env cfg s))"
  unfolding copyExecs_def Let_def
  by (simp add: grows_then_copyExec)

lemma grows_copyJodit [grows_rules]: "grows (disk s) (disk (res_state (copyJodit env cfg s)))"
proof (cases "makeFolder env (smFolder cfg @ [''jodit'']) (logln ''Copying Jodit WYSIWYG editor'' s)")
  case (Inl s')
  from grows_makeFolder [of "logln ''Copying Jodit WYSIWYG editor'' s" env "smFolder cfg @ [''jodit'']"] Inl
  show ?thesis by (simp add: copyJodit_def)
next
  case (Inr s1)
  from grows_makeFolder [of "logln ''Copying Jodit WYSIWYG editor'' s" env "smFolder cfg @ [''jodit'']"] Inr
  have "grows (disk s) (disk s1)" by simp
  with Inr show ?thesis
    by (simp add: copyJodit_def Let_def grows_then_copyFile_fs)
qed

lemma grows_copyPhpPackages [grows_rules]: "step_keeps grows (copyPhpPackages env cfg)"
  unfolding step_keeps_def
proof (intro allI impI)
  fix s r assume run: "copyPhpPackages env cfg s = Some r"
  let ?s0 = "logln ''Copying PHP packages'' s"
  from run obtain e s1 where
    ct: "copyFolderTree env (srcFolder cfg @ [''vendor'']) (smFolder cfg @ [''vendor'']) ?s0 = Some (e, s1)"
    and r: "r = (case e of Some e' \<Rightarrow> fatal (''*** FAILED copying folder: '' @ err_text env e') s1 | None \<Rightarrow> Inr s1)"
    by (auto simp: copyPhpPackages_def split: option.splits)
  have "grows (disk s) (disk s1)"
    using grows_copy_tree [OF ct [unfolded copyFolderTree_def]] by simp
  with r show "grows (disk s) (disk (res_state r))"
    by (cases e) (auto simp: fatal_def)
qed

lemma step_keeps_generateHelp: "step_keeps grows (generateHelp env cfg)"
  by (simp add: step_keeps_def grows_generateHelp)

lemma populate_grows: "list_all (step_keeps grows) (populate_steps env cfg)"
  by (simp add: populate_steps_def step_keeps_lift step_keeps_liftp grows_writeReadme grows_copyPHP
      grows_copyDatabase grows_copySMFiles grows_copyExecs grows_copyImages grows_copyJodit
      grows_copyPhpPackages step_keeps_generateHelp)

subsection \<open>The copy loops of the population steps\<close>

lemma copyExecs_fold:
  "copyExecs env cfg s =
     (if goos env = ''linux'' then s
      else (logln ''Copying executables'' s)\<lparr>disk := foldl (\<lambda>fs (a, b). copyExec env a b fs) (disk s) (exec_copies cfg)\<rparr>)"
  by (cases "nodebug cfg") (simp_all add: copyExecs_def exec_copies_def Let_def)

lemma copyJodit_fold:
  "copyJodit env cfg s =
     (case makeFolder env (smFolder cfg @ [''jodit'']) (logln ''Copying Jodit WYSIWYG editor'' s) of
        Inl s' \<Rightarrow> Inl s'
      | Inr s1 \<Rightarrow> Inr (s1\<lparr>disk := foldl (\<lambda>fs (a, b). copyFile_fs env a b fs) (disk s1) (jodit_copies cfg)\<rparr>))"
  by (simp add: copyJodit_def jodit_copies_def Let_def split: sum.splits)

lemma exec_copies_distinct: "distinct (map snd (exec_copies cfg))"
  by (simp add: exec_copies_def)

lemma exec_copies_dsts:
  "(a, b) \<in> set (exec_copies cfg) \<Longrightarrow>
     b \<in> {targetFolder cfg @ [''caddy'', ''caddy''], targetFolder cfg @ [''caddy'', ''ebcfetch''],
          targetFolder cfg @ [''smpatch''], targetFolder cfg @ [''runsm''], targetFolder cfg @ [''debugsm'']}"
  by (auto simp: exec_copies_def split: if_splits)

lemma exec_copies_parent:
  "(a, b) \<in> set (exec_copies cfg) \<Longrightarrow>
     butlast (binexe env b) = targetFolder cfg \<or> butlast (binexe env b) = targetFolder cfg @ [''caddy'']"
  by (drule exec_copies_dsts) (auto simp: binexe_snoc binexe_snoc2 butlast_append)

lemma exec_copies_dst_apart:
  assumes "(a, b) \<in> set (exec_copies cfg)" "(a', b') \<in> set (exec_copies cfg)" "b' \<noteq> b"
  shows "binexe env b \<noteq> b' \<and> binexe env b \<noteq> binexe env b'"
proof (cases "goos env = ''windows''")
  case True
  with exec_copies_dsts [OF assms(1)] exec_copies_dsts [OF assms(2)] assms(3) show ?thesis
    unfolding insert_iff empty_iff by (elim disjE; simp add: binexe_snoc binexe_snoc2)
next
  case False
  with exec_copies_dsts [OF assms(1)] exec_copies_dsts [OF assms(2)] assms(3) show ?thesis
    unfolding insert_iff empty_iff by (elim disjE; simp add: binexe_def)
qed

lemma jodit_copies_shape:
  "(a, b) \<in> set (jodit_copies cfg) \<Longrightarrow> butlast b = smFolder cfg @ [''jodit''] \<and> b \<noteq> smFolder cfg @ [''jodit'']"
  by (auto simp: jodit_copies_def smFolder_def butlast_append)

subsection \<open>Lemmas on main\<close>

lemma step_keeps_grows_wf:
  "step_keeps grows f \<Longrightarrow> step_keeps (\<lambda>a b. fs_wf a \<longrightarrow> fs_wf b) f"
  by (auto simp: step_keeps_def grows_def)

lemma layout_grows: "list_all (step_keeps grows) (map (\<lambda>p. lift (makeFolder env p)) ps)"
  by (simp add: list_all_iff step_keeps_lift grows_makeFolder)

lemma main_steps_split:
  "main_steps env cfg =
     ([lift (checkPrerequisites env cfg)] @ (if overwriteok cfg then [liftp (zapTarget env cfg)] else []) @
      [liftp (logln ''Building folder structure'')]) @
     (map (\<lambda>p. lift (makeFolder env p)) (layout_dirs cfg) @ populate_steps env cfg)"
  by (simp add: main_steps_def)

lemma layout_steps_dirs:
  assumes "run_steps (map (\<lambda>p. lift (makeFolder env p)) ps @ rest) s = Some (Inr s')"
    and "list_all (step_keeps grows) rest"
  shows "\<forall>p\<in>set ps. is_dir (disk s') p"
  using assms(1)
proof (induction ps arbitrary: s)
  case Nil
  then show ?case by simp
next
  case (Cons p ps)
  from Cons.prems obtain s1 where mk: "makeFolder env p s = Inr s1"
    and run: "run_steps (map (\<lambda>p. lift (makeFolder env p)) ps @ rest) s1 = Some (Inr s')"
    by (auto split: sum.splits)
  have "grows (disk s1) (disk s')"
    using run_steps_grows [OF _ run] layout_grows [of env ps] assms(2) by simp
  with makeFolder_Inr_dir [OF mk] have "is_dir (disk s') p" by (simp add: grows_def)
  with Cons.IH [OF run] show ?case by simp
qed

lemma main_steps_wf: "list_all (step_keeps (\<lambda>a b. fs_wf a \<longrightarrow> fs_wf b)) (main_steps env cfg)"
proof -
  have pre: "list_all (step_keeps (\<lambda>a b. fs_wf a \<longrightarrow> fs_wf b))
      ([lift (checkPrerequisites env cfg)] @ (if overwriteok cfg then [liftp (zapTarget env cfg)] else []) @
       [liftp (logln ''Building folder structure'')])"
    by (simp add: step_keeps_lift step_keeps_liftp checkPrerequisites_disk zapTarget_def Let_def
        wf_os_removeAll)
  have "list_all (step_keeps grows) (map (\<lambda>p. lift (makeFolder env p)) (layout_dirs cfg) @ populate_steps env cfg)"
    using layout_grows populate_grows by simp
  then have "list_all (step_keeps (\<lambda>a b. fs_wf a \<longrightarrow> fs_wf b))
      (map (\<lambda>p. lift (makeFolder env p)) (layout_dirs cfg) @ populate_steps env cfg)"
    by (simp add: list_all_iff step_keeps_grows_wf)
  with pre show ?thesis by (simp only: main_steps_split list_all_append)
qed

text \<open>
  An existing target without the overwrite flag: the validator never writes, and
  the exclusive creation of the target, the first folder of the layout, fails.
\<close>

lemma main_existing_target:
  assumes "targetFolder cfg \<noteq> []" and "\<not> overwriteok cfg"
    and ex: "stat (disk s) (targetFolder cfg) \<noteq> None"
  shows "\<exists>s'. main env cfg s = Some (Inl s') \<and> disk s' = disk s"
proof -
  let ?s0 = "s\<lparr>out := out s @ ['''', ''MakeSM '' @ mySMFLAVOUR @ '' ScoreMaster installation maker'',
                               ''Building for '' @ goos env]\<rparr>"
  have run: "main env cfg s = run_steps (main_steps env cfg) ?s0"
    using assms(1) by (simp add: main_def Let_def)
  have cd: "disk (res_state (checkPrerequisites env cfg ?s0)) = disk s"
    using checkPrerequisites_disk [of env cfg ?s0] by simp
  show ?thesis
  proof (cases "checkPrerequisites env cfg ?s0")
    case (Inl s1)
    with run cd assms(2) show ?thesis by (simp add: main_steps_def)
  next
    case (Inr s1)
    let ?s2 = "logln ''Building folder structure'' s1"
    from cd Inr have "disk ?s2 = disk s" by simp
    with ex makeFolder_existing [of ?s2 "targetFolder cfg" env]
    obtain s' where mk: "makeFolder env (targetFolder cfg) ?s2 = Inl s'" and d: "disk s' = disk s"
      by auto
    from run Inr assms(2) mk have "main env cfg s = Some (Inl s')"
      by (simp add: main_steps_def layout_dirs_def)
    with d show ?thesis by blast
  qed
qed

text \<open>A run that gets past the validator found nothing missing on the disk it started on.\<close>

lemma main_Inr_checked:
  assumes "main env cfg s = Some (Inr s')"
  shows "targetFolder cfg \<noteq> [] \<and> missing_prereqs env cfg (disk s) = []"
proof -
  let ?s0 = "s\<lparr>out := out s @ ['''', ''MakeSM '' @ mySMFLAVOUR @ '' ScoreMaster installation maker'',
                               ''Building for '' @ goos env]\<rparr>"
  have ne: "targetFolder cfg \<noteq> []"
    using assms by (auto simp: main_def Let_def fatal_def)
  with assms have "run_steps (main_steps env cfg) ?s0 = Some (Inr s')"
    by (simp add: main_def Let_def)
  then obtain s1 where "checkPrerequisites env cfg ?s0 = Inr s1"
    by (auto simp: main_steps_def split: sum.splits)
  then have "missing_prereqs env cfg (disk ?s0) = []"
    by (auto simp: checkPrerequisites_fold Let_def fatal_def split: if_splits)
  with ne show ?thesis by simp
qed

text \<open>
  The run keeps the file system a tree: from a well-formed disk, whatever the
  run ends in (success or a fatal step), the disk is well-formed.
\<close>

lemma main_keeps_wf:
  assumes "fs_wf (disk s)" and "main env cfg s = Some r"
  shows "fs_wf (disk (res_state r))"
proof (cases "targetFolder cfg = []")
  case True
  with assms show ?thesis by (auto simp: main_def Let_def fatal_def)
next
  case False
  let ?s0 = "s\<lparr>out := out s @ ['''', ''MakeSM '' @ mySMFLAVOUR @ '' ScoreMaster installation maker'',
                               ''Building for '' @ goos env]\<rparr>"
  from False assms(2) have run: "run_steps (main_steps env cfg) ?s0 = Some r"
    by (simp add: main_def Let_def)
  have "fs_wf (disk ?s0) \<longrightarrow> fs_wf (disk (res_state r))"
    by (rule run_steps_keeps [OF _ _ main_steps_wf run]) simp_all
  with assms(1) show ?thesis by simp
qed

subsection \<open>Properties of the assembler\<close>

text \<open>
  C3: Refusal: with no target, or with an existing target and no overwrite flag,
  \<open>main\<close> ends the run without having changed the disk: the prerequisite check
  never writes, and the exclusive creation of the target fails first.
\<close>

theorem main_refuses:
  assumes "targetFolder cfg = [] \<or> (\<not> overwriteok cfg \<and> stat (disk s) (targetFolder cfg) \<noteq> None)"
  shows "\<exists>s'. main env cfg s = Some (Inl s') \<and> disk s' = disk s"
proof (cases "targetFolder cfg = []")
  case True
  then show ?thesis by (simp add: main_def Let_def fatal_def)
next
  case False
  with assms main_existing_target [OF False] show ?thesis by blast
qed

text \<open>
  C7: A run only succeeds when every guard of \<open>main\<close> passed on the disk it started
  on: a target was given, every artifact the platform requires was there, and the
  target did not exist yet unless overwriting was asked for.
\<close>

theorem main_success_guards:
  assumes "main env cfg s = Some (Inr s')"
  shows "targetFolder cfg \<noteq> [] \<and> missing_prereqs env cfg (disk s) = [] \<and>
         (overwriteok cfg \<or> stat (disk s) (targetFolder cfg) = None)"
proof -
  from main_Inr_checked [OF assms] have ne: "targetFolder cfg \<noteq> []"
    and ok: "missing_prereqs env cfg (disk s) = []" by simp_all
  have "overwriteok cfg \<or> stat (disk s) (targetFolder cfg) = None"
  proof (rule ccontr)
    assume "\<not> (overwriteok cfg \<or> stat (disk s) (targetFolder cfg) = None)"
    with main_existing_target [OF ne, of s env] assms show False by auto
  qed
  with ne ok show ?thesis by simp
qed

text \<open>
  C6: After a successful run every folder of the fixed layout (the target, the
  service folder with its images, bonuses, uploads and embedded-content folders,
  the PHP and proxy folders) is a directory: the later steps never remove one.
\<close>

theorem main_layout:
  assumes "main env cfg s = Some (Inr s')"
  shows "\<forall>p\<in>set (layout_dirs cfg). is_dir (disk s') p"
proof -
  let ?s0 = "s\<lparr>out := out s @ ['''', ''MakeSM '' @ mySMFLAVOUR @ '' ScoreMaster installation maker'',
                               ''Building for '' @ goos env]\<rparr>"
  have "targetFolder cfg \<noteq> []"
    using assms by (auto simp: main_def Let_def fatal_def)
  with assms have "run_steps (main_steps env cfg) ?s0 = Some (Inr s')"
    by (simp add: main_def Let_def)
  then obtain s1 where
    "run_steps (map (\<lambda>p. lift (makeFolder env p)) (layout_dirs cfg) @ populate_steps env cfg) s1 = Some (Inr s')"
    unfolding main_steps_split by (blast dest: run_steps_append_Inr)
  from layout_steps_dirs [OF this populate_grows] show ?thesis .
qed

text \<open>
  C22: \<open>writeReadme\<close> on every branch: with no \<open>readme.txt\<close> and no platform file yet,
  when the target is a folder it leaves \<open>readme.txt\<close> holding the readme, a blank
  line and the platform name, creates the empty platform file beside it, and changes
  nothing else; when the target is not a folder it changes nothing at all.
\<close>

theorem writeReadme_functional:
  assumes rn: "stat (disk s) (targetFolder cfg @ [''readme.txt'']) = None"
    and pn: "stat (disk s) (targetFolder cfg @ [goos env]) = None"
    and ne: "goos env \<noteq> ''readme.txt''"
  shows "if is_dir (disk s) (targetFolder cfg) then
           content (disk (writeReadme env cfg s)) (targetFolder cfg @ [''readme.txt'']) =
             Some (myREADME @ nl @ nl @ goos env) \<and>
           content (disk (writeReadme env cfg s)) (targetFolder cfg @ [goos env]) = Some [] \<and>
           out (writeReadme env cfg s) = out s \<and>
           (\<forall>q. q \<notin> {targetFolder cfg @ [''readme.txt''], targetFolder cfg @ [goos env]} \<longrightarrow>
                stat (disk (writeReadme env cfg s)) q = stat (disk s) q)
         else writeReadme env cfg s = s"
proof (cases "is_dir (disk s) (targetFolder cfg)")
  case False
  with rn have "\<exists>e. os_create env (targetFolder cfg @ [''readme.txt'']) (disk s) = Inl e"
    by (auto simp: os_create_def parent_err_def is_dir_def split: option.splits node.splits)
  then obtain e where "os_create env (targetFolder cfg @ [''readme.txt'']) (disk s) = Inl e" ..
  with False show ?thesis by (simp add: writeReadme_def)
next
  case True
  let ?r = "targetFolder cfg @ [''readme.txt'']" and ?p = "targetFolder cfg @ [goos env]"
  let ?fs1 = "AList.update ?r (File (perm_of env 0x1B6) []) (disk s)"
  let ?fs2 = "os_write ?r (nl @ nl @ goos env) (os_write ?r myREADME ?fs1)"
  let ?fs3 = "AList.update ?p (File (perm_of env 0x1B6) []) ?fs2"
  have c1: "os_create env ?r (disk s) = Inr ?fs1" using os_create_fresh [OF rn] True by simp
  have rp: "?r \<noteq> ?p" using ne by simp
  have "content ?fs1 ?r = Some []" by (simp add: content_def stat_update)
  then have rc: "content ?fs2 ?r = Some (myREADME @ nl @ nl @ goos env)"
    by (simp add: content_os_write)
  have fr2: "stat ?fs2 q = stat (disk s) q" if "q \<noteq> ?r" for q
    using that by (simp add: stat_os_write stat_update)
  have "stat ?fs2 ?p = None" using fr2 [OF rp [symmetric]] pn by simp
  moreover have "is_dir ?fs2 (targetFolder cfg)"
    using True fr2 [of "targetFolder cfg"] by (simp add: is_dir_def)
  ultimately have c3: "os_create env ?p ?fs2 = Inr ?fs3" using os_create_fresh by fastforce
  have "content ?fs3 ?r = Some (myREADME @ nl @ nl @ goos env)"
    using rc rp by (simp add: content_def stat_update)
  moreover have "content ?fs3 ?p = Some []" by (simp add: content_def stat_update)
  moreover have "stat ?fs3 q = stat (disk s) q" if "q \<notin> {?r, ?p}" for q
    using that fr2 [of q] by (simp add: stat_update)
  ultimately show ?thesis using True c1 c3 by (simp add: writeReadme_def Let_def)
qed

text \<open>
  C20: \<open>copyExecs\<close> off Linux: with the target and its \<open>caddy\<close> folder present, every
  executable present at its source and its destination still free, each destination
  (with \<open>.exe\<close> on Windows) holds the bytes of its source: Caddy and ebcfetch in
  \<open>caddy\<close>, smpatch and runsm in the target, and a second runsm as \<open>debugsm\<close>, which
  \<open>-nodebug\<close> leaves alone.
\<close>

theorem copyExecs_installs:
  assumes nl: "goos env \<noteq> ''linux''"
    and dirs: "is_dir (disk s) (targetFolder cfg)" "is_dir (disk s) (targetFolder cfg @ [''caddy''])"
    and fresh: "\<forall>(a, b)\<in>set (exec_copies cfg). is_file (disk s) (binexe env a) \<and>
                  stat (disk s) b = None \<and> stat (disk s) (binexe env b) = None"
  shows "(\<forall>(a, b)\<in>set (exec_copies cfg).
            content (disk (copyExecs env cfg s)) (binexe env b) = content (disk s) (binexe env a)) \<and>
         (nodebug cfg \<longrightarrow> stat (disk (copyExecs env cfg s)) (binexe env (targetFolder cfg @ [''debugsm''])) =
                         stat (disk s) (binexe env (targetFolder cfg @ [''debugsm'']))) \<and>
         out (copyExecs env cfg s) = out s @ [''Copying executables'']"
proof -
  let ?ps = "exec_copies cfg"
  let ?run = "foldl (\<lambda>fs (a, b). copyExec env a b fs) (disk s) ?ps"
  have par: "is_dir (disk s) (butlast (binexe env b))" if "(a, b) \<in> set ?ps" for a b
    using exec_copies_parent [OF that, of env] dirs by auto
  have pre: "\<forall>(a, b)\<in>set ?ps. is_file (disk s) (binexe env a) \<and> is_dir (disk s) (butlast (binexe env b)) \<and>
               \<not> is_dir (disk s) (binexe env b)"
    using fresh par by (auto dest: is_dir_present)
  have ap: "binexe env a \<notin> {b', binexe env b'} \<and> butlast (binexe env b) \<notin> {b', binexe env b'} \<and>
            (b' \<noteq> b \<longrightarrow> binexe env b \<notin> {b', binexe env b'})"
    if ab: "(a, b) \<in> set ?ps" and ab': "(a', b') \<in> set ?ps" for a b a' b'
  proof -
    from fresh ab ab' have f: "is_file (disk s) (binexe env a)" and n1: "stat (disk s) b' = None"
      and n2: "stat (disk s) (binexe env b') = None" by auto
    have p: "stat (disk s) (butlast (binexe env b)) \<noteq> None" using par [OF ab] by (rule is_dir_present)
    show ?thesis
      using present_not_absent [OF is_file_present [OF f] n1] present_not_absent [OF is_file_present [OF f] n2]
        present_not_absent [OF p n1] present_not_absent [OF p n2] exec_copies_dst_apart [OF ab ab', of env]
      by auto
  qed
  then have apart: "\<forall>(a, b)\<in>set ?ps. \<forall>(a', b')\<in>set ?ps. binexe env a \<notin> {b', binexe env b'} \<and>
           butlast (binexe env b) \<notin> {b', binexe env b'} \<and> (b' \<noteq> b \<longrightarrow> binexe env b \<notin> {b', binexe env b'})"
    by auto
  from copyExec_sequence [OF exec_copies_distinct apart pre]
  have c: "\<forall>(a, b)\<in>set ?ps. content ?run (binexe env b) = content (disk s) (binexe env a)" .
  have "stat ?run (binexe env (targetFolder cfg @ [''debugsm''])) = stat (disk s) (binexe env (targetFolder cfg @ [''debugsm'']))"
    if "nodebug cfg"
  proof (rule copies_frame [where T = "\<lambda>b. {b, binexe env b}" and cp = "copyExec env", OF copyExec_frame])
    show "\<forall>(a, b)\<in>set ?ps. binexe env (targetFolder cfg @ [''debugsm'']) \<notin> {b, binexe env b}"
      using that by (simp add: exec_copies_def binexe_snoc binexe_snoc2)
  qed
  with c nl show ?thesis by (simp add: copyExecs_fold)
qed

text \<open>
  C21: \<open>copyJodit\<close>: with the service folder present and no \<open>jodit\<close> folder in it, the
  step continues, the \<open>jodit\<close> folder exists, and the editor script, its style sheet
  and the two icons hold the bytes of their sources.
\<close>

theorem copyJodit_installs:
  assumes dir: "is_dir (disk s) (smFolder cfg)" and none: "stat (disk s) (smFolder cfg @ [''jodit'']) = None"
    and fresh: "\<forall>(a, b)\<in>set (jodit_copies cfg). is_file (disk s) a \<and> stat (disk s) b = None"
  shows "\<exists>s'. copyJodit env cfg s = Inr s' \<and> is_dir (disk s') (smFolder cfg @ [''jodit'']) \<and>
           (\<forall>(a, b)\<in>set (jodit_copies cfg). content (disk s') b = content (disk s) a) \<and>
           out s' = out s @ [''Copying Jodit WYSIWYG editor'']"
proof -
  let ?J = "smFolder cfg @ [''jodit'']"
  let ?ps = "jodit_copies cfg"
  let ?fs1 = "AList.update ?J (Dir (perm_of env 0x1FF)) (disk s)"
  let ?s1 = "(logln ''Copying Jodit WYSIWYG editor'' s)\<lparr>disk := ?fs1\<rparr>"
  have "os_mkdir env ?J 0x1FF (disk s) = Inr ?fs1"
    using none dir by (simp add: os_mkdir_Inr)
  then have mk: "makeFolder env ?J (logln ''Copying Jodit WYSIWYG editor'' s) = Inr ?s1"
    by (simp add: makeFolder_def establishFolder_def)
  have fr1: "stat ?fs1 q = stat (disk s) q" if "q \<noteq> ?J" for q
    using that by (simp add: stat_update)
  have jd: "is_dir ?fs1 ?J" by (simp add: is_dir_def stat_update smFolder_def)
  have pre: "\<forall>(a, b)\<in>set ?ps. is_file ?fs1 a \<and> is_dir ?fs1 (butlast b) \<and> \<not> is_dir ?fs1 b"
  proof (intro ballI, clarify)
    fix a b assume ab: "(a, b) \<in> set ?ps"
    with fresh have f: "is_file (disk s) a" and n: "stat (disk s) b = None" by auto
    have "a \<noteq> ?J" using present_not_absent [OF is_file_present [OF f] none] .
    moreover have "butlast b = ?J" and "b \<noteq> ?J" using jodit_copies_shape [OF ab] by simp_all
    ultimately show "is_file ?fs1 a \<and> is_dir ?fs1 (butlast b) \<and> \<not> is_dir ?fs1 b"
      using f n jd by (simp add: is_file_def is_dir_def fr1)
  qed
  have ap: "a \<notin> {b'} \<and> butlast b \<notin> {b'} \<and> (b' \<noteq> b \<longrightarrow> b \<notin> {b'})"
    if ab: "(a, b) \<in> set ?ps" and ab': "(a', b') \<in> set ?ps" for a b a' b'
  proof -
    from fresh ab ab' have f: "is_file (disk s) a" and n: "stat (disk s) b' = None" by auto
    show ?thesis
      using present_not_absent [OF is_file_present [OF f] n] jodit_copies_shape [OF ab] jodit_copies_shape [OF ab']
      by auto
  qed
  then have apart: "\<forall>(a, b)\<in>set ?ps. \<forall>(a', b')\<in>set ?ps. a \<notin> {b'} \<and> butlast b \<notin> {b'} \<and> (b' \<noteq> b \<longrightarrow> b \<notin> {b'})"
    by auto
  have dist: "distinct (map snd ?ps)" by (simp add: jodit_copies_def)
  from copyFile_fs_sequence [OF dist apart pre, of env]
  have c: "\<forall>(a, b)\<in>set ?ps. content (foldl (\<lambda>fs (a, b). copyFile_fs env a b fs) ?fs1 ?ps) b = content ?fs1 a" .
  have src: "content ?fs1 a = content (disk s) a" if "(a, b) \<in> set ?ps" for a b
  proof -
    from fresh that have "is_file (disk s) a" by auto
    from present_not_absent [OF is_file_present [OF this] none] show ?thesis
      by (simp add: content_def fr1)
  qed
  have "stat (foldl (\<lambda>fs (a, b). copyFile_fs env a b fs) ?fs1 ?ps) ?J = stat ?fs1 ?J"
  proof (rule copies_frame [where T = "\<lambda>b. {b}" and cp = "copyFile_fs env", OF copyFile_fs_frame])
    show "\<forall>(a, b)\<in>set ?ps. ?J \<notin> {b}" using jodit_copies_shape by fastforce
  qed simp
  with jd have "is_dir (foldl (\<lambda>fs (a, b). copyFile_fs env a b fs) ?fs1 ?ps) ?J"
    by (simp add: is_dir_def)
  with c src mk show ?thesis by (auto simp: copyJodit_fold)
qed

end
