(* ===== verification/Examples.thy ===== *)
theory Examples
  imports Assembler
begin

text \<open>
  Concrete inputs on which the properties of the components are applied: a Linux
  environment with umask 022 and a sqlite3 that appends what it reads, a
  configuration with the flags' defaults and a target folder \<open>inst\<close>, and a small
  source tree \<open>sm3\<close> beside the target. The witnesses below discharge each
  property's hypotheses on these inputs.
\<close>

definition demo_env :: osenv where
  "demo_env = \<lparr>goos = ''linux'', umask = 0x12, sqlite = db_step\<rparr>"

definition demo_cfg :: config where
  "demo_cfg = \<lparr>srcFolder = [''sm3''], runsmFolder = [''runsm''], ebcfetchFolder = [''ebcfetch''],
     smpatchFolder = [''smpatch''], phpFolder = [''PHP''], targetFolder = [''inst''],
     db2Use = ''v'', rblr = False, lang2use = ''en'', overwriteok = False, nodebug = False\<rparr>"

definition demo_src :: fsys where
  "demo_src = [([''sm3''], Dir 0x1ED), ([''sm3'', ''utils''], Dir 0x1ED),
     ([''sm3'', ''utils'', ''sqlite3''], File 0x1ED ''ELF''),
     ([''sm3'', ''ScoreMaster.sql''], File 0x1A4 ''CREATE;''),
     ([''sm3'', ''Reasons-de.sql''], File 0x1A4 ''GRUENDE;''),
     ([''sm3'', ''rblrcerts.sql''], File 0x1A4 ''CERTS;''),
     ([''sm3'', ''ScoreMaster.db''], File 0x1A4 ''SQLITE''),
     ([''sm3'', ''index.php''], File 0x1A4 ''<?php''),
     ([''sm3'', ''images''], Dir 0x1ED),
     ([''sm3'', ''images'', ''ibauk.png''], File 0x1A4 ''P1''),
     ([''sm3'', ''images'', ''ibauk90.png''], File 0x1A4 ''P2''),
     ([''sm3'', ''images'', ''alertalert.png''], File 0x1A4 ''P3''),
     ([''sm3'', ''images'', ''alertbike.png''], File 0x1A4 ''P4''),
     ([''sm3'', ''images'', ''alertface.png''], File 0x1A4 ''P5''),
     ([''sm3'', ''images'', ''alertdaylight.png''], File 0x1A4 ''P6''),
     ([''sm3'', ''images'', ''alertnight.png''], File 0x1A4 ''P7''),
     ([''sm3'', ''images'', ''alertreceipt.png''], File 0x1A4 ''P8''),
     ([''sm3'', ''images'', ''alertrestricted.png''], File 0x1A4 ''P9''),
     ([''sm3'', ''images'', ''alertteam.png''], File 0x1A4 ''P10'')]"

text \<open>The source tree with the service folder and its images folder already made.\<close>

definition demo_disk :: fsys where
  "demo_disk = demo_src @
     [([''inst''], Dir 0x1ED), ([''inst'', ''sm''], Dir 0x1ED), ([''inst'', ''sm'', ''images''], Dir 0x1ED)]"

text \<open>The process at the start of the population steps: the demo disk, nothing printed.\<close>

definition demo_proc :: proc where
  "demo_proc = \<lparr>disk = demo_disk, out = []\<rparr>"

text \<open>
  The source tree of a complete run: the tree above with the editor assets, the
  vendored packages (one file) and a help folder with a Markdown page and an image.
  No target exists yet.
\<close>

definition demo_tree :: fsys where
  "demo_tree = demo_src @
     [([''sm3'', ''jodit''], Dir 0x1ED), ([''sm3'', ''vendor''], Dir 0x1ED),
      ([''sm3'', ''vendor'', ''autoload.php''], File 0x1A4 ''<?php''),
      ([''sm3'', ''help''], Dir 0x1ED), ([''sm3'', ''help'', ''index.md''], File 0x1A4 ''# Help''),
      ([''sm3'', ''help'', ''logo.png''], File 0x1A4 ''PNG'')]"

definition demo_run :: proc where
  "demo_run = \<lparr>disk = demo_tree, out = []\<rparr>"

text \<open>
  A Windows environment, and three small disks for the population steps: the
  executables' sources (with their \<open>.exe\<close> names) beside a target that has its
  \<open>caddy\<close> folder, the editor's sources beside a service folder, and a bare target.
\<close>

definition demo_win :: osenv where
  "demo_win = demo_env\<lparr>goos := ''windows''\<rparr>"

definition demo_exec_proc :: proc where
  "demo_exec_proc = \<lparr>disk = [([''inst''], Dir 0x1ED), ([''inst'', ''caddy''], Dir 0x1ED),
      ([''sm3''], Dir 0x1ED), ([''sm3'', ''utils''], Dir 0x1ED),
      ([''sm3'', ''utils'', ''caddy.exe''], File 0x1ED ''CADDY''),
      ([''ebcfetch''], Dir 0x1ED), ([''ebcfetch'', ''ebcfetch.exe''], File 0x1ED ''EBC''),
      ([''smpatch''], Dir 0x1ED), ([''smpatch'', ''smpatch.exe''], File 0x1ED ''SMP''),
      ([''runsm''], Dir 0x1ED), ([''runsm'', ''runsm.exe''], File 0x1ED ''RUN'')], out = []\<rparr>"

definition demo_jodit_proc :: proc where
  "demo_jodit_proc = \<lparr>disk = [([''inst''], Dir 0x1ED), ([''inst'', ''sm''], Dir 0x1ED),
      ([''sm3''], Dir 0x1ED), ([''sm3'', ''jodit''], Dir 0x1ED), ([''sm3'', ''jodit'', ''build''], Dir 0x1ED),
      ([''sm3'', ''jodit'', ''build'', ''jodit.min.js''], File 0x1A4 ''JS''),
      ([''sm3'', ''jodit'', ''build'', ''jodit.min.css''], File 0x1A4 ''CSS''),
      ([''sm3'', ''images''], Dir 0x1ED), ([''sm3'', ''images'', ''icons''], Dir 0x1ED),
      ([''sm3'', ''images'', ''icons'', ''fields.png''], File 0x1A4 ''F''),
      ([''sm3'', ''images'', ''icons'', ''borders.png''], File 0x1A4 ''B'')], out = []\<rparr>"

definition demo_readme_proc :: proc where
  "demo_readme_proc = \<lparr>disk = [([''inst''], Dir 0x1ED)], out = []\<rparr>"

lemmas demo_defs = demo_env_def demo_cfg_def demo_src_def demo_disk_def demo_proc_def

subsection \<open>Facts about the demo inputs\<close>

lemma demo_par: "srcFolder demo_cfg \<parallel> smFolder demo_cfg"
  by (simp add: demo_cfg_def smFolder_def parallel_def)

lemma demo_par_cfg: "srcFolder (demo_cfg\<lparr>db2Use := d, rblr := r, lang2use := l\<rparr>) \<parallel>
    smFolder (demo_cfg\<lparr>db2Use := d, rblr := r, lang2use := l\<rparr>)"
  by (simp add: demo_cfg_def smFolder_def parallel_def)

lemma demo_sm: "is_dir (disk demo_proc) (smFolder demo_cfg)"
  by (simp add: demo_defs smFolder_def is_dir_def)

lemma demo_images: "is_dir (disk demo_proc) (smFolder demo_cfg @ [''images''])"
  by (simp add: demo_defs smFolder_def is_dir_def)

lemma demo_images_free:
  "\<forall>n \<in> set myIMAGES \<union> set rblrIMAGES. \<not> is_dir (disk demo_proc) (smFolder demo_cfg @ [''images'', n])"
  by (simp add: demo_defs smFolder_def is_dir_def myIMAGES_def rblrIMAGES_def)

lemma demo_images_present:
  "\<forall>n\<in>set (selected_images demo_cfg). is_file (disk demo_proc) (srcFolder demo_cfg @ [''images'', n])"
  by (simp add: demo_defs selected_images_def rblr_wanted_def is_file_def myIMAGES_def)

lemma demo_exec: "exec_ok demo_env (disk demo_proc) ([''sm3''] @ [utilsFolder, sqlite3])"
  by (simp add: demo_defs exec_ok_def binexe_def)

lemma demo_no_db: "stat (disk demo_proc) ([''inst'', ''sm''] @ [''ScoreMaster.db'']) = None"
  by (simp add: demo_defs)

subsection \<open>Witnesses of the selector's properties\<close>

theorem langfile_sources_witness:
  "map (replace_first ''.'' (lang_token ''de'')) myLANGFILES = [''custom-de.js'', ''customvars-de.php'']"
  using langfile_sources [of "''de''"] by simp

theorem copySMFiles_best_effort_witness:
  "content (disk (copySMFiles demo_env demo_cfg demo_proc)) [''inst'', ''sm'', ''index.php''] = Some ''<?php''"
proof -
  have nd: "\<forall>n \<in> set mySMFILES \<union> set myLANGFILES. \<not> is_dir (disk demo_proc) (smFolder demo_cfg @ [n])"
    by (simp add: demo_defs smFolder_def is_dir_def mySMFILES_def myLANGFILES_def)
  have r: "\<forall>n\<in>set mySMFILES. is_file (disk demo_proc) (srcFolder demo_cfg @ [n]) \<longrightarrow>
      content (disk (copySMFiles demo_env demo_cfg demo_proc)) (smFolder demo_cfg @ [n]) =
      content (disk demo_proc) (srcFolder demo_cfg @ [n])"
    using copySMFiles_best_effort [OF demo_par demo_sm nd, of demo_env] by blast
  have i: "''index.php'' \<in> set mySMFILES" by (simp add: mySMFILES_def)
  have f: "is_file (disk demo_proc) (srcFolder demo_cfg @ [''index.php''])"
    by (simp add: demo_defs is_file_def)
  have c: "content (disk demo_proc) (srcFolder demo_cfg @ [''index.php'']) = Some ''<?php''"
    by (simp add: demo_defs content_def)
  have d: "smFolder demo_cfg @ [''index.php''] = [''inst'', ''sm'', ''index.php'']"
    by (simp add: demo_cfg_def smFolder_def)
  from r i f c d show ?thesis by simp
qed

theorem copyImages_refines_witness:
  "copyImages demo_env demo_cfg demo_proc =
     copyImageSet demo_env demo_cfg myIMAGES (logln ''Copying images'' demo_proc)"
  using copyImages_refines [of demo_env demo_cfg demo_proc]
  by (simp add: selected_images_def rblr_wanted_def demo_cfg_def)

theorem copyImages_fatal_iff_witness:
  "\<exists>s'. copyImages demo_env demo_cfg demo_proc = Inr s'"
  using copyImages_fatal_iff [OF demo_par demo_images demo_images_free, of demo_env] demo_images_present
  by blast

theorem copyImages_content_witness:
  "\<exists>s'. copyImages demo_env demo_cfg demo_proc = Inr s' \<and>
        content (disk s') [''inst'', ''sm'', ''images'', ''ibauk.png''] = Some ''P1''"
proof -
  have np: "\<forall>n\<in>set (selected_images demo_cfg).
      \<not> prefix (smFolder demo_cfg @ [''images'']) (srcFolder demo_cfg @ [''images'', n])"
    using par_not_prefix [OF demo_par] by blast
  have nd: "\<forall>n\<in>set (selected_images demo_cfg).
      \<not> is_dir (disk (logln ''Copying images'' demo_proc)) ((smFolder demo_cfg @ [''images'']) @ [n])"
    using demo_images_free by (auto simp: selected_images_def)
  have im: "is_dir (disk (logln ''Copying images'' demo_proc)) (smFolder demo_cfg @ [''images''])"
    using demo_images by simp
  from copyImageSet_ok_iff [OF im np nd refl refl, of demo_env] demo_images_present
  obtain s' where ok: "copyImages demo_env demo_cfg demo_proc = Inr s'"
    by (auto simp: copyImages_selected)
  have "\<forall>n\<in>set (selected_images demo_cfg).
      content (disk s') (smFolder demo_cfg @ [''images'', n]) =
      content (disk demo_proc) (srcFolder demo_cfg @ [''images'', n])"
    using copyImages_content [OF demo_par demo_images demo_images_free ok] by blast
  moreover have "''ibauk.png'' \<in> set (selected_images demo_cfg)"
    by (simp add: selected_images_def myIMAGES_def)
  moreover have "content (disk demo_proc) (srcFolder demo_cfg @ [''images'', ''ibauk.png'']) = Some ''P1''"
    by (simp add: demo_defs content_def)
  moreover have "smFolder demo_cfg @ [''images'', ''ibauk.png''] = [''inst'', ''sm'', ''images'', ''ibauk.png'']"
    by (simp add: demo_cfg_def smFolder_def)
  ultimately show ?thesis using ok by auto
qed


subsection \<open>Witnesses of the bootstrap's properties\<close>

theorem copyDatabase_refines_witness:
  "copyDatabase demo_env demo_cfg demo_proc =
     run_plan demo_env demo_cfg [([], ''ScoreMaster.sql'', ''*** can't load ScoreMaster.sql'')]
       (logln ''Establishing database'' demo_proc)"
  using copyDatabase_refines [of demo_env demo_cfg demo_proc]
  by (simp add: bootstrap_plan_def rblr_wanted_def demo_cfg_def)

text \<open>German reasons and the RBLR extras: all three scripts, in order.\<close>

theorem copyDatabase_sql_order_witness:
  "\<exists>s'. copyDatabase demo_env (demo_cfg\<lparr>db2Use := ''v'', rblr := True, lang2use := ''de''\<rparr>) demo_proc = Inr s' \<and>
        content (disk s') [''inst'', ''sm'', ''ScoreMaster.db''] = Some ''CREATE;GRUENDE;CERTS;''"
proof -
  let ?c = "demo_cfg\<lparr>db2Use := ''v'', rblr := True, lang2use := ''de''\<rparr>"
  have cfg: "srcFolder ?c = [''sm3'']" "smFolder ?c = [''inst'', ''sm'']" "dbFile ?c = [''inst'', ''sm'', ''ScoreMaster.db'']"
    by (simp_all add: demo_cfg_def smFolder_def dbFile_def)
  have ex: "exec_ok demo_env (disk demo_proc) (srcFolder ?c @ [utilsFolder, sqlite3])"
    using demo_exec cfg(1) by simp
  have sm: "is_dir (disk demo_proc) (smFolder ?c)"
    using demo_sm by (simp add: demo_cfg_def smFolder_def)
  have nd: "stat (disk demo_proc) (dbFile ?c) = None"
    using demo_no_db cfg(3) by simp
  have rec: "\<forall>db sql. sqlite demo_env db sql = db_step db sql" by (simp add: demo_env_def)
  have t: "script_text (disk demo_proc) ?c ''ScoreMaster.sql'' = ''CREATE;''"
    "script_text (disk demo_proc) ?c (''Reasons-'' @ ''de'' @ ''.sql'') = ''GRUENDE;''"
    "script_text (disk demo_proc) ?c ''rblrcerts.sql'' = ''CERTS;''"
    by (simp_all add: script_text_def os_readfile_def demo_defs)
  from copyDatabase_sql_order [of ?c demo_env demo_proc, OF _ demo_par_cfg ex sm nd rec] t cfg(3)
  show ?thesis by simp
qed

theorem copyDatabase_live_copy_witness:
  "copyDatabase (demo_env\<lparr>sqlite := (\<lambda>_ _. None)\<rparr>) (demo_cfg\<lparr>db2Use := ''l'', rblr := False, lang2use := ''en''\<rparr>) demo_proc =
     copyDatabase (demo_env\<lparr>sqlite := db_step\<rparr>) (demo_cfg\<lparr>db2Use := ''l'', rblr := False, lang2use := ''en''\<rparr>) demo_proc \<and>
   (\<exists>s'. copyDatabase demo_env (demo_cfg\<lparr>db2Use := ''l'', rblr := False, lang2use := ''en''\<rparr>) demo_proc = Inr s' \<and>
        content (disk s') [''inst'', ''sm'', ''ScoreMaster.db''] = Some ''SQLITE'')"
proof -
  let ?c = "demo_cfg\<lparr>db2Use := ''l'', rblr := False, lang2use := ''en''\<rparr>"
  have cfg: "srcFolder ?c = [''sm3'']" "smFolder ?c = [''inst'', ''sm'']" "dbFile ?c = [''inst'', ''sm'', ''ScoreMaster.db'']"
    by (simp_all add: demo_cfg_def smFolder_def dbFile_def)
  have st: "stat (disk demo_proc) (srcFolder ?c @ [''ScoreMaster.db'']) = Some (File 0x1A4 ''SQLITE'')"
    using cfg(1) by (simp add: demo_defs)
  have sm: "is_dir (disk demo_proc) (smFolder ?c)"
    using demo_sm by (simp add: demo_cfg_def smFolder_def)
  have nd: "\<not> is_dir (disk demo_proc) (dbFile ?c)"
    using demo_no_db cfg(3) by (simp add: is_dir_def)
  have l: "db2Use ?c = ''l''" by simp
  from copyDatabase_live_copy [OF l, where env = demo_env and f = "\<lambda>_ _. None" and s = demo_proc
      and g = db_step and m = "0x1A4" and c = "''SQLITE''"]
    st sm nd demo_par_cfg cfg(3)
  show ?thesis by simp
qed

theorem copyDatabase_live_missing_continues_witness:
  "copyDatabase demo_env (demo_cfg\<lparr>srcFolder := [''sm2''], db2Use := ''l''\<rparr>) demo_proc =
     Inr (logln ''Establishing database'' demo_proc)"
proof -
  let ?c = "demo_cfg\<lparr>srcFolder := [''sm2''], db2Use := ''l''\<rparr>"
  have l: "db2Use ?c = ''l''" by simp
  have st: "stat (disk demo_proc) (srcFolder ?c @ [''ScoreMaster.db'']) = None"
    by (simp add: demo_defs)
  show ?thesis by (rule copyDatabase_live_missing_continues [OF l st])
qed

theorem loadSQL_missing_script_witness:
  "\<exists>fs'. loadSQL demo_env demo_cfg ''Reasons-fr.sql'' demo_proc = (True, demo_proc\<lparr>disk := fs'\<rparr>) \<and>
         content fs' [''inst'', ''sm'', ''ScoreMaster.db''] = Some []"
proof -
  have cfg: "srcFolder demo_cfg = [''sm3'']" "dbFile demo_cfg = [''inst'', ''sm'', ''ScoreMaster.db'']"
    by (simp_all add: demo_cfg_def smFolder_def dbFile_def)
  have st: "stat (disk demo_proc) (srcFolder demo_cfg @ [''Reasons-fr.sql'']) = None"
    using cfg(1) by (simp add: demo_defs)
  have ex: "exec_ok demo_env (disk demo_proc) (srcFolder demo_cfg @ [utilsFolder, sqlite3])"
    using demo_exec cfg(1) by simp
  have nd: "\<not> is_dir (disk demo_proc) (dbFile demo_cfg)"
    using demo_no_db cfg(2) by (simp add: is_dir_def)
  have "content (disk demo_proc) (dbFile demo_cfg) = None"
    using demo_no_db cfg(2) by (simp add: content_def)
  then have sq: "sqlite demo_env (content (disk demo_proc) (dbFile demo_cfg)) [] = Some []"
    by (simp add: demo_env_def db_step_def)
  from loadSQL_missing_script [OF st ex demo_sm nd sq] cfg(2) show ?thesis by simp
qed

subsection \<open>A complete run\<close>

text \<open>
  On the demo tree the whole of \<open>main\<close> succeeds: evaluated once here and shared
  by the witnesses of the assembler's properties.
\<close>

lemma demo_main_runs:
  "case main demo_env demo_cfg demo_run of Some (Inr s) \<Rightarrow> True | _ \<Rightarrow> False"
  by code_simp

lemma demo_main_Inr: "\<exists>s'. main demo_env demo_cfg demo_run = Some (Inr s')"
  using demo_main_runs by (auto split: option.splits sum.splits)

subsection \<open>Witnesses of the validator's, help mirror's and assembler's properties\<close>

theorem checkPrerequisites_reports_all_witness:
  "\<exists>s'. checkPrerequisites demo_env demo_cfg demo_proc = Inl s' \<and> length (out s') = 5"
  using checkPrerequisites_reports_all [of demo_env demo_cfg demo_proc]
  by (simp add: missing_prereqs_def prereq_rows_def prereq_diag_def fileOrFolderExists_def
      demo_defs fatal_def Let_def)

theorem generateHelp_terminates_witness:
  "\<exists>r. generateHelp demo_env demo_cfg demo_run = Some r"
proof -
  have p: "srcFolder demo_cfg @ [helpFolder] \<parallel> targetFolder demo_cfg @ [''sm'', helpFolder]"
    by (simp add: demo_cfg_def parallel_def)
  have m: "\<forall>c\<in>set (targetFolder demo_cfg). \<not> mdre_match c"
    by (simp add: demo_cfg_def mdre_match_def)
  from generateHelp_terminates [OF p m, of demo_env demo_run] show ?thesis by blast
qed

theorem main_refuses_witness:
  "\<exists>s'. main demo_env demo_cfg demo_proc = Some (Inl s') \<and> disk s' = demo_disk"
proof -
  have h: "targetFolder demo_cfg = [] \<or> (\<not> overwriteok demo_cfg \<and> stat (disk demo_proc) (targetFolder demo_cfg) \<noteq> None)"
    by (simp add: demo_defs)
  from main_refuses [OF h, of demo_env] show ?thesis by (simp add: demo_proc_def)
qed

theorem main_layout_witness:
  "\<exists>s'. main demo_env demo_cfg demo_run = Some (Inr s') \<and> is_dir (disk s') [''inst'', ''sm'', ''images'', ''bonuses'']"
proof -
  from demo_main_Inr obtain s' where run: "main demo_env demo_cfg demo_run = Some (Inr s')" ..
  have "[''inst'', ''sm'', ''images'', ''bonuses''] \<in> set (layout_dirs demo_cfg)"
    by (simp add: layout_dirs_def smFolder_def demo_cfg_def)
  with main_layout [OF run] run show ?thesis by blast
qed

theorem main_success_guards_witness:
  "\<exists>s'. main demo_env demo_cfg demo_run = Some (Inr s') \<and> missing_prereqs demo_env demo_cfg demo_tree = []"
proof -
  from demo_main_Inr obtain s' where run: "main demo_env demo_cfg demo_run = Some (Inr s')" ..
  from main_success_guards [OF run] run show ?thesis by (auto simp: demo_run_def)
qed

theorem writeReadme_functional_witness:
  "content (disk (writeReadme demo_env demo_cfg demo_readme_proc)) [''inst'', ''readme.txt''] =
     Some (myREADME @ nl @ nl @ ''linux'') \<and>
   content (disk (writeReadme demo_env demo_cfg demo_readme_proc)) [''inst'', ''linux''] = Some []"
  using writeReadme_functional [where env = demo_env and cfg = demo_cfg and s = demo_readme_proc]
  by (simp add: demo_env_def demo_cfg_def demo_readme_proc_def is_dir_def)

theorem copyExecs_installs_witness:
  "content (disk (copyExecs demo_win demo_cfg demo_exec_proc)) [''inst'', ''caddy'', ''caddy.exe''] = Some ''CADDY'' \<and>
   content (disk (copyExecs demo_win demo_cfg demo_exec_proc)) [''inst'', ''debugsm.exe''] = Some ''RUN''"
proof -
  have h1: "goos demo_win \<noteq> ''linux''" by (simp add: demo_win_def demo_env_def)
  have h2: "is_dir (disk demo_exec_proc) (targetFolder demo_cfg)"
    and h3: "is_dir (disk demo_exec_proc) (targetFolder demo_cfg @ [''caddy''])"
    by (simp_all add: demo_cfg_def demo_exec_proc_def is_dir_def)
  have h4: "\<forall>(a, b)\<in>set (exec_copies demo_cfg). is_file (disk demo_exec_proc) (binexe demo_win a) \<and>
      stat (disk demo_exec_proc) b = None \<and> stat (disk demo_exec_proc) (binexe demo_win b) = None"
    by (simp add: demo_win_def demo_env_def demo_cfg_def demo_exec_proc_def exec_copies_def binexe_def is_file_def)
  from copyExecs_installs [OF h1 h2 h3 h4]
  have c: "\<forall>(a, b)\<in>set (exec_copies demo_cfg).
      content (disk (copyExecs demo_win demo_cfg demo_exec_proc)) (binexe demo_win b) =
      content (disk demo_exec_proc) (binexe demo_win a)" by blast
  then show ?thesis
    by (simp add: demo_win_def demo_env_def demo_cfg_def demo_exec_proc_def exec_copies_def binexe_def content_def)
qed

theorem copyJodit_installs_witness:
  "\<exists>s'. copyJodit demo_env demo_cfg demo_jodit_proc = Inr s' \<and>
     content (disk s') [''inst'', ''sm'', ''jodit'', ''borders.png''] = Some ''B''"
proof -
  have h1: "is_dir (disk demo_jodit_proc) (smFolder demo_cfg)"
    by (simp add: demo_cfg_def demo_jodit_proc_def smFolder_def is_dir_def)
  have h2: "stat (disk demo_jodit_proc) (smFolder demo_cfg @ [''jodit'']) = None"
    by (simp add: demo_cfg_def demo_jodit_proc_def smFolder_def)
  have h3: "\<forall>(a, b)\<in>set (jodit_copies demo_cfg). is_file (disk demo_jodit_proc) a \<and> stat (disk demo_jodit_proc) b = None"
    by (simp add: demo_cfg_def demo_jodit_proc_def jodit_copies_def smFolder_def is_file_def)
  from copyJodit_installs [OF h1 h2 h3, of demo_env] obtain s' where
    r: "copyJodit demo_env demo_cfg demo_jodit_proc = Inr s'"
    and c: "\<forall>(a, b)\<in>set (jodit_copies demo_cfg). content (disk s') b = content (disk demo_jodit_proc) a"
    by blast
  have "content (disk s') [''inst'', ''sm'', ''jodit'', ''borders.png''] =
      content (disk demo_jodit_proc) [''sm3'', ''images'', ''icons'', ''borders.png'']"
    using c by (simp add: jodit_copies_def demo_cfg_def smFolder_def)
  also have "\<dots> = Some ''B''" by (simp add: demo_jodit_proc_def content_def)
  finally show ?thesis using r by blast
qed

end
