(* ===== verification/Spec2Isabelle.thy ===== *)
theory Spec2Isabelle
  imports Examples
begin

text \<open>
  A verification development for makesm.go (ibauk/makesm), the program that
  assembles a distributable ScoreMaster installation from a developer source tree.
  The program is one Go file, src/makesm.go; its parts and where they are modelled:

  \<^item> Prelude: paths as lists of names, Go's \<open>strings.Replace\<close> (\<open>replace_first\<close>,
    \<open>replace_all\<close>) and the rendering of a path (\<open>path_str\<close>).
  \<^item> FileSystem: the environment the program runs in, not code of the repository:
    the disk as an association list from paths to nodes (\<open>File mode bytes\<close>,
    \<open>Dir mode\<close>), the Go \<open>os\<close> primitives as functions on it (\<open>os_mkdir\<close>,
    \<open>os_mkdirAll\<close>, \<open>os_create\<close>, \<open>os_write\<close>, \<open>os_readfile\<close>, \<open>os_readdir\<close>,
    \<open>os_removeAll\<close>, \<open>os_chmod\<close>), the process state \<open>proc\<close> (disk and printed
    transcript) and steps that continue (\<open>Inr\<close>), end the process through
    \<open>log.Fatal\<close> (\<open>Inl\<close>) or do not return (\<open>None\<close>). The tree invariant \<open>fs_wf\<close>
    is kept by every primitive.
  \<^item> Config: the command-line flags as the record \<open>config\<close> and \<open>smFolder\<close>.
  \<^item> Copier: \<open>binexe\<close>, \<open>copyFile\<close>, \<open>copyExec\<close>, \<open>fileOrFolderExists\<close>,
    \<open>establishFolder\<close>, \<open>makeFolder\<close> and \<open>copyFolderTree\<close>. The tree copy is a
    \<^theory_text>\<open>partial_function (option)\<close> over a task (\<open>TreeTask\<close> for a call,
    \<open>EntriesTask\<close> for its loop over the directory's entries), because it does not
    return when the destination lies inside the source; its termination is proved
    for parallel source and destination by strong induction on the number of paths
    below the source. A sequence of copies whose destinations are apart from each
    other and from every source leaves each destination with its source's bytes
    (\<open>copies_content\<close>, stated once over the copy operation and instantiated for
    \<open>copyFile\<close> and \<open>copyExec\<close>).
  \<^item> Selector: the manifests (\<open>mySMFILES\<close>, \<open>myLANGFILES\<close>, \<open>myIMAGES\<close>,
    \<open>rblrIMAGES\<close>), the language token of \<open>copySMFiles\<close> (\<open>lang_token\<close>), the
    best-effort copy loops of \<open>copySMFiles\<close> (\<open>copy_logged\<close>) and the fatal ones of
    \<open>copyImageSet\<close>/\<open>copyImages\<close>. \<open>selected_images\<close> is the specification's
    selection (base set, plus the RBLR set when \<open>rblr_wanted\<close>), which
    \<open>copyImages\<close> is proved to refine; the loop lemmas (\<open>copy_logged_copies\<close>,
    \<open>copyImageSet_ok_iff\<close>) give the content, frame and transcript of each loop.
  \<^item> Database: \<open>loadSQL\<close> and \<open>copyDatabase\<close>. The sqlite3 process is the oracle
    \<open>sqlite\<close> of the environment: from the database's bytes and the script it gives
    the new bytes or a non-zero exit. \<open>bootstrap_plan\<close>/\<open>run_plan\<close> are the
    specification's ordered plan of script loads, which \<open>copyDatabase\<close> refines;
    under the recording oracle \<open>db_step\<close> the order of the loads is visible in the
    database's bytes.
  \<^item> Prereq: \<open>checkPrerequisites\<close>. Its nine guarded probes are the rows of
    \<open>prereq_rows\<close> (platform condition, probed path, hint lines) in source order,
    and the sequence of \<open>if\<close> blocks is a fold of \<open>prereq_step\<close>; the specification's
    view is \<open>missing_prereqs\<close>/\<open>prereq_diag\<close> (one diagnostic block per missing
    artifact, then one fatal line).
  \<^item> Help: \<open>copyHelp\<close> (a \<^theory_text>\<open>partial_function (option)\<close> over a task, like the
    tree copy, whose result also records a fatal \<open>makeFolder\<close>), \<open>copyMarkdown\<close>
    (Go's replacement of \<open>.md\<close> over the whole destination path, done per component,
    which \<open>replace_all_path_str\<close> of Prelude justifies), the name test
    \<open>mdre_match\<close> of the regular expression \<open>\.md\<close>, and \<open>generateHelp\<close>.
  \<^item> Assembler: \<open>main\<close> as a sequence of steps (\<open>main_steps\<close>: validation, the
    optional \<open>zapTarget\<close>, the eight \<open>makeFolder\<close> calls of \<open>layout_dirs\<close>, then
    \<open>populate_steps\<close>: \<open>writeReadme\<close>, \<open>copyPHP\<close>, \<open>copyDatabase\<close>,
    \<open>copySMFiles\<close>, \<open>copyExecs\<close>, \<open>copyImages\<close>, \<open>copyJodit\<close>,
    \<open>copyPhpPackages\<close>, \<open>generateHelp\<close> and the final message), run by
    \<open>run_steps\<close> of FileSystem, the first fatal step ending the run. The copies of
    \<open>copyExecs\<close> and \<open>copyJodit\<close> are listed in source order by \<open>exec_copies\<close>
    and \<open>jodit_copies\<close>, and the two steps are proved equal to folds over them.
  \<^item> Examples: a concrete Linux environment, configuration and source trees on which
    the properties are applied (their witnesses), including one complete run of
    \<open>main\<close> evaluated by \<open>code_simp\<close>, and a Windows environment for the
    executables.

  Lemma groups. The component theories prove the functional behaviour of the
  copier, the selector, the bootstrap, the validator, \<open>writeReadme\<close>,
  \<open>copyExecs\<close> and \<open>copyJodit\<close> (contents, frames and transcripts, errors
  included); for \<open>copyPHP\<close> and \<open>copyPhpPackages\<close> only termination of their tree
  copies and the growth below are proved. Every operation, under the named collection
  \<open>grows_rules\<close>, that each operation makes the disk grow (\<open>grows\<close>: every
  directory stays one and a well-formed tree stays well-formed); the partial
  functions do so by fixpoint induction (\<open>raw_induct\<close>). \<open>run_steps_keeps\<close> lifts
  such a relation from steps to a sequence of steps, which gives the layout
  theorem of \<open>main\<close> and the invariant \<open>main_keeps_wf\<close>. Of \<open>main\<close> itself the
  guards are proved: it refuses an existing target without the overwrite flag
  with the disk unchanged, and it succeeds only when its guards passed. This
  theory adds the property that spans components: on Linux the unprobed sqlite3
  binary makes the bootstrap fail after the validator has let the run go on.

  Termination and fuel: no fuel is used. Loops over the fixed manifests and the
  probe table are structural recursion or folds; \<open>os_mkdirAll\<close> recurses on the
  length of the path; the tree copy and the help mirror are partial functions whose
  termination is a theorem: for a source parallel to the destination (and, for the
  help mirror, a target free of \<open>.md\<close> components) by strong induction on the number
  of paths below the source, which no write of the copy can change.

  Not modelled: the timestamps \<open>log\<close> adds to a line, the one-second sleep in
  \<open>zapTarget\<close>, I/O failures of the disk itself (\<open>io.Copy\<close> errors, which end the
  run in \<open>copyFile\<close>), \<open>flag.Parse\<close> (the flags are the record \<open>config\<close>),
  permissions other than the mode bits, symbolic links, and the goroutine that
  feeds sqlite3 (the process reads the whole script). The model's \<open>stat\<close> fails
  only for a missing path, so \<open>fileOrFolderExists\<close> (\<open>!os.IsNotExist(err)\<close> in Go)
  is \<open>stat\<close> succeeding: the Go case of another stat error, such as a path through a
  regular file, which Go counts as existing, is not represented.
\<close>

subsection \<open>Properties across components\<close>

text \<open>
  C19: On Linux the validator does not probe the sqlite3 binary, but the bootstrap
  runs it: with the editor assets and vendored packages present and no
  \<open>utils/sqlite3\<close> in the source tree, \<open>checkPrerequisites\<close> lets the run continue
  unchanged, and for every database code but \<open>l\<close> \<open>copyDatabase\<close> then ends it.
\<close>

theorem linux_sqlite_unprobed:
  assumes "goos env = ''linux''" and "db2Use cfg \<noteq> ''l''"
    and "fileOrFolderExists (disk s) (srcFolder cfg @ [''jodit''])"
    and "fileOrFolderExists (disk s) (srcFolder cfg @ [''vendor''])"
    and "stat (disk s) (srcFolder cfg @ [utilsFolder, sqlite3]) = None"
  shows "checkPrerequisites env cfg s = Inr s \<and> (\<exists>s'. copyDatabase env cfg s = Inl s')"
proof
  have "missing_prereqs env cfg (disk s) = []"
    using assms(1,3,4) by (simp add: missing_prereqs_def prereq_rows_def Let_def)
  then show "checkPrerequisites env cfg s = Inr s"
    by (simp add: checkPrerequisites_fold Let_def)
next
  have "\<not> exec_ok env (disk s) (srcFolder cfg @ [utilsFolder, sqlite3])"
    using assms(1,5) by (simp add: exec_ok_def binexe_def)
  with assms(2) show "\<exists>s'. copyDatabase env cfg s = Inl s'"
    by (simp add: copyDatabase_plan bootstrap_plan_def fatal_def loadSQL_no_exec)
qed

theorem linux_sqlite_unprobed_witness:
  "(\<exists>s'. copyDatabase \<lparr>goos = ''linux'', umask = 0x12, sqlite = (\<lambda>db sc. Some sc)\<rparr>
      \<lparr>srcFolder = [''s''], runsmFolder = [''r''], ebcfetchFolder = [''e''], smpatchFolder = [''p''],
       phpFolder = [''php''], targetFolder = [''t''], db2Use = ''v'', rblr = False, lang2use = ''en'',
       overwriteok = False, nodebug = False\<rparr>
      \<lparr>disk = [([''s''], Dir 0x1ED), ([''s'', ''jodit''], Dir 0x1ED), ([''s'', ''vendor''], Dir 0x1ED)],
       out = []\<rparr> = Inl s')"
proof -
  let ?env = "\<lparr>goos = ''linux'', umask = 0x12, sqlite = (\<lambda>db sc. Some sc)\<rparr> :: osenv"
  let ?cfg = "\<lparr>srcFolder = [''s''], runsmFolder = [''r''], ebcfetchFolder = [''e''], smpatchFolder = [''p''],
       phpFolder = [''php''], targetFolder = [''t''], db2Use = ''v'', rblr = False, lang2use = ''en'',
       overwriteok = False, nodebug = False\<rparr>"
  let ?s = "\<lparr>disk = [([''s''], Dir 0x1ED), ([''s'', ''jodit''], Dir 0x1ED), ([''s'', ''vendor''], Dir 0x1ED)],
       out = []\<rparr>"
  have h: "goos ?env = ''linux''" "db2Use ?cfg \<noteq> ''l''"
    "fileOrFolderExists (disk ?s) (srcFolder ?cfg @ [''jodit''])"
    "fileOrFolderExists (disk ?s) (srcFolder ?cfg @ [''vendor''])"
    "stat (disk ?s) (srcFolder ?cfg @ [utilsFolder, sqlite3]) = None"
    by (simp_all add: fileOrFolderExists_def)
  from linux_sqlite_unprobed [OF h] show ?thesis by blast
qed

end
